theory Spec2Isabelle
  imports Complex_Main "HOL-Library.Sublist" "HOL-Library.Char_ord" "HOL-Library.List_Lexorder"
begin

section \<open>Conventions of the embedding\<close>

text \<open>
  The engine is a pipeline of pure TypeScript functions (\<^verbatim>\<open>eda.ts\<close>, \<^verbatim>\<open>kpis.ts\<close>,
  \<^verbatim>\<open>charts.ts\<close>, \<^verbatim>\<open>insights.ts\<close>, \<^verbatim>\<open>ask.ts\<close>, \<^verbatim>\<open>typeInference.ts\<close>).  Each function is
  translated into a HOL function of the same name.

  \<^item> A JavaScript number that is finite is a \<^typ>\<open>real\<close>: arithmetic is exact, without the
    rounding and the overflow of IEEE doubles.  \<^verbatim>\<open>null\<close> results are \<^const>\<open>None\<close>.
    Every value that reaches the statistics below comes out of \<^verbatim>\<open>safeToNumberLoose\<close>, which
    returns finite numbers only, so the filters \<^verbatim>\<open>values.filter(Number.isFinite)\<close> keep
    every element and are not written.
  \<^item> \<^verbatim>\<open>xs.sort((a, b) => a - b)\<close> on finite numbers is \<^const>\<open>sort\<close>; a sort with a
    comparator on a key is the stable \<^const>\<open>sort_key\<close> (descending order: the negated key).
  \<^item> \<^verbatim>\<open>Math.floor\<close> is \<^const>\<open>floor\<close>, \<^verbatim>\<open>Math.round x\<close> is \<open>\<lfloor>x + 1/2\<rfloor>\<close>,
    \<^verbatim>\<open>Math.log10\<close> is \<open>log 10\<close> (its arguments are at least 1 everywhere below).
  \<^item> A loop that leaves with \<^verbatim>\<open>break\<close> at the first hit is \<^const>\<open>find\<close>.
  \<^item> A string is a \<^typ>\<open>string\<close> of bytes; the helpers below treat ASCII exactly
    (\<^verbatim>\<open>toLowerCase\<close> maps A to Z, \<^verbatim>\<open>trim\<close> strips the six ASCII white-space characters).
  \<^item> A \<^verbatim>\<open>Set\<close> or \<^verbatim>\<open>Map\<close> is a list in insertion order, as \<^verbatim>\<open>Array.from\<close> and
    \<^verbatim>\<open>entries()\<close> read it; a \<^verbatim>\<open>Record\<close> is an association list in \<^verbatim>\<open>Object.entries\<close> order.
\<close>

section \<open>Strings\<close>

definition lowerChar :: "char \<Rightarrow> char" where
  "lowerChar c =
     (if CHR ''A'' \<le> c \<and> c \<le> CHR ''Z''
      then (case c of Char b0 b1 b2 b3 b4 b5 b6 b7 \<Rightarrow> Char b0 b1 b2 b3 b4 True b6 b7)
      else c)"

definition toLowerCase :: "string \<Rightarrow> string" where
  "toLowerCase s = map lowerChar s"

definition isWs :: "char \<Rightarrow> bool" where
  "isWs c = (c = CHR '' '' \<or> c = CHR 0x09 \<or> c = CHR 0x0A \<or> c = CHR 0x0B \<or> c = CHR 0x0C
             \<or> c = CHR 0x0D)"

definition trim :: "string \<Rightarrow> string" where
  "trim s = rev (dropWhile isWs (rev (dropWhile isWs s)))"

text \<open>\<^verbatim>\<open>s.includes(t)\<close>: \<open>t\<close> occurs in \<open>s\<close> as a contiguous piece.\<close>

fun str_includes :: "string \<Rightarrow> string \<Rightarrow> bool" where
  "str_includes [] t = (t = [])"
| "str_includes (c # cs) t = (if prefix t (c # cs) then True else str_includes cs t)"

text \<open>\<^verbatim>\<open>s.endsWith(t)\<close>, the reading of a pattern \<^verbatim>\<open>/t$/\<close>.\<close>

definition endsWith :: "string \<Rightarrow> string \<Rightarrow> bool" where
  "endsWith s t = prefix (rev t) (rev s)"

fun join :: "string \<Rightarrow> string list \<Rightarrow> string" where
  "join sep [] = []"
| "join sep [x] = x"
| "join sep (x # y # ys) = x @ sep @ join sep (y # ys)"

definition digitChar :: "nat \<Rightarrow> char" where
  "digitChar d = ''0123456789'' ! d"

fun showNat :: "nat \<Rightarrow> string" where
  "showNat n = (if n < 10 then [digitChar n] else showNat (n div 10) @ [digitChar (n mod 10)])"

definition showInt :: "int \<Rightarrow> string" where
  "showInt i = (if i < 0 then CHR ''-'' # showNat (nat (- i)) else showNat (nat i))"

definition padStart2 :: "string \<Rightarrow> string" where
  "padStart2 s = replicate (2 - length s) (CHR ''0'') @ s"

text \<open>Insertion into a \<^verbatim>\<open>Set\<close>, and counting into a \<^verbatim>\<open>Map<string, number>\<close>.\<close>

definition setAdd :: "'a list \<Rightarrow> 'a \<Rightarrow> 'a list" where
  "setAdd xs x = (if x \<in> set xs then xs else xs @ [x])"

definition newSet :: "'a list \<Rightarrow> 'a list" where
  "newSet xs = foldl setAdd [] xs"

fun mapAdd :: "('k \<times> 'n::plus) list \<Rightarrow> 'k \<Rightarrow> 'n \<Rightarrow> ('k \<times> 'n) list" where
  "mapAdd [] k n = [(k, n)]"
| "mapAdd ((k', c) # m) k n = (if k' = k then (k', c + n) # m else (k', c) # mapAdd m k n)"

definition tally :: "string list \<Rightarrow> (string \<times> nat) list" where
  "tally ks = foldl (\<lambda>m k. mapAdd m k 1) [] ks"

section \<open>Rows and cells\<close>

text \<open>
  A \<^verbatim>\<open>Date\<close> object, as far as the engine reads it: \<^verbatim>\<open>getTime()\<close>, the local calendar
  fields \<^verbatim>\<open>getFullYear()\<close>, \<^verbatim>\<open>getMonth()\<close> (from 0), \<^verbatim>\<open>getDate()\<close>, and
  \<^verbatim>\<open>toISOString()\<close>.
\<close>

record jsdate =
  d_time :: int
  d_year :: int
  d_month :: nat
  d_day :: nat
  d_iso :: string

text \<open>
  The ingestion layer hands over rows whose cells are primitives.  The number and date
  parsers of the engine rest on regular expressions, \<^verbatim>\<open>Number\<close> and the host's
  \<^verbatim>\<open>Date.parse\<close>; they are not re-implemented.  A cell that is neither \<^verbatim>\<open>null\<close> nor
  \<^verbatim>\<open>undefined\<close> carries what these parsers answer on it:
  \<^item> \<open>c_str\<close>: \<^verbatim>\<open>String(v)\<close>; \<open>c_isString\<close>: \<^verbatim>\<open>typeof v === "string"\<close>;
  \<^item> \<open>c_num\<close>: the result of \<^verbatim>\<open>safeToNumberLoose(v)\<close> after its \<^verbatim>\<open>isMissing\<close> test
    (the three copies of that function in eda.ts, kpis.ts and charts.ts are the same text);
  \<^item> \<open>c_date\<close>: the result of \<^verbatim>\<open>safeToDateLoose(v)\<close> after its \<^verbatim>\<open>isMissing\<close> test;
  \<^item> \<open>c_looksNumeric\<close>, \<open>c_looksDate\<close>: \<^verbatim>\<open>looksNumeric\<close> and \<^verbatim>\<open>looksDate\<close> of
    typeInference.ts on \<^verbatim>\<open>String(v).trim()\<close>.
  \<^const>\<open>None\<close> stands for \<^verbatim>\<open>null\<close>, \<^verbatim>\<open>undefined\<close> and an absent key, which the engine
  never tells apart.
\<close>

record prim =
  c_str :: string
  c_isString :: bool
  c_num :: "real option"
  c_date :: "jsdate option"
  c_looksNumeric :: bool
  c_looksDate :: bool

type_synonym cell = "prim option"

text \<open>A row is an object: its own keys in order, each with a cell.\<close>

type_synonym row = "(string \<times> cell) list"

text \<open>\<^verbatim>\<open>row?.[col]\<close>\<close>

definition getCell :: "row \<Rightarrow> string \<Rightarrow> cell" where
  "getCell r col = (case map_of r col of None \<Rightarrow> None | Some v \<Rightarrow> v)"

definition isMissing :: "cell \<Rightarrow> bool" where
  "isMissing v = (case v of None \<Rightarrow> True | Some p \<Rightarrow> c_isString p \<and> trim (c_str p) = [])"

definition safeToNumberLoose :: "cell \<Rightarrow> real option" where
  "safeToNumberLoose v = (if isMissing v then None else case v of None \<Rightarrow> None | Some p \<Rightarrow> c_num p)"

definition safeToDateLoose :: "cell \<Rightarrow> jsdate option" where
  "safeToDateLoose v = (if isMissing v then None else case v of None \<Rightarrow> None | Some p \<Rightarrow> c_date p)"

text \<open>
  \<^verbatim>\<open>String(v ?? "")\<close>; the engine takes \<^verbatim>\<open>String(v)\<close> of cells that are not missing
  only, where the two agree.
\<close>

definition cellString :: "cell \<Rightarrow> string" where
  "cellString v = (case v of None \<Rightarrow> [] | Some p \<Rightarrow> c_str p)"

section \<open>The dataset profile (DatasetContext)\<close>

record topValue =
  tv_value :: string
  tv_count :: nat
  tv_pct :: real

record numericEDA =
  n_min :: "real option"
  n_max :: "real option"
  n_mean :: "real option"
  n_median :: "real option"
  n_stdev :: "real option"
  n_zeros :: nat
  n_negatives :: nat

text \<open>
  \<^verbatim>\<open>ColumnEDA = NumericEDA | CategoricalEDA | DateEDA\<close>; the bounds of a date column are
  ISO strings, kept with the instant \<^verbatim>\<open>Date.parse\<close> reads back from them.  The
  \<^verbatim>\<open>parseReason\<close> string that eda.ts adds is read nowhere and is left out.
\<close>

datatype columnKind =
    NumericEDA numericEDA
  | CategoricalEDA "topValue list"
  | DateEDA "jsdate option" "jsdate option"

record columnEDA =
  e_kind :: columnKind
  e_missing :: nat
  e_uniqueCount :: nat
  e_nonMissingCount :: "nat option"
  e_inferredAsId :: bool

record edaResult =
  r_duplicates :: nat
  r_emptyColumns :: "string list"
  r_constantColumns :: "string list"
  r_columns :: "(string \<times> columnEDA) list"

datatype colType = TNumeric | TCategorical | TDate

definition e_type :: "columnEDA \<Rightarrow> colType" where
  "e_type info = (case e_kind info of NumericEDA _ \<Rightarrow> TNumeric | CategoricalEDA _ \<Rightarrow> TCategorical
                  | DateEDA _ _ \<Rightarrow> TDate)"

definition e_topValues :: "columnEDA \<Rightarrow> topValue list" where
  "e_topValues info = (case e_kind info of CategoricalEDA tv \<Rightarrow> tv | _ \<Rightarrow> [])"

definition e_numeric :: "columnEDA \<Rightarrow> numericEDA option" where
  "e_numeric info = (case e_kind info of NumericEDA s \<Rightarrow> Some s | _ \<Rightarrow> None)"


section \<open>charts.ts: identifier-like columns\<close>

text \<open>
  \<^verbatim>\<open>/(^id$|_id$| id$|uuid|guid|hash|token|key$|^key|identifier)/\<close> on the lower-cased
  name.  eda.ts and kpis.ts test the same expression.
\<close>

definition nameHintsId :: "string \<Rightarrow> bool" where
  "nameHintsId col =
     (let n = toLowerCase col in
      n = ''id'' \<or> endsWith n ''_id'' \<or> endsWith n '' id'' \<or> str_includes n ''uuid''
      \<or> str_includes n ''guid'' \<or> str_includes n ''hash'' \<or> str_includes n ''token''
      \<or> endsWith n ''key'' \<or> prefix ''key'' n \<or> str_includes n ''identifier'')"

definition isIdLikeNumeric :: "string \<Rightarrow> columnEDA option \<Rightarrow> nat \<Rightarrow> bool" where
  "isIdLikeNumeric col info rowCount =
     (if nameHintsId col then True
      else if (case info of None \<Rightarrow> False | Some i \<Rightarrow> e_inferredAsId i) then True
      else
        let nn = (case info of None \<Rightarrow> rowCount
                  | Some i \<Rightarrow> (case e_nonMissingCount i of None \<Rightarrow> rowCount | Some k \<Rightarrow> k));
            unique = (case info of None \<Rightarrow> 0 | Some i \<Rightarrow> e_uniqueCount i);
            ratio = real unique / real (max 1 nn)
        in unique \<ge> 20 \<and> ratio > 0.98)"

definition isIdLikeCategorical :: "string \<Rightarrow> columnEDA option \<Rightarrow> bool" where
  "isIdLikeCategorical col info =
     (if nameHintsId col then True
      else case info of
        None \<Rightarrow> False
      | Some i \<Rightarrow>
          if e_inferredAsId i then True
          else
            let nonMissing = (case e_nonMissingCount i of None \<Rightarrow> 0 | Some k \<Rightarrow> k);
                unique = e_uniqueCount i
            in if nonMissing = 0 then False
               else real unique / real (max 1 nonMissing) > 0.9)"

definition topPct :: "columnEDA \<Rightarrow> real" where
  "topPct i = (case e_topValues i of [] \<Rightarrow> 0 | t # _ \<Rightarrow> tv_pct t)"

definition isNameListColumn :: "columnEDA option \<Rightarrow> bool" where
  "isNameListColumn info =
     (case info of
        None \<Rightarrow> False
      | Some i \<Rightarrow>
          let nonMissing = (case e_nonMissingCount i of None \<Rightarrow> 0 | Some k \<Rightarrow> k);
              unique = e_uniqueCount i;
              dominance = topPct i
          in if nonMissing = 0 then False
             else unique \<ge> 50 \<and> real unique / real (max 1 nonMissing) > 0.5 \<and> dominance < 40)"

section \<open>charts.ts: histogram and box helpers\<close>

definition chooseBins :: "nat \<Rightarrow> nat" where
  "chooseBins n = (if n \<le> 30 then 8 else if n \<le> 200 then 10 else if n \<le> 1000 then 12 else 14)"

record hist =
  hs_min :: real
  hs_max :: real
  hs_edges :: "real list"
  hs_counts :: "nat list"
  hs_total :: nat

text \<open>
  \<^verbatim>\<open>counts[idx] += 1\<close>: an index outside the array (only possible for \<^verbatim>\<open>bins = 0\<close>, where
  \<^verbatim>\<open>idx = -1\<close>) writes a property and leaves the elements as they are.
\<close>

definition bumpCount :: "nat list \<Rightarrow> int \<Rightarrow> nat list" where
  "bumpCount cs idx =
     (if 0 \<le> idx \<and> nat idx < length cs then cs[nat idx := cs ! nat idx + 1] else cs)"

definition binIndex :: "nat \<Rightarrow> real \<Rightarrow> real \<Rightarrow> real \<Rightarrow> int" where
  "binIndex bins mn spn v =
     (let t = (v - mn) / spn
      in min (int bins - 1) (max 0 \<lfloor>t * real bins\<rfloor>))"

definition computeHistogram :: "real list \<Rightarrow> nat \<Rightarrow> hist option" where
  "computeHistogram values bins =
     (let clean = sort values in
      if clean = [] then None
      else
        let mn = clean ! 0;
            mx = clean ! (length clean - 1);
            spn = (if mx - mn = 0 then 1 else mx - mn);
            edges = map (\<lambda>i. mn + (spn * real i) / real bins) [0 ..< bins + 1];
            counts = foldl (\<lambda>cs v. bumpCount cs (binIndex bins mn spn v)) (replicate bins 0) clean
        in Some \<lparr>hs_min = mn, hs_max = mx, hs_edges = edges, hs_counts = counts,
                  hs_total = length clean\<rparr>)"

definition quantileSorted :: "real list \<Rightarrow> real \<Rightarrow> real option" where
  "quantileSorted srt q =
     (let n = length srt in
      if n = 0 then None
      else if n = 1 then Some (srt ! 0)
      else
        let pos = real (n - 1) * q;
            base = nat \<lfloor>pos\<rfloor>;
            rest = pos - real base;
            a = srt ! base;
            b = srt ! (min (n - 1) (base + 1))
        in Some (a + (b - a) * rest))"

record box =
  bx_min :: real
  bx_q1 :: real
  bx_median :: real
  bx_q3 :: real
  bx_max :: real
  bx_iqr :: real
  bx_outliers :: "real list"
  bx_total :: nat

definition lowFence :: "real \<Rightarrow> real \<Rightarrow> real" where
  "lowFence q1 iqr = q1 - 1.5 * iqr"

definition highFence :: "real \<Rightarrow> real \<Rightarrow> real" where
  "highFence q3 iqr = q3 + 1.5 * iqr"

definition computeBox :: "real list \<Rightarrow> box option" where
  "computeBox values =
     (let clean = sort values in
      if length clean < 12 then None
      else
        case (quantileSorted clean 0.25, quantileSorted clean 0.5, quantileSorted clean 0.75) of
          (Some q1, Some median, Some q3) \<Rightarrow>
            let iqr = q3 - q1;
                lo = lowFence q1 iqr;
                hi = highFence q3 iqr;
                outliers = filter (\<lambda>v. v < lo \<or> v > hi) clean;
                wMin = (case find (\<lambda>v. v \<ge> lo) clean of
                          Some v \<Rightarrow> v | None \<Rightarrow> clean ! 0);
                wMax = (case find (\<lambda>v. v \<le> hi) (rev clean) of
                          Some v \<Rightarrow> v | None \<Rightarrow> clean ! (length clean - 1))
            in Some \<lparr>bx_min = wMin, bx_q1 = q1, bx_median = median, bx_q3 = q3, bx_max = wMax,
                      bx_iqr = iqr, bx_outliers = outliers, bx_total = length clean\<rparr>
        | _ \<Rightarrow> None)"

section \<open>charts.ts: categorical, time-series and relationship helpers\<close>

text \<open>\<^verbatim>\<open>TopBarItem\<close> is a pair of label and count; \<^verbatim>\<open>Math.max(0, a - b)\<close> on counts is the
  truncating subtraction of \<^typ>\<open>nat\<close>.\<close>

definition nonMissingOr0 :: "columnEDA option \<Rightarrow> nat" where
  "nonMissingOr0 info =
     (case info of None \<Rightarrow> 0 | Some i \<Rightarrow> (case e_nonMissingCount i of None \<Rightarrow> 0 | Some k \<Rightarrow> k))"

definition capTopValuesWithOther :: "columnEDA option \<Rightarrow> nat \<Rightarrow> (string \<times> nat) list" where
  "capTopValuesWithOther info maxBars =
     (let topValues = (case info of None \<Rightarrow> [] | Some i \<Rightarrow> e_topValues i);
          nonMissing = nonMissingOr0 info;
          trimmed = map (\<lambda>t. (tv_value t, tv_count t)) (take maxBars topValues);
          shownSum = sum_list (map snd trimmed);
          other = nonMissing - shownSum
      in if other > 0 then trimmed @ [(''Other'', other)] else trimmed)"

definition formatDayKey :: "jsdate \<Rightarrow> string" where
  "formatDayKey d =
     showInt (d_year d) @ ''-'' @ padStart2 (showNat (d_month d + 1)) @ ''-''
       @ padStart2 (showNat (d_day d))"

definition formatMonthKey :: "jsdate \<Rightarrow> string" where
  "formatMonthKey d = showInt (d_year d) @ ''-'' @ padStart2 (showNat (d_month d + 1))"

datatype granularity = Day | Month

text \<open>
  \<^verbatim>\<open>localeCompare\<close> on the period keys is taken as the lexicographic order of the
  characters, which is the order of the keys \<^verbatim>\<open>YYYY-MM\<close> and \<^verbatim>\<open>YYYY-MM-DD\<close>.
\<close>

definition buildTimeSeries ::
  "row list \<Rightarrow> string \<Rightarrow> string \<Rightarrow> ((string \<times> real) list \<times> granularity) option" where
  "buildTimeSeries data dateCol numCol =
     (let pairs = List.map_filter
            (\<lambda>r. case (safeToDateLoose (getCell r dateCol), safeToNumberLoose (getCell r numCol)) of
                    (Some d, Some y) \<Rightarrow> Some (d, y) | _ \<Rightarrow> None) data
      in if length pairs < 20 then None
         else
           let srt = sort_key (\<lambda>p. d_time (fst p)) pairs;
               first = d_time (fst (srt ! 0));
               lst = d_time (fst (srt ! (length srt - 1)));
               days = max 1 \<lfloor>real_of_int (lst - first) / (1000 * 60 * 60 * 24) + 1 / 2\<rfloor>;
               gran = (if days \<le> 90 then Day else Month);
               keyFn = (if gran = Day then formatDayKey else formatMonthKey);
               agg = foldl (\<lambda>m p. mapAdd m (keyFn (fst p)) (snd p)) [] srt;
               points = sort_key fst agg
           in if length points < 8 then None else Some (points, gran))"

definition mean :: "real list \<Rightarrow> real" where
  "mean xs = sum_list xs / real (max 1 (length xs))"

definition stdev :: "real list \<Rightarrow> real" where
  "stdev xs =
     (if length xs < 2 then 0
      else let m = mean xs in sqrt (sum_list (map (\<lambda>x. (x - m)\<^sup>2) xs) / real (length xs - 1)))"

definition pearson :: "real list \<Rightarrow> real list \<Rightarrow> real option" where
  "pearson x y =
     (if length x = length y \<and> 8 \<le> length x
      then
        let mx = mean x;
            my = mean y;
            num = sum_list (map (\<lambda>(xi, yi). (xi - mx) * (yi - my)) (zip x y));
            dx = sum_list (map (\<lambda>(xi, yi). (xi - mx) * (xi - mx)) (zip x y));
            dy = sum_list (map (\<lambda>(xi, yi). (yi - my) * (yi - my)) (zip x y));
            den = sqrt (dx * dy)
        in if den = 0 then None else Some (num / den)
      else None)"

record scatterBuilt =
  sb_points :: "(real \<times> real) list"
  sb_correlation :: "real option"
  sb_n :: nat
  sb_sx :: real
  sb_sy :: real

definition buildScatter :: "row list \<Rightarrow> string \<Rightarrow> string \<Rightarrow> scatterBuilt option" where
  "buildScatter data xCol yCol =
     (let both = List.map_filter
            (\<lambda>r. case (safeToNumberLoose (getCell r xCol), safeToNumberLoose (getCell r yCol)) of
                    (Some x, Some y) \<Rightarrow> Some (x, y) | _ \<Rightarrow> None) data;
          xs = map fst both;
          ys = map snd both
      in if length xs < 30 then None
         else
           let maxPts = 1200;
               points = (if length xs > maxPts
                         then map (\<lambda>i. let k = (i * length xs) div maxPts in (xs ! k, ys ! k))
                                [0 ..< maxPts]
                         else zip xs ys)
           in Some \<lparr>sb_points = points, sb_correlation = pearson xs ys, sb_n = length xs,
                     sb_sx = stdev xs, sb_sy = stdev ys\<rparr>)"

text \<open>
  The rows that enter the matrix are those where every column of \<open>cols\<close> parses; each of
  them pushes \<^verbatim>\<open>vals[i]\<close> onto \<^verbatim>\<open>series[cols[i]]\<close>.
\<close>

definition completeRows :: "row list \<Rightarrow> string list \<Rightarrow> real list list" where
  "completeRows data cols =
     List.map_filter
       (\<lambda>r. let vals = map (\<lambda>c. safeToNumberLoose (getCell r c)) cols
             in if cols = [] then None
                else if list_all (\<lambda>v. v \<noteq> None) vals then Some (map the vals) else None) data"

definition seriesOf :: "string list \<Rightarrow> real list list \<Rightarrow> string \<Rightarrow> real list" where
  "seriesOf cols rws c = concat (map (\<lambda>vals. map snd (filter (\<lambda>kv. fst kv = c) (zip cols vals))) rws)"

definition buildCorrMatrix :: "row list \<Rightarrow> string list \<Rightarrow> (real list list \<times> nat) option" where
  "buildCorrMatrix data cols =
     (let rws = completeRows data cols;
          series = seriesOf cols rws;
          n = (case cols of [] \<Rightarrow> 0 | c0 # _ \<Rightarrow> length (series c0))
      in if n < 40 then None
         else Some (map (\<lambda>ci. map (\<lambda>cj. case pearson (series ci) (series cj) of
                                            None \<Rightarrow> 0 | Some r \<Rightarrow> r) cols) cols, n))"

section \<open>charts.ts: fallback detection\<close>

definition sampleRows :: "'a list \<Rightarrow> nat \<Rightarrow> 'a list" where
  "sampleRows data n =
     (if length data \<le> n then data
      else
        let step = max 1 (length data div n)
        in take n (map (\<lambda>i. data ! i) (filter (\<lambda>i. i mod step = 0) [0 ..< length data])))"

definition detectLike ::
  "(cell \<Rightarrow> bool) \<Rightarrow> real \<Rightarrow> real \<Rightarrow> row list \<Rightarrow> string list \<Rightarrow> string list \<Rightarrow> string list" where
  "detectLike parses cap threshold data columns already =
     (let s = sampleRows data 250;
          results = List.map_filter
            (\<lambda>col.
               if col \<in> set already then None
               else
                 let cells = filter (\<lambda>v. \<not> isMissing v) (map (\<lambda>r. getCell r col) s);
                     seen = length cells;
                     ok = length (filter parses cells);
                     uniq = newSet (map cellString cells)
                 in if seen < 15 then None
                    else
                      let ratio = real ok / real (max 1 seen);
                          uniqRatio = real (length uniq) / real (max 1 seen);
                          score = ratio * 100 + min cap (uniqRatio * cap)
                      in if ratio \<ge> threshold then Some (col, score) else None) columns
      in map fst (sort_key (\<lambda>r. - snd r) results))"

text \<open>
  \<^verbatim>\<open>detectDateLikeColumns\<close> and \<^verbatim>\<open>detectNumericLikeColumns\<close> are the same loop with their
  own parser, bonus cap (20, 10) and threshold (0.7, 0.85).
\<close>

definition detectDateLikeColumns :: "row list \<Rightarrow> string list \<Rightarrow> string list \<Rightarrow> string list" where
  "detectDateLikeColumns = detectLike (\<lambda>v. safeToDateLoose v \<noteq> None) 20 0.7"

definition detectNumericLikeColumns :: "row list \<Rightarrow> string list \<Rightarrow> string list \<Rightarrow> string list" where
  "detectNumericLikeColumns = detectLike (\<lambda>v. safeToNumberLoose v \<noteq> None) 10 0.85"

section \<open>charts.ts: chart specifications and the diversity rule\<close>

text \<open>
  The \<^verbatim>\<open>type\<close> tag of a specification is its constructor; its \<^verbatim>\<open>purpose\<close> field is fixed
  by the type and is read off by \<open>specPurpose\<close>.
\<close>

record histogramChartSpec =
  hc_column :: string
  hc_bins :: nat
  hc_edges :: "real list"
  hc_counts :: "nat list"
  hc_min :: real
  hc_max :: real
  hc_total :: nat

record boxChartSpec =
  bc_column :: string
  bc_min :: real
  bc_q1 :: real
  bc_median :: real
  bc_q3 :: real
  bc_max :: real
  bc_iqr :: real
  bc_outliers :: "real list"
  bc_total :: nat

record barChartSpec =
  br_column :: string
  br_labels :: "string list"
  br_counts :: "nat list"
  br_maxBars :: nat

record timeChartSpec =
  tc_column :: string
  tc_xColumn :: string
  tc_yColumn :: string
  tc_points :: "(string \<times> real) list"
  tc_granularity :: granularity

record scatterChartSpec =
  sc_column :: string
  sc_xColumn :: string
  sc_yColumn :: string
  sc_points :: "(real \<times> real) list"
  sc_correlation :: "real option"

record corrChartSpec =
  cc_column :: string
  cc_columns :: "string list"
  cc_matrix :: "real list list"

datatype chartSpec =
    Histogram histogramChartSpec
  | Box boxChartSpec
  | Bar barChartSpec
  | Time timeChartSpec
  | Scatter scatterChartSpec
  | Corr corrChartSpec

datatype chartType = THistogram | TBox | TBar | TTime | TScatter | TCorr

datatype purpose = Trend | Relationship | Distribution | Composition

fun specType :: "chartSpec \<Rightarrow> chartType" where
  "specType (Histogram _) = THistogram"
| "specType (Box _) = TBox"
| "specType (Bar _) = TBar"
| "specType (Time _) = TTime"
| "specType (Scatter _) = TScatter"
| "specType (Corr _) = TCorr"

fun specPurpose :: "chartSpec \<Rightarrow> purpose" where
  "specPurpose (Histogram _) = Distribution"
| "specPurpose (Box _) = Distribution"
| "specPurpose (Bar _) = Composition"
| "specPurpose (Time _) = Trend"
| "specPurpose (Scatter _) = Relationship"
| "specPurpose (Corr _) = Relationship"

record candidate =
  cd_spec :: chartSpec
  cd_score :: real
  cd_purpose :: purpose

fun pMax :: "purpose \<Rightarrow> nat" where
  "pMax Trend = 2"
| "pMax Relationship = 2"
| "pMax Distribution = 2"
| "pMax Composition = 2"

fun tMax :: "chartType \<Rightarrow> nat" where
  "tMax THistogram = 2"
| "tMax TBar = 2"
| "tMax TBox = 1"
| "tMax TTime = 2"
| "tMax TScatter = 1"
| "tMax TCorr = 1"

definition canTake :: "(purpose \<Rightarrow> nat) \<Rightarrow> (chartType \<Rightarrow> nat) \<Rightarrow> candidate \<Rightarrow> bool" where
  "canTake purposeCount typeCount c =
     (let p = cd_purpose c;
          t = specType (cd_spec c);
          pc = purposeCount p;
          tc = typeCount t
      in if pc \<ge> pMax p then False else if tc \<ge> tMax t then False else True)"

text \<open>
  The first loop of \<^verbatim>\<open>pickDiverse\<close>.  Beside the picks it returns, for every candidate of
  the sorted list, whether the loop pushed its specification.  The second loop skips a
  candidate by \<^verbatim>\<open>picks.includes(c.spec)\<close>, which compares object identity; every
  candidate owns a specification object of its own, so the test holds exactly for the
  candidates the first loop pushed.
\<close>

fun pickLoop ::
  "nat \<Rightarrow> candidate list \<Rightarrow> chartSpec list \<Rightarrow> (purpose \<Rightarrow> nat) \<Rightarrow> (chartType \<Rightarrow> nat)
     \<Rightarrow> chartSpec list \<times> bool list" where
  "pickLoop mx [] picks purposeCount typeCount = (picks, [])"
| "pickLoop mx (c # cs) picks purposeCount typeCount =
     (if length picks \<ge> mx then (picks, replicate (length (c # cs)) False)
      else if canTake purposeCount typeCount c
      then
        let p = cd_purpose c;
            t = specType (cd_spec c);
            res = pickLoop mx cs (picks @ [cd_spec c])
                    (purposeCount(p := purposeCount p + 1)) (typeCount(t := typeCount t + 1))
        in (fst res, True # snd res)
      else
        let res = pickLoop mx cs picks purposeCount typeCount
        in (fst res, False # snd res))"

fun fillLoop :: "nat \<Rightarrow> (candidate \<times> bool) list \<Rightarrow> chartSpec list \<Rightarrow> chartSpec list" where
  "fillLoop mn [] picks = picks"
| "fillLoop mn ((c, taken) # cs) picks =
     (if length picks \<ge> mn then picks
      else if taken then fillLoop mn cs picks
      else fillLoop mn cs (picks @ [cd_spec c]))"

definition pickDiverse :: "candidate list \<Rightarrow> nat \<Rightarrow> nat \<Rightarrow> chartSpec list" where
  "pickDiverse cands mn mx =
     (let srt = sort_key (\<lambda>c. - cd_score c) cands;
          res = pickLoop mx srt [] (\<lambda>_. 0) (\<lambda>_. 0);
          picks = (if length (fst res) < mn then fillLoop mn (zip srt (snd res)) (fst res)
                   else fst res)
      in take mx picks)"

section \<open>charts.ts: generateCharts\<close>

definition histogramCandidate :: "string \<Rightarrow> nat \<Rightarrow> hist \<Rightarrow> candidate" where
  "histogramCandidate col bins computed =
     (let spreadScore = log 10 (hs_max computed - hs_min computed + 1) * 10;
          densityScore = log 10 (real (hs_total computed) + 1) * 10
      in \<lparr>cd_spec = Histogram \<lparr>hc_column = col, hc_bins = bins, hc_edges = hs_edges computed,
                                 hc_counts = hs_counts computed, hc_min = hs_min computed,
                                 hc_max = hs_max computed, hc_total = hs_total computed\<rparr>,
          cd_score = densityScore + spreadScore, cd_purpose = Distribution\<rparr>)"

definition boxCandidate :: "string \<Rightarrow> box \<Rightarrow> candidate" where
  "boxCandidate col b =
     (let outlierRate = real (length (bx_outliers b)) / real (max 1 (bx_total b));
          iqr = \<bar>bx_iqr b\<bar>;
          score = log 10 (real (bx_total b) + 1) * 10 + log 10 (iqr + 1) * 12
                    + min 25 (outlierRate * 120)
      in \<lparr>cd_spec = Box \<lparr>bc_column = col, bc_min = bx_min b, bc_q1 = bx_q1 b,
                           bc_median = bx_median b, bc_q3 = bx_q3 b, bc_max = bx_max b,
                           bc_iqr = bx_iqr b, bc_outliers = take 200 (bx_outliers b),
                           bc_total = bx_total b\<rparr>,
          cd_score = score, cd_purpose = Distribution\<rparr>)"

definition columnValues :: "row list \<Rightarrow> string \<Rightarrow> real list" where
  "columnValues data col = List.map_filter (\<lambda>r. safeToNumberLoose (getCell r col)) data"

definition numericCandidates :: "row list \<Rightarrow> edaResult \<Rightarrow> string \<Rightarrow> candidate list" where
  "numericCandidates data eda col =
     (let info = map_of (r_columns eda) col in
      if isIdLikeNumeric col info (length data) then []
      else
        let values = columnValues data col in
        if length values < 12 then []
        else
          let bins = chooseBins (length values) in
          (case computeHistogram values bins of
             None \<Rightarrow> [] | Some computed \<Rightarrow> [histogramCandidate col bins computed])
          @ (case computeBox values of None \<Rightarrow> [] | Some b \<Rightarrow> [boxCandidate col b]))"

definition barCandidate :: "string \<Rightarrow> (string \<times> nat) list \<Rightarrow> candidate" where
  "barCandidate col items =
     (let s = sum_list (map snd items);
          total = (if s = 0 then 1 else s);
          top = (case items of [] \<Rightarrow> 0 | x # _ \<Rightarrow> snd x);
          dominance = real top / real total;
          score = log 10 (real total + 1) * 10 + dominance * 60
      in \<lparr>cd_spec = Bar \<lparr>br_column = col, br_labels = map fst items, br_counts = map snd items,
                           br_maxBars = 10\<rparr>,
          cd_score = score, cd_purpose = Composition\<rparr>)"

definition barCandidates ::
  "row list \<Rightarrow> edaResult \<Rightarrow> string list \<Rightarrow> string list \<Rightarrow> string \<Rightarrow> candidate list" where
  "barCandidates data eda numericSet dateSet col =
     (let info = map_of (r_columns eda) col;
          maxBars = 10
      in if col \<in> set numericSet \<or> col \<in> set dateSet then []
         else if isIdLikeCategorical col info then []
         else if isNameListColumn info then []
         else if (case info of None \<Rightarrow> [] | Some i \<Rightarrow> e_topValues i) = []
         then
           let cells = filter (\<lambda>v. \<not> isMissing v) (map (\<lambda>r. getCell r col) data);
               nonMissing = length cells;
               freq = tally (map cellString cells)
           in if freq = [] then []
              else
                let srt = sort_key (\<lambda>e. - int (snd e)) freq;
                    top = take maxBars srt;
                    shownSum = sum_list (map snd top);
                    other = nonMissing - shownSum;
                    top' = (if other > 0 then top @ [(''Other'', other)] else top)
                in [barCandidate col top']
         else
           let capped = capTopValuesWithOther info maxBars
           in if capped = [] then [] else [barCandidate col capped])"

definition timeCandidates :: "row list \<Rightarrow> string list \<Rightarrow> string \<Rightarrow> candidate list" where
  "timeCandidates data numericCols dcol =
     (if nameHintsId dcol then []
      else concat (map (\<lambda>ncol.
             case buildTimeSeries data dcol ncol of
               None \<Rightarrow> []
             | Some (points, gran) \<Rightarrow>
                 let ys = map snd points;
                     minY = Min (set ys);
                     maxY = Max (set ys);
                     range = \<bar>maxY - minY\<bar>;
                     score = real (length points) * 2 + log 10 (range + 1) * 12
                 in [\<lparr>cd_spec = Time \<lparr>tc_column = ncol @ '' over '' @ dcol, tc_xColumn = dcol,
                                        tc_yColumn = ncol, tc_points = points,
                                        tc_granularity = gran\<rparr>,
                       cd_score = score, cd_purpose = Trend\<rparr>]) numericCols))"

definition scatterCandidate :: "row list \<Rightarrow> string \<Rightarrow> string \<Rightarrow> candidate list" where
  "scatterCandidate data xCol yCol =
     (case buildScatter data xCol yCol of
        None \<Rightarrow> []
      | Some built \<Rightarrow>
          let rAbs = \<bar>case sb_correlation built of None \<Rightarrow> 0 | Some r \<Rightarrow> r\<bar>;
              varScore = log 10 (sb_sx built + sb_sy built + 1) * 10;
              score = real (sb_n built) * 0.02 + rAbs * 80 + varScore
          in [\<lparr>cd_spec = Scatter \<lparr>sc_column = yCol @ '' vs '' @ xCol, sc_xColumn = xCol,
                                    sc_yColumn = yCol, sc_points = sb_points built,
                                    sc_correlation = sb_correlation built\<rparr>,
                cd_score = score, cd_purpose = Relationship\<rparr>])"

definition scatterCandidates :: "row list \<Rightarrow> string list \<Rightarrow> candidate list" where
  "scatterCandidates data numericCols =
     concat (map (\<lambda>i. concat (map (\<lambda>j. scatterCandidate data (numericCols ! i) (numericCols ! j))
                                  [i + 1 ..< length numericCols]))
                 [0 ..< length numericCols])"

text \<open>The score that ranks the columns of the heat map, and \<^verbatim>\<open>ranked\<close>, the best ten.\<close>

definition corrColumnScore :: "edaResult \<Rightarrow> string \<Rightarrow> real" where
  "corrColumnScore eda c =
     (let info = map_of (r_columns eda) c;
          sd = (case info of None \<Rightarrow> 0
                | Some i \<Rightarrow> (case e_numeric i of None \<Rightarrow> 0
                             | Some st \<Rightarrow> (case n_stdev st of None \<Rightarrow> 0 | Some x \<Rightarrow> x)));
          uniq = (case info of None \<Rightarrow> 0 | Some i \<Rightarrow> e_uniqueCount i)
      in log 10 (sd + 1) * 10 + log 10 (real uniq + 1) * 2)"

definition rankedColumns :: "edaResult \<Rightarrow> string list \<Rightarrow> string list" where
  "rankedColumns eda numericCols = take 10 (sort_key (\<lambda>c. - corrColumnScore eda c) numericCols)"

definition corrCandidates :: "row list \<Rightarrow> edaResult \<Rightarrow> string list \<Rightarrow> candidate list" where
  "corrCandidates data eda numericCols =
     (if length numericCols \<ge> 4
      then
        let ranked = rankedColumns eda numericCols
        in if length ranked \<ge> 4
           then
             (case buildCorrMatrix data ranked of
                None \<Rightarrow> []
              | Some (matrix, n) \<Rightarrow>
                  let offs = concat (map (\<lambda>i. map (\<lambda>j. \<bar>matrix ! i ! j\<bar>)
                                                   (filter (\<lambda>j. j \<noteq> i) [0 ..< length ranked]))
                                        [0 ..< length ranked]);
                      maxOff = foldl max 0 offs;
                      score = real (length ranked) * 10 + real n * 0.03 + maxOff * 120
                  in [\<lparr>cd_spec = Corr \<lparr>cc_column = ''Correlation (numeric)'', cc_columns = ranked,
                                         cc_matrix = matrix\<rparr>,
                        cd_score = score, cd_purpose = Relationship\<rparr>])
           else []
      else [])"

text \<open>The column sets of \<^verbatim>\<open>generateCharts\<close>, in the order \<^verbatim>\<open>Array.from\<close> reads them.\<close>

definition numericColsOf :: "row list \<Rightarrow> edaResult \<Rightarrow> string list" where
  "numericColsOf data eda =
     (let entries = r_columns eda;
          allCols = map fst entries;
          numericColsFromEDA =
            map fst (filter (\<lambda>(c, info). \<not> isIdLikeNumeric c (Some info) (length data))
                       (filter (\<lambda>(c, info). e_type info = TNumeric) entries));
          numericSet = newSet numericColsFromEDA
      in foldl setAdd numericSet (detectNumericLikeColumns data allCols numericSet))"

definition dateColsOf :: "row list \<Rightarrow> edaResult \<Rightarrow> string list" where
  "dateColsOf data eda =
     (let entries = r_columns eda;
          allCols = map fst entries;
          dateSet = newSet (map fst (filter (\<lambda>(c, info). e_type info = TDate) entries))
      in foldl setAdd dateSet (detectDateLikeColumns data allCols dateSet))"

definition catColsOf :: "row list \<Rightarrow> edaResult \<Rightarrow> string list" where
  "catColsOf data eda =
     (let entries = r_columns eda;
          allCols = map fst entries;
          catColsFromEDA = map fst (filter (\<lambda>(c, info). e_type info = TCategorical) entries);
          numericSet = numericColsOf data eda;
          dateSet = dateColsOf data eda;
          catFallback = filter (\<lambda>c. c \<notin> set numericSet \<and> c \<notin> set dateSet) allCols
      in newSet (catColsFromEDA @ catFallback))"

definition chartCandidates :: "row list \<Rightarrow> edaResult \<Rightarrow> candidate list" where
  "chartCandidates data eda =
     (let numericCols = numericColsOf data eda;
          dateCols = dateColsOf data eda;
          catCols = catColsOf data eda
      in concat (map (numericCandidates data eda) numericCols)
         @ concat (map (barCandidates data eda numericCols dateCols) catCols)
         @ concat (map (timeCandidates data numericCols) dateCols)
         @ take 1 (sort_key (\<lambda>c. - cd_score c) (scatterCandidates data numericCols))
         @ corrCandidates data eda numericCols)"

text \<open>
  \<^verbatim>\<open>generateCharts(data, eda)\<close>; \<open>eda = None\<close> is a profile that is \<^verbatim>\<open>null\<close> or has no
  \<^verbatim>\<open>columns\<close>.  The candidate array is empty when the two guards return.
\<close>

definition generateCharts :: "row list \<Rightarrow> edaResult option \<Rightarrow> chartSpec list" where
  "generateCharts data eda =
     (if data = [] then []
      else case eda of None \<Rightarrow> [] | Some e \<Rightarrow> pickDiverse (chartCandidates data e) 4 8)"

section \<open>typeInference.ts\<close>

text \<open>\<^verbatim>\<open>String(v ?? "").trim()\<close>\<close>

definition safeString :: "cell \<Rightarrow> string" where
  "safeString v = trim (cellString v)"

definition looksNumeric :: "cell \<Rightarrow> bool" where
  "looksNumeric v = (case v of None \<Rightarrow> False | Some p \<Rightarrow> c_looksNumeric p)"

definition looksDate :: "cell \<Rightarrow> bool" where
  "looksDate v = (case v of None \<Rightarrow> False | Some p \<Rightarrow> c_looksDate p)"

text \<open>\<^verbatim>\<open>/^[A-Za-z0-9\-_]+$/\<close>\<close>

definition isTokenChar :: "char \<Rightarrow> bool" where
  "isTokenChar c =
     ((CHR ''A'' \<le> c \<and> c \<le> CHR ''Z'') \<or> (CHR ''a'' \<le> c \<and> c \<le> CHR ''z'')
      \<or> (CHR ''0'' \<le> c \<and> c \<le> CHR ''9'') \<or> c = CHR ''-'' \<or> c = CHR ''_'')"

definition isToken :: "string \<Rightarrow> bool" where
  "isToken s = (if s = [] then False else list_all isTokenChar s)"

text \<open>
  \<^verbatim>\<open>isLikelyID\<close> reads its values through \<^verbatim>\<open>safeString\<close> only; the list \<open>asStr\<close> keeps the
  cells whose string is not empty, and the strings are \<open>map safeString asStr\<close>.
\<close>

definition isLikelyID :: "cell list \<Rightarrow> bool" where
  "isLikelyID values =
     (let nonNull = filter (\<lambda>v. \<not> isMissing v) values in
      if length nonNull < 20 then False
      else
        let asStr = filter (\<lambda>v. safeString v \<noteq> []) nonNull in
        if length asStr < 20 then False
        else
          let len = real (length asStr);
              unique = length (newSet (map safeString asStr));
              uniqRatio = real unique / len;
              numericLike = real (length (filter looksNumeric asStr)) / len
          in if numericLike \<ge> 0.85 then False
             else
               let dateLike = real (length (filter looksDate asStr)) / len
               in if dateLike \<ge> 0.85 then False
                  else
                    let avgLen = real (sum_list (map (\<lambda>v. length (safeString v)) asStr)) / len;
                        tokeny = real (length (filter (\<lambda>v. isToken (safeString v)) asStr)) / len;
                        longAlphaNum =
                          real (length (filter (\<lambda>v. isToken (safeString v) \<and> length (safeString v) \<ge> 6)
                                          asStr)) / len
                    in uniqRatio > 0.9 \<and> tokeny > 0.6 \<and> (avgLen \<le> 24 \<or> longAlphaNum > 0.6))"

datatype inferredType = INumeric | IDate | ICategorical | IText | IId

text \<open>The string \<^verbatim>\<open>safeString(v)\<close> as a cell of its own, for the calls on \<open>sample\<close>.\<close>

definition asStringCell :: "cell \<Rightarrow> cell" where
  "asStringCell v = (case v of None \<Rightarrow> None
                     | Some p \<Rightarrow> Some (p\<lparr>c_str := trim (c_str p), c_isString := True\<rparr>))"

definition inferColumnType :: "cell list \<Rightarrow> inferredType" where
  "inferColumnType values =
     (let nonNull = filter (\<lambda>v. \<not> isMissing v) values in
      if nonNull = [] then ICategorical
      else
        let cleaned = filter (\<lambda>v. safeString v \<noteq> []) (map asStringCell nonNull);
            sample = take 250 cleaned
        in if isLikelyID sample then IId
           else if real (length (filter looksNumeric sample)) / real (length sample) \<ge> 0.8
           then INumeric
           else if real (length (filter looksDate sample)) / real (length sample) \<ge> 0.8
           then IDate
           else if real (sum_list (map (\<lambda>v. length (safeString v)) sample)) / real (length sample) > 30
           then IText
           else ICategorical)"

section \<open>eda.ts\<close>

definition median :: "real list \<Rightarrow> real option" where
  "median srt =
     (let n = length srt in
      if n = 0 then None
      else
        let mid = n div 2
        in if n mod 2 = 0 then Some ((srt ! (mid - 1) + srt ! mid) / 2) else Some (srt ! mid))"

text \<open>\<^verbatim>\<open>stdev(vals, mean)\<close> of eda.ts (charts.ts has a \<^verbatim>\<open>stdev\<close> of its own).\<close>

definition eda_stdev :: "real list \<Rightarrow> real \<Rightarrow> real option" where
  "eda_stdev vals m =
     (let n = length vals in
      if n < 2 then None
      else Some (sqrt (sum_list (map (\<lambda>v. (v - m)\<^sup>2) vals) / real (n - 1))))"

definition fingerprintRow :: "row \<Rightarrow> string list \<Rightarrow> string" where
  "fingerprintRow r cols = join ''||'' (map (\<lambda>c. cellString (getCell r c)) cols)"

definition isIntegerLike :: "real \<Rightarrow> bool" where
  "isIntegerLike n = (\<bar>n - real_of_int \<lfloor>n + 1 / 2\<rfloor>\<bar> < 1 / 10 ^ 9)"

definition looksSequentialId :: "real list \<Rightarrow> nat \<Rightarrow> bool" where
  "looksSequentialId numsSorted uniqueCount =
     (if uniqueCount < 30 then False
      else if length numsSorted = uniqueCount
      then
        let N = length numsSorted;
            steps = min 400 (N - 1);
            stride = max 1 ((N - 1) div steps);
            idxs = filter (\<lambda>i. i mod stride = 0) [0 ..< N - stride];
            checked = length idxs;
            nonDecreasing =
              length (filter (\<lambda>i. numsSorted ! (i + stride) - numsSorted ! i \<ge> 0) idxs);
            inc1 =
              length (filter (\<lambda>i. \<bar>numsSorted ! (i + stride) - numsSorted ! i - real stride\<bar>
                                     < 1 / 10 ^ 6) idxs)
        in if checked = 0 then False
           else real nonDecreasing / real checked > 0.98 \<and> real inc1 / real checked > 0.85
      else False)"

definition isIdLikeNumericColumn :: "string \<Rightarrow> real list \<Rightarrow> nat \<Rightarrow> bool" where
  "isIdLikeNumericColumn col nums uniqueCount =
     (if nameHintsId col then True
      else if length nums < 30 then False
      else if real uniqueCount / real (max 1 (length nums)) < 0.98 then False
      else
        let sampleN = min 500 (length nums);
            stride = max 1 (length nums div sampleN);
            idxs = filter (\<lambda>i. i mod stride = 0) [0 ..< length nums];
            checked = length idxs;
            intOk = length (filter (\<lambda>i. isIntegerLike (nums ! i)) idxs)
        in if real intOk / real (max 1 checked) < 0.98 then False
           else
             let sortedUnique = sort (newSet nums) in
             if looksSequentialId sortedUnique (length sortedUnique) then True
             else
               let mn = sortedUnique ! 0;
                   mx = sortedUnique ! (length sortedUnique - 1);
                   range = \<bar>mx - mn\<bar>
               in if range > 0 \<and> range \<le> real (length sortedUnique) * 1.2 then True else False)"

datatype decided = DId | DNumeric | DDate | DCategorical

text \<open>\<^verbatim>\<open>decideType\<close>; the \<^verbatim>\<open>reason\<close> string it returns beside the type is left out.\<close>

definition decideType :: "string \<Rightarrow> cell list \<Rightarrow> decided" where
  "decideType col values =
     (let nonMissing = filter (\<lambda>v. \<not> isMissing v) values in
      if nonMissing = [] then DCategorical
      else if nameHintsId col then DId
      else if isLikelyID nonMissing then DId
      else
        let N = length nonMissing;
            numericOk = length (filter (\<lambda>v. safeToNumberLoose v \<noteq> None) nonMissing);
            dateOk = length (filter (\<lambda>v. safeToDateLoose v \<noteq> None) nonMissing);
            numericRatio = real numericOk / real N;
            dateRatio = real dateOk / real N;
            hinted = inferColumnType values;
            nums = List.map_filter safeToNumberLoose nonMissing;
            uniqueCount = length (newSet nums)
        in if numericRatio \<ge> 0.7 \<and> isIdLikeNumericColumn col nums uniqueCount then DId
           else if dateRatio \<ge> 0.85 \<and> dateRatio \<ge> numericRatio then DDate
           else if numericRatio \<ge> 0.85 then DNumeric
           else if hinted = IDate \<and> dateRatio \<ge> 0.7 then DDate
           else if hinted = INumeric \<and> numericRatio \<ge> 0.7 then DNumeric
           else DCategorical)"

definition countDuplicates :: "string list \<Rightarrow> nat" where
  "countDuplicates fps =
     fst (foldl (\<lambda>(dups, seen) fp. if fp \<in> set seen then (dups + 1, seen) else (dups, seen @ [fp]))
            (0, []) fps)"

definition topOf :: "(string \<times> nat) list \<Rightarrow> nat \<Rightarrow> topValue list" where
  "topOf uniques nonMissingCount =
     map (\<lambda>(value, count).
            \<lparr>tv_value = value, tv_count = count,
             tv_pct = (real count / real (max 1 nonMissingCount)) * 100\<rparr>)
         (take 8 (sort_key (\<lambda>e. - int (snd e)) uniques))"

text \<open>The body of the loop over the columns in \<^verbatim>\<open>runEDA\<close>: the entry of one column.\<close>

definition columnProfile :: "row list \<Rightarrow> string list \<Rightarrow> string \<Rightarrow> columnEDA" where
  "columnProfile data emptyColumns col =
     (let values = map (\<lambda>r. getCell r col) data;
          missing = length (filter isMissing values);
          nonMissingCount = length data - missing;
          uniques = tally (map cellString (filter (\<lambda>v. \<not> isMissing v) values));
          uniqueCount = length uniques;
          dec = decideType col values
      in if dec = DId
         then \<lparr>e_kind = CategoricalEDA (topOf uniques nonMissingCount), e_missing = missing,
                e_uniqueCount = uniqueCount, e_nonMissingCount = Some nonMissingCount,
                e_inferredAsId = True\<rparr>
         else if dec = DNumeric \<and> col \<notin> set emptyColumns
         then
           let parsed = List.map_filter safeToNumberLoose values;
               zeros = length (filter (\<lambda>n. n = 0) parsed);
               negatives = length (filter (\<lambda>n. n < 0) parsed);
               nums = sort parsed;
               mn = (if nums = [] then None else Some (nums ! 0));
               mx = (if nums = [] then None else Some (nums ! (length nums - 1)));
               meanVal = (if nums = [] then None else Some (sum_list nums / real (length nums)));
               medianVal = (if nums = [] then None else median nums);
               stdevVal = (case meanVal of None \<Rightarrow> None | Some m \<Rightarrow> eda_stdev nums m)
           in \<lparr>e_kind = NumericEDA \<lparr>n_min = mn, n_max = mx, n_mean = meanVal, n_median = medianVal,
                                     n_stdev = stdevVal, n_zeros = zeros, n_negatives = negatives\<rparr>,
                e_missing = missing, e_uniqueCount = uniqueCount,
                e_nonMissingCount = Some (length nums), e_inferredAsId = False\<rparr>
         else if dec = DDate \<and> col \<notin> set emptyColumns
         then
           let parsed = List.map_filter safeToDateLoose values;
               seenDate = newSet (map d_iso parsed);
               dates = sort_key d_time parsed;
               mn = (if dates = [] then None else Some (dates ! 0));
               mx = (if dates = [] then None else Some (dates ! (length dates - 1)))
           in \<lparr>e_kind = DateEDA mn mx, e_missing = missing, e_uniqueCount = length seenDate,
                e_nonMissingCount = Some (length dates), e_inferredAsId = False\<rparr>
         else \<lparr>e_kind = CategoricalEDA (topOf uniques nonMissingCount), e_missing = missing,
                e_uniqueCount = uniqueCount, e_nonMissingCount = Some nonMissingCount,
                e_inferredAsId = False\<rparr>)"

definition isConstantColumn :: "row list \<Rightarrow> string \<Rightarrow> bool" where
  "isConstantColumn data col =
     (let present = filter (\<lambda>v. \<not> isMissing v) (map (\<lambda>r. getCell r col) data)
      in length present > 0 \<and> length (tally (map cellString present)) = 1)"

definition runEDA :: "row list \<Rightarrow> edaResult" where
  "runEDA data =
     (if data = []
      then \<lparr>r_duplicates = 0, r_emptyColumns = [], r_constantColumns = [], r_columns = []\<rparr>
      else
        let columns = newSet (concat (map (map fst) data));
            emptyColumns = filter (\<lambda>col. list_all (\<lambda>r. isMissing (getCell r col)) data) columns;
            duplicates = countDuplicates (map (\<lambda>r. fingerprintRow r columns) data)
        in \<lparr>r_duplicates = duplicates, r_emptyColumns = emptyColumns,
             r_constantColumns = filter (isConstantColumn data) columns,
             r_columns = map (\<lambda>col. (col, columnProfile data emptyColumns col)) columns\<rparr>)"

section \<open>kpis.ts\<close>

text \<open>
  The number formatting of the host (\<^verbatim>\<open>toLocaleString()\<close>, \<^verbatim>\<open>toFixed(2)\<close>, and \<^verbatim>\<open>String\<close> of a
  number) depends on the locale and on the binary representation; the three functions are
  parameters of the functions that print numbers.  An integer is printed by \<open>showInt\<close>,
  as \<^verbatim>\<open>String\<close> does below \<open>10\<^sup>2\<^sup>1\<close>.
\<close>

record host =
  toLocaleString :: "real \<Rightarrow> string"
  toFixed2 :: "real \<Rightarrow> string"
  numberToString :: "real \<Rightarrow> string"

text \<open>The characters of the source outside ASCII, as their UTF-8 bytes.\<close>

definition arrow :: string where
  "arrow = [CHR 0xE2, CHR 0x86, CHR 0x92]"

definition emDash :: string where
  "emDash = [CHR 0xE2, CHR 0x80, CHR 0x94]"


definition rsquo :: string where
  "rsquo = [CHR 0xE2, CHR 0x80, CHR 0x99]"

definition ellipsis :: string where
  "ellipsis = [CHR 0xE2, CHR 0x80, CHR 0xA6]"

datatype kpiType = KSum | KMean | KMin | KMax | KCount | KRate | KRange | KSpan | KTop

record kpi =
  k_column :: "string option"
  k_label :: string
  k_value :: string
  k_type :: kpiType

definition mathRound :: "real \<Rightarrow> int" where
  "mathRound x = \<lfloor>x + 1 / 2\<rfloor>"

definition fmtPct :: "real \<Rightarrow> string" where
  "fmtPct x = showInt (mathRound x) @ ''%''"

definition fmtCompact :: "host \<Rightarrow> real \<Rightarrow> string" where
  "fmtCompact h n =
     (let a = \<bar>n\<bar> in
      if a \<ge> 1000000000 then toFixed2 h (n / 1000000000) @ ''B''
      else if a \<ge> 1000000 then toFixed2 h (n / 1000000) @ ''M''
      else if a \<ge> 1000 then toLocaleString h (real_of_int (mathRound n))
      else if n = real_of_int \<lfloor>n\<rfloor> then toLocaleString h n
      else toFixed2 h n)"

definition isIdLikeColumn :: "string \<Rightarrow> columnEDA option \<Rightarrow> nat \<Rightarrow> bool" where
  "isIdLikeColumn col info rowCount =
     (if nameHintsId col then True
      else if (case info of None \<Rightarrow> False | Some i \<Rightarrow> e_inferredAsId i) then True
      else
        let unique = (case info of None \<Rightarrow> 0 | Some i \<Rightarrow> e_uniqueCount i);
            nn = (case info of None \<Rightarrow> rowCount
                  | Some i \<Rightarrow> (case e_nonMissingCount i of None \<Rightarrow> rowCount | Some k \<Rightarrow> k));
            ratio = real unique / real (max 1 nn)
        in unique \<ge> 20 \<and> ratio > 0.98)"

definition scoreNumericCol :: "string \<Rightarrow> columnEDA option \<Rightarrow> nat \<Rightarrow> real" where
  "scoreNumericCol col info rowCount =
     (case info of
        None \<Rightarrow> 0
      | Some i \<Rightarrow>
          if isIdLikeColumn col info rowCount then 0
          else
            let nn = (case e_nonMissingCount i of None \<Rightarrow> 0 | Some k \<Rightarrow> k);
                mn = (case e_numeric i of None \<Rightarrow> None | Some s \<Rightarrow> n_min s);
                mx = (case e_numeric i of None \<Rightarrow> None | Some s \<Rightarrow> n_max s);
                sd = (case e_numeric i of None \<Rightarrow> None | Some s \<Rightarrow> n_stdev s)
            in if nn < 25 then 0
               else case (mn, mx) of
                 (Some lo, Some hi) \<Rightarrow>
                   let range = \<bar>hi - lo\<bar> in
                   if range = 0 then 1
                   else
                     let spread = (case sd of None \<Rightarrow> range | Some s \<Rightarrow> s)
                     in log 10 (real nn + 1) * 12 + log 10 (spread + 1) * 10
               | _ \<Rightarrow> 0)"

record bestCat =
  bcat_col :: string
  bcat_top :: topValue
  bcat_score :: real

definition pickBestCategorical :: "edaResult \<Rightarrow> nat \<Rightarrow> bestCat option" where
  "pickBestCategorical eda rowCountHint =
     foldl (\<lambda>best (col, info).
              if isIdLikeColumn col (Some info) rowCountHint then best
              else
                let unique = e_uniqueCount info;
                    nn0 = (case e_nonMissingCount info of None \<Rightarrow> 0 | Some k \<Rightarrow> k);
                    nn = (if nn0 = 0 then rowCountHint else nn0)
                in case e_topValues info of
                     [] \<Rightarrow> best
                   | tv # _ \<Rightarrow>
                       let dominance = tv_pct tv;
                           uniqueRatio = (if nn > 0 then real unique / real nn else 0);
                           looksNameList = (unique \<ge> 50 \<and> uniqueRatio > 0.5 \<and> dominance < 40)
                       in if looksNameList then best
                          else
                            let score = dominance * 2
                                  + (if unique \<le> 12 then 30 else if unique \<le> 25 then 15 else 0)
                                  + (if uniqueRatio < 0.4 then 10 else 0);
                                new = Some \<lparr>bcat_col = col, bcat_top = tv, bcat_score = score\<rparr>
                            in case best of
                                 None \<Rightarrow> new
                               | Some b \<Rightarrow> if score > bcat_score b then new else best)
           None
           (filter (\<lambda>(col, info). e_type info = TCategorical) (r_columns eda))"

record bestDate =
  bdate_col :: string
  bdate_min :: string
  bdate_max :: string
  bdate_days :: real

definition pickBestDate :: "edaResult \<Rightarrow> bestDate option" where
  "pickBestDate eda =
     foldl (\<lambda>best (col, info).
              case e_kind info of
                DateEDA (Some mn) (Some mx) \<Rightarrow>
                  if d_iso mn = [] then best
                  else if d_iso mx = [] then best
                  else
                    let days = \<bar>real_of_int (d_time mx - d_time mn)\<bar> / (1000 * 60 * 60 * 24);
                        new = Some \<lparr>bdate_col = col, bdate_min = d_iso mn, bdate_max = d_iso mx,
                                     bdate_days = days\<rparr>
                    in (case best of
                          None \<Rightarrow> new
                        | Some b \<Rightarrow> if days > bdate_days b then new else best)
              | _ \<Rightarrow> best)
           None
           (filter (\<lambda>(col, info). e_type info = TDate) (r_columns eda))"

definition missingRateKpi :: "edaResult \<Rightarrow> nat \<Rightarrow> kpi list" where
  "missingRateKpi eda rowCount =
     (let totalMissing = sum_list (map (\<lambda>(col, info). e_missing info) (r_columns eda));
          totalCells = sum_list (map (\<lambda>(col, info).
                          e_missing info + (case e_nonMissingCount info of
                                              Some nn \<Rightarrow> nn | None \<Rightarrow> rowCount - e_missing info))
                        (r_columns eda))
      in if totalCells > 0
         then [\<lparr>k_column = None, k_label = ''Missing rate'',
                 k_value = fmtPct ((real totalMissing / real totalCells) * 100), k_type = KRate\<rparr>]
         else [])"

text \<open>The candidates of the numeric story: scored, the zero scores dropped, best five.\<close>

definition numericKpiCandidates :: "edaResult \<Rightarrow> nat \<Rightarrow> (string \<times> real) list" where
  "numericKpiCandidates eda rowCount =
     take 5 (sort_key (\<lambda>x. - snd x)
       (filter (\<lambda>x. snd x > 0)
          (map (\<lambda>(col, info). (col, scoreNumericCol col (Some info) rowCount))
             (filter (\<lambda>(col, info). e_type info = TNumeric) (r_columns eda)))))"

definition numericKpis :: "host \<Rightarrow> row list \<Rightarrow> edaResult \<Rightarrow> kpi list" where
  "numericKpis h data eda =
     (case find (\<lambda>item. \<not> length (columnValues data (fst item)) < 25)
             (numericKpiCandidates eda (length data)) of
        None \<Rightarrow> []
      | Some item \<Rightarrow>
          let col = fst item;
              nums = columnValues data col;
              total = sum_list nums;
              avg = total / real (length nums);
              mn = Min (set nums);
              mx = Max (set nums)
          in [\<lparr>k_column = Some col, k_label = ''Total '' @ col, k_value = fmtCompact h total,
                k_type = KSum\<rparr>,
              \<lparr>k_column = Some col, k_label = ''Average '' @ col, k_value = fmtCompact h avg,
                k_type = KMean\<rparr>,
              \<lparr>k_column = Some col, k_label = col @ '' range'',
                k_value = fmtCompact h mn @ '' '' @ arrow @ '' '' @ fmtCompact h mx,
                k_type = KRange\<rparr>])"

definition generateKPIs :: "host \<Rightarrow> row list \<Rightarrow> edaResult option \<Rightarrow> kpi list" where
  "generateKPIs h data eda =
     (if data = [] then []
      else
        let rowCount = length data;
            rows = [\<lparr>k_column = None, k_label = ''Rows'',
                     k_value = toLocaleString h (real rowCount), k_type = KCount\<rparr>]
        in take 6
             (rows @
              (case eda of
                 None \<Rightarrow> []
               | Some e \<Rightarrow>
                   (if r_duplicates e > 0
                    then [\<lparr>k_column = None, k_label = ''Duplicates'',
                            k_value = toLocaleString h (real (r_duplicates e)), k_type = KCount\<rparr>]
                    else [])
                   @ missingRateKpi e rowCount
                   @ numericKpis h data e
                   @ (case pickBestCategorical e rowCount of
                        None \<Rightarrow> []
                      | Some b \<Rightarrow>
                          [\<lparr>k_column = Some (bcat_col b), k_label = ''Top '' @ bcat_col b,
                            k_value = tv_value (bcat_top b) @ '' (''
                                        @ showInt (mathRound (tv_pct (bcat_top b))) @ ''%)'',
                            k_type = KTop\<rparr>])
                   @ (case pickBestDate e of
                        None \<Rightarrow> []
                      | Some b \<Rightarrow>
                          [\<lparr>k_column = Some (bdate_col b),
                            k_label = ''Date span ('' @ bdate_col b @ '')'',
                            k_value = take 10 (bdate_min b) @ '' '' @ arrow @ '' ''
                                        @ take 10 (bdate_max b),
                            k_type = KSpan\<rparr>]))))"

section \<open>insights.ts\<close>

datatype severity = Info | Warning | Positive

datatype action = Investigate | Segment | Clean | Monitor | Report

record insight =
  i_id :: string
  i_text :: string
  i_severity :: severity
  i_column :: "string option"
  i_action :: "action option"
  i_suggestedQuestions :: "string list"

definition dq :: string where
  "dq = [CHR 0x22]"

definition isKeyChar :: "char \<Rightarrow> bool" where
  "isKeyChar c = ((CHR ''a'' \<le> c \<and> c \<le> CHR ''z'') \<or> (CHR ''0'' \<le> c \<and> c \<le> CHR ''9''))"

text \<open>
  \<^verbatim>\<open>normalizeKey\<close>: lower case, trim, drop \<^verbatim>\<open>[_\s]\<close>, drop \<^verbatim>\<open>[^a-z0-9]\<close>.  The copy in
  ask.ts trims first and rewrites white space before it drops the same characters, which
  gives the same string.
\<close>

definition normalizeKey :: "string \<Rightarrow> string" where
  "normalizeKey s =
     filter isKeyChar (filter (\<lambda>c. \<not> (c = CHR ''_'' \<or> isWs c)) (trim (toLowerCase s)))"

definition resolveColumn :: "string \<Rightarrow> (string \<times> columnEDA) list \<Rightarrow> string option" where
  "resolveColumn raw columns =
     (let target = normalizeKey raw in
      if target = [] then None
      else find (\<lambda>col. normalizeKey col = target) (map fst columns))"

definition pushUnique :: "insight list \<Rightarrow> insight \<Rightarrow> insight list" where
  "pushUnique into item = (if list_ex (\<lambda>x. i_id x = i_id item) into then into else into @ [item])"

fun weight :: "severity \<Rightarrow> nat" where
  "weight Warning = 0"
| "weight Positive = 1"
| "weight Info = 2"

definition sortBusiness :: "insight list \<Rightarrow> insight list" where
  "sortBusiness insights = sort_key (\<lambda>i. weight (i_severity i)) insights"

datatype suggestKind = SOutlier | SDominance | SMissing | STime | SHeadline

definition suggest :: "string option \<Rightarrow> suggestKind \<Rightarrow> string list" where
  "suggest col kind =
     (let c = (case col of None \<Rightarrow> [] | Some x \<Rightarrow> x);
          base =
            (case kind of
               SOutlier \<Rightarrow>
                 [''explain '' @ c, ''distribution of '' @ c, ''should i use mean or median'',
                  ''are there any outliers'', ''what risks do the outliers pose'']
             | SDominance \<Rightarrow>
                 [''top '' @ c, ''distribution of '' @ c, ''what stands out'',
                  ''what decisions could be misleading'', ''what would you investigate next'']
             | SMissing \<Rightarrow>
                 [''missing by column'', ''is this dataset clean'',
                  ''are there any data quality risks'',
                  (if c = [] then ''summarise dataset'' else ''explain '' @ c)]
             | STime \<Rightarrow>
                 [''what is the time coverage of this dataset'',
                  ''are there enough dates to analyse trends'', ''is this data seasonal'',
                  ''what would a time trend reveal here'']
             | SHeadline \<Rightarrow>
                 [''summarise dataset'', ''what is the main metric'', ''what stands out'',
                  ''what would you highlight to executives''])
      in newSet (filter (\<lambda>s. s \<noteq> []) (map trim base)))"

text \<open>\<^verbatim>\<open>kpis.find((k) => k.type === t && k.column)\<close>: the column is a string that is not empty.\<close>

definition findKpi :: "kpiType \<Rightarrow> kpi list \<Rightarrow> kpi option" where
  "findKpi t kpis =
     find (\<lambda>k. k_type k = t \<and> (case k_column k of None \<Rightarrow> False | Some c \<Rightarrow> c \<noteq> [])) kpis"

definition mainMetricColOf :: "edaResult \<Rightarrow> kpi list \<Rightarrow> string option" where
  "mainMetricColOf eda kpis =
     (let mainMetric = (case findKpi KSum kpis of Some k \<Rightarrow> Some k | None \<Rightarrow> findKpi KMean kpis)
      in case mainMetric of
           None \<Rightarrow> None
         | Some k \<Rightarrow> (case k_column k of None \<Rightarrow> None | Some c \<Rightarrow> resolveColumn c (r_columns eda)))"

definition listNames :: "string list \<Rightarrow> string" where
  "listNames cols = join '', '' (take 4 cols) @ (if length cols > 4 then ellipsis else [])"

text \<open>The template strings of the insights.\<close>

definition duplicatesText :: "host \<Rightarrow> nat \<Rightarrow> string" where
  "duplicatesText h dup =
     ''Dataset contains '' @ toLocaleString h (real dup)
       @ '' duplicate row(s). Consider de-duplicating before analysis.''"

definition emptyColumnsText :: "string list \<Rightarrow> string" where
  "emptyColumnsText cols =
     ''Some columns are empty (all missing): '' @ listNames cols @ ''. Remove or fix them.''"

definition constantColumnsText :: "string list \<Rightarrow> string" where
  "constantColumnsText cols =
     ''Some columns are constant (no variation): '' @ listNames cols
       @ ''. They won'' @ rsquo @ ''t help explain differences.''"

definition missingText :: "string \<Rightarrow> real \<Rightarrow> string" where
  "missingText col missPct =
     ''Column '' @ dq @ col @ dq @ '' has ~'' @ showInt (mathRound missPct)
       @ ''% missing values. Any conclusions involving this column may be biased.''"

definition outlierText :: "string \<Rightarrow> string \<Rightarrow> string" where
  "outlierText metricTag col =
     metricTag @ '' '' @ dq @ col @ dq @ '' has extreme values that may distort averages. ''
       @ ''Use median/percentiles and segment (e.g., by category/country) before making decisions.''"

definition negativesText :: "string \<Rightarrow> string" where
  "negativesText col =
     dq @ col @ dq
       @ '' includes negative values. Confirm whether negatives represent refunds/credits or data errors.''"

definition skewText :: "string \<Rightarrow> string" where
  "skewText col =
     dq @ col @ dq
       @ '' appears right-skewed (mean > median). Median-based KPIs may be more stable for reporting.''"

definition dominanceText :: "string \<Rightarrow> string \<Rightarrow> real \<Rightarrow> string" where
  "dominanceText col v pct =
     ''Column '' @ dq @ col @ dq @ '' is highly concentrated: '' @ dq @ v @ dq
       @ '' accounts for ~'' @ showInt (mathRound pct) @ ''%. This can hide smaller segments''
       @ emDash @ ''break down key metrics by '' @ dq @ col @ dq @ '' before concluding.''"

definition coverageText :: "string \<Rightarrow> string \<Rightarrow> string \<Rightarrow> nat \<Rightarrow> string" where
  "coverageText dateCol mn mx uniq =
     ''Time coverage: '' @ dq @ dateCol @ dq @ '' spans '' @ mn @ '' '' @ arrow @ '' '' @ mx
       @ ''. ''
       @ (if uniq \<ge> 30
          then ''Enough granularity ('' @ showNat uniq
            @ '' unique dates) for trend/seasonality checks via weekly/monthly aggregation.''
          else ''Date coverage exists but granularity is limited ('' @ showNat uniq
            @ '' unique dates).'')"

definition headlineTotalText :: "string \<Rightarrow> string \<Rightarrow> string" where
  "headlineTotalText col v =
     ''Headline: Total '' @ col @ '' = '' @ v @ '' (useful for top-line reporting).''"

definition headlineAverageText :: "string \<Rightarrow> string \<Rightarrow> string" where
  "headlineAverageText col v =
     ''Headline: Average '' @ col @ '' = '' @ v @ '' (useful for baseline reporting).''"

definition qualityInsights :: "host \<Rightarrow> edaResult \<Rightarrow> insight list" where
  "qualityInsights h eda =
     (if r_duplicates eda > 0
      then [\<lparr>i_id = ''duplicates'',
              i_text = duplicatesText h (r_duplicates eda),
              i_severity = Warning, i_column = None, i_action = Some Clean,
              i_suggestedQuestions = suggest None SMissing\<rparr>]
      else [])
     @ (if length (r_emptyColumns eda) > 0
        then [\<lparr>i_id = ''empty-cols'',
                i_text = emptyColumnsText (r_emptyColumns eda),
                i_severity = Warning, i_column = None, i_action = Some Clean,
                i_suggestedQuestions = suggest None SMissing\<rparr>]
        else [])
     @ (if length (r_constantColumns eda) > 0
        then [\<lparr>i_id = ''constant-cols'',
                i_text = constantColumnsText (r_constantColumns eda),
                i_severity = Info, i_column = None, i_action = Some Clean,
                i_suggestedQuestions = [''summarise dataset'', ''what columns are most important'',
                                        ''what would you investigate next'']\<rparr>]
        else [])"

definition missingInsight :: "string \<Rightarrow> columnEDA \<Rightarrow> insight list" where
  "missingInsight col info =
     (case e_nonMissingCount info of
        None \<Rightarrow> []
      | Some nonMissingCount \<Rightarrow>
          let missing = e_missing info;
              totalApprox = missing + nonMissingCount
          in if totalApprox > 0
             then
               let missPct = (real missing / real totalApprox) * 100
               in if missPct \<ge> 25
                  then [\<lparr>i_id = col @ ''-missing'',
                          i_text = missingText col missPct,
                          i_severity = (if missPct \<ge> 40 then Warning else Info),
                          i_column = Some col, i_action = Some Clean,
                          i_suggestedQuestions = suggest (Some col) SMissing\<rparr>]
                  else []
             else [])"

text \<open>\<^verbatim>\<open>num(v)\<close> on a field of a numeric profile: \<^verbatim>\<open>Number(null)\<close> is 0.\<close>

definition num :: "real option \<Rightarrow> real option" where
  "num v = (case v of None \<Rightarrow> Some 0 | Some x \<Rightarrow> Some x)"

record outlierCandidate =
  oc_col :: string
  oc_score :: real
  oc_insight :: insight

definition outlierRatio :: "real \<Rightarrow> real \<Rightarrow> real" where
  "outlierRatio mx mu = mx / max (1 / 10 ^ 9) mu"

text \<open>The candidates one numeric column pushes onto \<^verbatim>\<open>outlierCandidates\<close>.\<close>

definition outlierCandidatesOf :: "string option \<Rightarrow> string \<Rightarrow> columnEDA \<Rightarrow> outlierCandidate list" where
  "outlierCandidatesOf mainMetricCol col info =
     (case e_numeric info of
        None \<Rightarrow> []
      | Some st \<Rightarrow>
          (case (num (n_max st), num (n_mean st), num (n_median st), num (n_min st)) of
             (Some mx, Some mu, med, mn) \<Rightarrow>
               if mu = 0 then []
               else
                 let ratio = outlierRatio mx mu;
                     meanMedianGap =
                       (case med of
                          None \<Rightarrow> None
                        | Some md \<Rightarrow> if md > 0 then Some (mu / max (1 / 10 ^ 9) md) else None);
                     skewHint = (case meanMedianGap of None \<Rightarrow> False | Some g \<Rightarrow> g \<ge> 1.1);
                     strongOutlier = (ratio \<ge> 3)
                 in if strongOutlier
                    then
                      let isMain = (mainMetricCol = Some col);
                          metricTag = (if isMain then ''Main metric'' else ''Metric'');
                          baseText = outlierText metricTag col;
                          score = (if isMain then 100 else 0) + ratio * 10
                      in [\<lparr>oc_col = col, oc_score = score,
                            oc_insight = \<lparr>i_id = ''outlier-'' @ normalizeKey col, i_text = baseText,
                                           i_severity = Warning, i_column = Some col,
                                           i_action = Some Investigate,
                                           i_suggestedQuestions = suggest (Some col) SOutlier\<rparr>\<rparr>]
                         @ (if (case mn of None \<Rightarrow> False | Some m \<Rightarrow> m < 0)
                            then [\<lparr>oc_col = col, oc_score = score - 20,
                                    oc_insight =
                                      \<lparr>i_id = ''negatives-'' @ normalizeKey col,
                                       i_text = negativesText col,
                                       i_severity = Info, i_column = Some col,
                                       i_action = Some Investigate,
                                       i_suggestedQuestions =
                                         [''explain '' @ col, ''distribution of '' @ col,
                                          ''are there any data quality risks'']\<rparr>\<rparr>]
                            else [])
                         @ (if skewHint
                            then [\<lparr>oc_col = col, oc_score = score - 25,
                                    oc_insight =
                                      \<lparr>i_id = ''skew-'' @ normalizeKey col,
                                       i_text = skewText col,
                                       i_severity = Info, i_column = Some col,
                                       i_action = Some Monitor,
                                       i_suggestedQuestions =
                                         [''should i use mean or median'', ''distribution of '' @ col,
                                          ''are extreme values affecting averages'']\<rparr>\<rparr>]
                            else [])
                    else []
           | _ \<Rightarrow> []))"

definition outlierCandidates :: "edaResult \<Rightarrow> kpi list \<Rightarrow> outlierCandidate list" where
  "outlierCandidates eda kpis =
     concat (map (\<lambda>(col, info). outlierCandidatesOf (mainMetricColOf eda kpis) col info)
               (r_columns eda))"

record dominanceCandidate =
  dc_col :: string
  dc_score :: real
  dc_insight :: insight

definition dominanceCandidatesOf :: "string \<Rightarrow> columnEDA \<Rightarrow> dominanceCandidate list" where
  "dominanceCandidatesOf col info =
     (if e_type info = TCategorical
      then
        (case e_topValues info of
           [] \<Rightarrow> []
         | tv # _ \<Rightarrow>
             let pct = tv_pct tv;
                 uniqueCount = e_uniqueCount info
             in if pct \<ge> 70 \<and> uniqueCount \<ge> 2
                then [\<lparr>dc_col = col, dc_score = pct * 2 - real uniqueCount,
                        dc_insight =
                          \<lparr>i_id = ''dominance-'' @ normalizeKey col,
                           i_text = dominanceText col (tv_value tv) pct,
                           i_severity = Info, i_column = Some col, i_action = Some Segment,
                           i_suggestedQuestions = suggest (Some col) SDominance\<rparr>\<rparr>]
                else [])
      else [])"

definition dateCoverageInsight :: "edaResult \<Rightarrow> insight list" where
  "dateCoverageInsight eda =
     (case find (\<lambda>(col, info). e_type info = TDate) (r_columns eda) of
        None \<Rightarrow> []
      | Some (dateCol, _) \<Rightarrow>
          if dateCol = [] then []
          else
            (case map_of (r_columns eda) dateCol of
               None \<Rightarrow> []
             | Some info \<Rightarrow>
                 (case e_kind info of
                    DateEDA (Some lo) (Some hi) \<Rightarrow>
                      let mn = take 10 (d_iso lo);
                          mx = take 10 (d_iso hi);
                          uniq = e_uniqueCount info
                      in if mn = [] then []
                         else if mx = [] then []
                         else
                           [\<lparr>i_id = dateCol @ ''-coverage'',
                             i_text = coverageText dateCol mn mx uniq,
                             i_severity = Info, i_column = Some dateCol, i_action = Some Monitor,
                             i_suggestedQuestions = suggest (Some dateCol) STime\<rparr>]
                  | _ \<Rightarrow> [])))"

definition headlineInsight :: "edaResult \<Rightarrow> kpi list \<Rightarrow> insight list" where
  "headlineInsight eda kpis =
     (case findKpi KSum kpis of
        Some sumKpi \<Rightarrow>
          let column = (case k_column sumKpi of None \<Rightarrow> [] | Some c \<Rightarrow> c);
              col = (case resolveColumn column (r_columns eda) of None \<Rightarrow> column | Some c \<Rightarrow> c)
          in [\<lparr>i_id = ''headline-total-'' @ normalizeKey col,
                i_text = headlineTotalText col (k_value sumKpi),
                i_severity = Positive, i_column = Some col, i_action = Some Report,
                i_suggestedQuestions = suggest (Some col) SHeadline\<rparr>]
      | None \<Rightarrow>
          (case findKpi KMean kpis of
             Some meanKpi \<Rightarrow>
               let column = (case k_column meanKpi of None \<Rightarrow> [] | Some c \<Rightarrow> c);
                   col = (case resolveColumn column (r_columns eda) of None \<Rightarrow> column | Some c \<Rightarrow> c)
               in [\<lparr>i_id = ''headline-avg-'' @ normalizeKey col,
                     i_text = headlineAverageText col (k_value meanKpi),
                     i_severity = Positive, i_column = Some col, i_action = Some Report,
                     i_suggestedQuestions = suggest (Some col) SHeadline\<rparr>]
           | None \<Rightarrow> []))"

text \<open>
  \<^verbatim>\<open>generateInsights\<close>: every rule hands its insights to \<^verbatim>\<open>pushUnique\<close> in the order of
  the source; the list is then sorted by severity and cut to six.
\<close>

definition keptOutliers :: "edaResult \<Rightarrow> kpi list \<Rightarrow> insight list" where
  "keptOutliers eda kpis =
     map oc_insight (take 2 (sort_key (\<lambda>x. - oc_score x) (outlierCandidates eda kpis)))"

definition keptDominance :: "edaResult \<Rightarrow> insight list" where
  "keptDominance eda =
     map dc_insight (take 1 (sort_key (\<lambda>x. - dc_score x)
       (concat (map (\<lambda>(col, info). dominanceCandidatesOf col info) (r_columns eda)))))"

definition collectedInsights :: "host \<Rightarrow> edaResult \<Rightarrow> kpi list \<Rightarrow> insight list" where
  "collectedInsights h eda kpis =
     foldl pushUnique []
       (qualityInsights h eda
        @ concat (map (\<lambda>(col, info). missingInsight col info) (r_columns eda))
        @ keptOutliers eda kpis
        @ keptDominance eda
        @ dateCoverageInsight eda
        @ headlineInsight eda kpis)"

definition generateInsights :: "host \<Rightarrow> edaResult \<Rightarrow> kpi list \<Rightarrow> insight list" where
  "generateInsights h eda kpis = take 6 (sortBusiness (collectedInsights h eda kpis))"

section \<open>ask.ts\<close>





















































section \<open>Example inputs\<close>

text \<open>A cell holding the string \<^verbatim>\<open>"x"\<close>, which is neither a number nor a date.\<close>

definition xCell :: cell where
  "xCell = Some \<lparr>c_str = ''x'', c_isString = True, c_num = None, c_date = None,
                  c_looksNumeric = False, c_looksDate = False\<rparr>"

text \<open>Two equal rows with four text columns, and their profile.\<close>

definition catInfo :: columnEDA where
  "catInfo = \<lparr>e_kind = CategoricalEDA [\<lparr>tv_value = ''x'', tv_count = 2, tv_pct = 100\<rparr>],
              e_missing = 0, e_uniqueCount = 1, e_nonMissingCount = Some 2, e_inferredAsId = False\<rparr>"

definition data4 :: "row list" where
  "data4 = replicate 2 [(''a'', xCell), (''b'', xCell), (''c'', xCell), (''d'', xCell)]"

definition eda4 :: edaResult where
  "eda4 = \<lparr>r_duplicates = 1, r_emptyColumns = [], r_constantColumns = [''a'', ''b'', ''c'', ''d''],
            r_columns = [(''a'', catInfo), (''b'', catInfo), (''c'', catInfo), (''d'', catInfo)]\<rparr>"

text \<open>
  A cell holding the number \<open>x\<close>, which \<^verbatim>\<open>String\<close> prints as \<open>s\<close>, on a host whose
  \<^verbatim>\<open>Date.parse\<close> accepts the ECMAScript date-time format only and so rejects \<open>s\<close>.
\<close>

definition numCell :: "real \<Rightarrow> string \<Rightarrow> cell" where
  "numCell x s = Some \<lparr>c_str = s, c_isString = False, c_num = Some x, c_date = None,
                        c_looksNumeric = True, c_looksDate = False\<rparr>"

text \<open>Twelve rows with one column \<^verbatim>\<open>amount\<close>: three times 0.5 and nine times 100.5.\<close>

definition dataBox :: "row list" where
  "dataBox = replicate 3 [(''amount'', numCell 0.5 ''0.5'')]
             @ replicate 9 [(''amount'', numCell 100.5 ''100.5'')]"

text \<open>The box plot of \<open>dataBox\<close>: the lower whisker end lies above the first quartile.\<close>

definition boxOfDataBox :: boxChartSpec where
  "boxOfDataBox = \<lparr>bc_column = ''amount'', bc_min = 100.5, bc_q1 = 75.5, bc_median = 100.5,
                     bc_q3 = 100.5, bc_max = 100.5, bc_iqr = 25, bc_outliers = [0.5, 0.5, 0.5],
                     bc_total = 12\<rparr>"

text \<open>Twelve rows with the amounts 1.5, 2.5, ..., 12.5, and their box plot.\<close>

definition dataPlain :: "row list" where
  "dataPlain = map (\<lambda>(x, s). [(''amount'', numCell x s)])
     [(1.5, ''1.5''), (2.5, ''2.5''), (3.5, ''3.5''), (4.5, ''4.5''), (5.5, ''5.5''),
      (6.5, ''6.5''), (7.5, ''7.5''), (8.5, ''8.5''), (9.5, ''9.5''), (10.5, ''10.5''),
      (11.5, ''11.5''), (12.5, ''12.5'')]"

definition boxOfDataPlain :: boxChartSpec where
  "boxOfDataPlain = \<lparr>bc_column = ''amount'', bc_min = 1.5, bc_q1 = 4.25, bc_median = 7,
                       bc_q3 = 9.75, bc_max = 12.5, bc_iqr = 5.5, bc_outliers = [],
                       bc_total = 12\<rparr>"

text \<open>
  The parsed values of a column of 409 rows: 207 of them are 0.5, the other 202 lie
  outside the fences, which collapse to the single point 0.5.
\<close>

definition manyValues :: "real list" where
  "manyValues = replicate 101 (-1.5) @ replicate 207 0.5 @ replicate 100 1.5 @ [2.5]"

text \<open>The histogram of \<open>dataBox\<close>.\<close>

definition histOfDataBox :: histogramChartSpec where
  "histOfDataBox = \<lparr>hc_column = ''amount'', hc_bins = 8,
                      hc_edges = [0.5, 13, 25.5, 38, 50.5, 63, 75.5, 88, 100.5],
                      hc_counts = [3, 0, 0, 0, 0, 0, 0, 9], hc_min = 0.5, hc_max = 100.5,
                      hc_total = 12\<rparr>"

text \<open>
  Sixteen rows with one column \<^verbatim>\<open>period\<close>: the strings \<^verbatim>\<open>"2019"\<close> and \<^verbatim>\<open>"2020"\<close> seven
  times each, which are numbers and, as a year of the ECMAScript date-time format, dates
  as well, and the string \<^verbatim>\<open>"2021-03-01"\<close> twice, which is a date and not a number.  The
  host runs in the time zone UTC.
\<close>

definition yearCell :: "string \<Rightarrow> real \<Rightarrow> int \<Rightarrow> int \<Rightarrow> cell" where
  "yearCell s x t y =
     Some \<lparr>c_str = s, c_isString = True, c_num = Some x,
           c_date = Some \<lparr>d_time = t, d_year = y, d_month = 0, d_day = 1,
                           d_iso = s @ ''-01-01T00:00:00.000Z''\<rparr>,
           c_looksNumeric = True, c_looksDate = True\<rparr>"

definition marchCell :: cell where
  "marchCell =
     Some \<lparr>c_str = ''2021-03-01'', c_isString = True, c_num = None,
           c_date = Some \<lparr>d_time = 1614556800000, d_year = 2021, d_month = 2, d_day = 1,
                           d_iso = ''2021-03-01T00:00:00.000Z''\<rparr>,
           c_looksNumeric = False, c_looksDate = True\<rparr>"

definition dataYears :: "row list" where
  "dataYears = map (\<lambda>c. [(''period'', c)])
     (concat (replicate 7 [yearCell ''2019'' 2019 1546300800000 2019,
                           yearCell ''2020'' 2020 1577836800000 2020])
      @ [marchCell, marchCell])"

definition histOfDataYears :: histogramChartSpec where
  "histOfDataYears = \<lparr>hc_column = ''period'', hc_bins = 8,
                        hc_edges = [2019, 2019.125, 2019.25, 2019.375, 2019.5, 2019.625, 2019.75,
                                    2019.875, 2020],
                        hc_counts = [7, 0, 0, 0, 0, 0, 0, 7], hc_min = 2019, hc_max = 2020,
                        hc_total = 14\<rparr>"

text \<open>
  A stand-in for the number printing of the host, which prints the integer part.  None of
  the statements below depends on what it prints.
\<close>

definition plainHost :: host where
  "plainHost = \<lparr>toLocaleString = (\<lambda>x. showInt \<lfloor>x\<rfloor>), toFixed2 = (\<lambda>x. showInt \<lfloor>x\<rfloor>),
                  numberToString = (\<lambda>x. showInt \<lfloor>x\<rfloor>)\<rparr>"

text \<open>Twenty-five rows with one column \<^verbatim>\<open>amount\<close> that is 7.5 in every row.\<close>

definition dataFlat :: "row list" where
  "dataFlat = replicate 25 [(''amount'', numCell 7.5 ''7.5'')]"

text \<open>Four rows with one column \<^verbatim>\<open>profit\<close>: -40, -35, -30 and 25, with the mean -20.\<close>

definition dataProfit :: "row list" where
  "dataProfit = map (\<lambda>(x, s). [(''profit'', numCell x s)])
     [(-40, ''-40''), (-35, ''-35''), (-30, ''-30''), (25, ''25'')]"

text \<open>
  Five rows with one column \<^verbatim>\<open>amount\<close>: four times 2 and once 32, with the mean 8; and the
  profile \<^verbatim>\<open>runEDA\<close> computes for that column.
\<close>

definition dataSpike :: "row list" where
  "dataSpike = map (\<lambda>(x, s). [(''amount'', numCell x s)])
     [(2, ''2''), (2, ''2''), (2, ''2''), (2, ''2''), (32, ''32'')]"

definition profileOfSpike :: columnEDA where
  "profileOfSpike = snd (hd (r_columns (runEDA dataSpike)))"

text \<open>
  Thirty rows with the columns \<^verbatim>\<open>order_id\<close>, the integers 1 to 30 in order, and \<^verbatim>\<open>amount\<close>,
  20.5 and 10.5 in turn.
\<close>

definition dataOrders :: "row list" where
  "dataOrders = map (\<lambda>(i, si, a, sa). [(''order_id'', numCell i si), (''amount'', numCell a sa)])
     [(1, ''1'', 20.5, ''20.5''), (2, ''2'', 10.5, ''10.5''),
      (3, ''3'', 20.5, ''20.5''), (4, ''4'', 10.5, ''10.5''),
      (5, ''5'', 20.5, ''20.5''), (6, ''6'', 10.5, ''10.5''),
      (7, ''7'', 20.5, ''20.5''), (8, ''8'', 10.5, ''10.5''),
      (9, ''9'', 20.5, ''20.5''), (10, ''10'', 10.5, ''10.5''),
      (11, ''11'', 20.5, ''20.5''), (12, ''12'', 10.5, ''10.5''),
      (13, ''13'', 20.5, ''20.5''), (14, ''14'', 10.5, ''10.5''),
      (15, ''15'', 20.5, ''20.5''), (16, ''16'', 10.5, ''10.5''),
      (17, ''17'', 20.5, ''20.5''), (18, ''18'', 10.5, ''10.5''),
      (19, ''19'', 20.5, ''20.5''), (20, ''20'', 10.5, ''10.5''),
      (21, ''21'', 20.5, ''20.5''), (22, ''22'', 10.5, ''10.5''),
      (23, ''23'', 20.5, ''20.5''), (24, ''24'', 10.5, ''10.5''),
      (25, ''25'', 20.5, ''20.5''), (26, ''26'', 10.5, ''10.5''),
      (27, ''27'', 20.5, ''20.5''), (28, ''28'', 10.5, ''10.5''),
      (29, ''29'', 20.5, ''20.5''), (30, ''30'', 10.5, ''10.5'')]"

text \<open>
  Forty-one rows with four columns.  The column \<^verbatim>\<open>a\<close> is 1 in the first forty rows and 42
  in the last one; \<^verbatim>\<open>b\<close> is 1, 3, ..., 79 and missing in the last row; \<^verbatim>\<open>c\<close> is
  2, 4, ..., 82 and \<^verbatim>\<open>d\<close> is 8, 11, ..., 128.  Below it the correlation chart of these
  columns, in the order \<^verbatim>\<open>generateCharts\<close> ranks them.
\<close>

definition dataCorr :: "row list" where
  "dataCorr = map (\<lambda>(a, sa, b, c, sc, d, sd).
                     [(''a'', numCell a sa), (''b'', b), (''c'', numCell c sc), (''d'', numCell d sd)])
     [(1, ''1'', numCell 1 ''1'', 2, ''2'', 8, ''8''),
      (1, ''1'', numCell 3 ''3'', 4, ''4'', 11, ''11''),
      (1, ''1'', numCell 5 ''5'', 6, ''6'', 14, ''14''),
      (1, ''1'', numCell 7 ''7'', 8, ''8'', 17, ''17''),
      (1, ''1'', numCell 9 ''9'', 10, ''10'', 20, ''20''),
      (1, ''1'', numCell 11 ''11'', 12, ''12'', 23, ''23''),
      (1, ''1'', numCell 13 ''13'', 14, ''14'', 26, ''26''),
      (1, ''1'', numCell 15 ''15'', 16, ''16'', 29, ''29''),
      (1, ''1'', numCell 17 ''17'', 18, ''18'', 32, ''32''),
      (1, ''1'', numCell 19 ''19'', 20, ''20'', 35, ''35''),
      (1, ''1'', numCell 21 ''21'', 22, ''22'', 38, ''38''),
      (1, ''1'', numCell 23 ''23'', 24, ''24'', 41, ''41''),
      (1, ''1'', numCell 25 ''25'', 26, ''26'', 44, ''44''),
      (1, ''1'', numCell 27 ''27'', 28, ''28'', 47, ''47''),
      (1, ''1'', numCell 29 ''29'', 30, ''30'', 50, ''50''),
      (1, ''1'', numCell 31 ''31'', 32, ''32'', 53, ''53''),
      (1, ''1'', numCell 33 ''33'', 34, ''34'', 56, ''56''),
      (1, ''1'', numCell 35 ''35'', 36, ''36'', 59, ''59''),
      (1, ''1'', numCell 37 ''37'', 38, ''38'', 62, ''62''),
      (1, ''1'', numCell 39 ''39'', 40, ''40'', 65, ''65''),
      (1, ''1'', numCell 41 ''41'', 42, ''42'', 68, ''68''),
      (1, ''1'', numCell 43 ''43'', 44, ''44'', 71, ''71''),
      (1, ''1'', numCell 45 ''45'', 46, ''46'', 74, ''74''),
      (1, ''1'', numCell 47 ''47'', 48, ''48'', 77, ''77''),
      (1, ''1'', numCell 49 ''49'', 50, ''50'', 80, ''80''),
      (1, ''1'', numCell 51 ''51'', 52, ''52'', 83, ''83''),
      (1, ''1'', numCell 53 ''53'', 54, ''54'', 86, ''86''),
      (1, ''1'', numCell 55 ''55'', 56, ''56'', 89, ''89''),
      (1, ''1'', numCell 57 ''57'', 58, ''58'', 92, ''92''),
      (1, ''1'', numCell 59 ''59'', 60, ''60'', 95, ''95''),
      (1, ''1'', numCell 61 ''61'', 62, ''62'', 98, ''98''),
      (1, ''1'', numCell 63 ''63'', 64, ''64'', 101, ''101''),
      (1, ''1'', numCell 65 ''65'', 66, ''66'', 104, ''104''),
      (1, ''1'', numCell 67 ''67'', 68, ''68'', 107, ''107''),
      (1, ''1'', numCell 69 ''69'', 70, ''70'', 110, ''110''),
      (1, ''1'', numCell 71 ''71'', 72, ''72'', 113, ''113''),
      (1, ''1'', numCell 73 ''73'', 74, ''74'', 116, ''116''),
      (1, ''1'', numCell 75 ''75'', 76, ''76'', 119, ''119''),
      (1, ''1'', numCell 77 ''77'', 78, ''78'', 122, ''122''),
      (1, ''1'', numCell 79 ''79'', 80, ''80'', 125, ''125''),
      (42, ''42'', None, 82, ''82'', 128, ''128'')]"

definition corrOfDataCorr :: corrChartSpec where
  "corrOfDataCorr =
     \<lparr>cc_column = ''Correlation (numeric)'',
      cc_columns = rankedColumns (runEDA dataCorr) [''a'', ''b'', ''c'', ''d''],
      cc_matrix = (case buildCorrMatrix dataCorr
                          (rankedColumns (runEDA dataCorr) [''a'', ''b'', ''c'', ''d'']) of
                     None \<Rightarrow> [] | Some (m, n) \<Rightarrow> m)\<rparr>"

section \<open>Evaluation of concrete inputs\<close>

text \<open>
  Concrete inputs are evaluated by the simplifier.  Square roots and logarithms stay as
  they are: their defining equations are taken out of the code equations, so that
  \<open>code_simp\<close> evaluates around them.
\<close>

declare root_def [code del]
declare ln_real_def [code del]






section \<open>The diversity rule returns between four and eight charts\<close>

lemma pickLoop_flags_length:
  "length (snd (pickLoop mx cs picks pc tc)) = length cs"
  by (induction cs arbitrary: picks pc tc) (simp_all add: Let_def)

lemma pickLoop_picks_length:
  "length (fst (pickLoop mx cs picks pc tc))
     = length picks + length (filter id (snd (pickLoop mx cs picks pc tc)))"
  by (induction cs arbitrary: picks pc tc) (simp_all add: Let_def)


lemma untaken_count:
  "length fl = length cs \<Longrightarrow>
   length (filter (\<lambda>x. \<not> snd x) (zip cs fl)) + length (filter id fl) = length cs"
proof (induction cs arbitrary: fl)
  case Nil
  then show ?case by simp
next
  case (Cons c cs)
  then obtain b fl' where "fl = b # fl'" by (cases fl) auto
  with Cons show ?case by (cases b) auto
qed



lemma pickLoop_subset:
  "set (fst (pickLoop mx cs picks pc tc)) \<subseteq> set picks \<union> cd_spec ` set cs"
proof (induction cs arbitrary: picks pc tc)
  case Nil
  then show ?case by simp
next
  case (Cons c cs)
  define pc' where "pc' = pc(cd_purpose c := pc (cd_purpose c) + 1)"
  define tc' where "tc' = tc(specType (cd_spec c) := tc (specType (cd_spec c)) + 1)"
  consider (full) "length picks \<ge> mx"
    | (take) "\<not> length picks \<ge> mx" "canTake pc tc c"
    | (skip) "\<not> length picks \<ge> mx" "\<not> canTake pc tc c" by blast
  then show ?case
  proof cases
    case full
    then show ?thesis by auto
  next
    case take
    then have "fst (pickLoop mx (c # cs) picks pc tc) = fst (pickLoop mx cs (picks @ [cd_spec c]) pc' tc')"
      by (simp add: Let_def pc'_def tc'_def)
    with Cons.IH [of "picks @ [cd_spec c]" pc' tc'] show ?thesis by auto
  next
    case skip
    then have "fst (pickLoop mx (c # cs) picks pc tc) = fst (pickLoop mx cs picks pc tc)"
      by (simp add: Let_def)
    with Cons.IH [of picks pc tc] show ?thesis by auto
  qed
qed

lemma fillLoop_subset:
  "set (fillLoop mn xs picks) \<subseteq> set picks \<union> cd_spec ` fst ` set xs"
proof (induction xs arbitrary: picks)
  case Nil
  then show ?case by simp
next
  case (Cons x xs)
  obtain c taken where x: "x = (c, taken)" by (cases x)
  show ?case
    using Cons.IH [of picks] Cons.IH [of "picks @ [cd_spec c]"]
    by (auto simp add: x)
qed

lemma pickDiverse_subset: "set (pickDiverse cands mn mx) \<subseteq> cd_spec ` set cands"
proof -
  define srt where "srt = sort_key (\<lambda>c. - cd_score c) cands"
  define res where "res = pickLoop mx srt [] (\<lambda>_. 0) (\<lambda>_. 0)"
  have s: "set srt = set cands" by (simp add: srt_def)
  have a: "set (fst res) \<subseteq> cd_spec ` set cands"
    using pickLoop_subset [of mx srt "[]"] s by (simp add: res_def)
  have "fst ` set (zip srt (snd res)) \<subseteq> set srt"
    by (auto dest: set_zip_leftD)
  then have b: "set (fillLoop mn (zip srt (snd res)) (fst res)) \<subseteq> cd_spec ` set cands"
    using fillLoop_subset [of mn "zip srt (snd res)" "fst res"] a s by blast
  have "set (pickDiverse cands mn mx)
          \<subseteq> set (if length (fst res) < mn then fillLoop mn (zip srt (snd res)) (fst res) else fst res)"
    unfolding pickDiverse_def Let_def srt_def [symmetric] res_def [symmetric]
    by (rule set_take_subset)
  with a b show ?thesis by (auto split: if_splits)
qed

lemma pickLoop_taken:
  "set (fst (pickLoop mx cs picks pc tc))
     = set picks \<union> cd_spec ` fst ` {x \<in> set (zip cs (snd (pickLoop mx cs picks pc tc))). snd x}"
proof (induction cs arbitrary: picks pc tc)
  case Nil
  then show ?case by simp
next
  case (Cons c cs)
  define pc' where "pc' = pc(cd_purpose c := pc (cd_purpose c) + 1)"
  define tc' where "tc' = tc(specType (cd_spec c) := tc (specType (cd_spec c)) + 1)"
  consider (full) "length picks \<ge> mx"
    | (take) "\<not> length picks \<ge> mx" "canTake pc tc c"
    | (skip) "\<not> length picks \<ge> mx" "\<not> canTake pc tc c" by blast
  then show ?case
  proof cases
    case full
    have "\<And>x. x \<in> set (zip (c # cs) (replicate (length (c # cs)) False)) \<Longrightarrow> \<not> snd x"
      by (auto simp: set_zip)
    then have empty: "{x \<in> set (zip (c # cs) (replicate (length (c # cs)) False)). snd x} = {}"
      by blast
    from full have e: "pickLoop mx (c # cs) picks pc tc = (picks, replicate (length (c # cs)) False)"
      by simp
    show ?thesis unfolding e fst_conv snd_conv empty by simp
  next
    case take
    define r where "r = pickLoop mx cs (picks @ [cd_spec c]) pc' tc'"
    from take have e: "pickLoop mx (c # cs) picks pc tc = (fst r, True # snd r)"
      by (simp add: Let_def pc'_def tc'_def r_def)
    have "{x \<in> set (zip (c # cs) (True # snd r)). snd x}
            = insert (c, True) {x \<in> set (zip cs (snd r)). snd x}" by auto
    with Cons.IH [of "picks @ [cd_spec c]" pc' tc'] show ?thesis
      unfolding e r_def [symmetric] by simp
  next
    case skip
    define r where "r = pickLoop mx cs picks pc tc"
    from skip have e: "pickLoop mx (c # cs) picks pc tc = (fst r, False # snd r)"
      by (simp add: Let_def r_def)
    have "{x \<in> set (zip (c # cs) (False # snd r)). snd x} = {x \<in> set (zip cs (snd r)). snd x}"
      by auto
    with Cons.IH [of picks pc tc] show ?thesis
      unfolding e r_def [symmetric] by simp
  qed
qed

lemma fillLoop_all:
  "length picks + length (filter (\<lambda>x. \<not> snd x) xs) \<le> mn \<Longrightarrow>
   set (fillLoop mn xs picks) = set picks \<union> cd_spec ` fst ` {x \<in> set xs. \<not> snd x}"
proof (induction xs arbitrary: picks)
  case Nil
  then show ?case by simp
next
  case (Cons x xs)
  obtain c taken where x: "x = (c, taken)" by (cases x)
  show ?case
  proof (cases taken)
    case True
    with Cons.prems x have p: "length picks + length (filter (\<lambda>x. \<not> snd x) xs) \<le> mn" by simp
    show ?thesis
    proof (cases "length picks \<ge> mn")
      case ge: True
      with p have "length (filter (\<lambda>x. \<not> snd x) xs) = 0" by linarith
      then have "filter (\<lambda>x. \<not> snd x) xs = []" by simp
      then have "{x \<in> set xs. \<not> snd x} = {}" by (auto simp: filter_empty_conv)
      then have e1: "{y \<in> set (x # xs). \<not> snd y} = {}" using True x by auto
      have e2: "fillLoop mn (x # xs) picks = picks" using ge x by simp
      show ?thesis unfolding e1 e2 by simp
    next
      case False
      with True x Cons.IH [OF p] show ?thesis by auto
    qed
  next
    case False
    with Cons.prems x have lt: "length picks < mn"
      and p: "length (picks @ [cd_spec c]) + length (filter (\<lambda>x. \<not> snd x) xs) \<le> mn" by simp_all
    have e1: "{y \<in> set (x # xs). \<not> snd y} = insert (c, False) {y \<in> set xs. \<not> snd y}"
      using False x by auto
    have e2: "fillLoop mn (x # xs) picks = fillLoop mn xs (picks @ [cd_spec c])"
      using lt False x by simp
    show ?thesis unfolding e1 e2 Cons.IH [OF p] by simp
  qed
qed

lemma fillLoop_length_upper:
  "length (fillLoop mn xs picks) \<le> length picks + length (filter (\<lambda>x. \<not> snd x) xs)"
proof (induction xs arbitrary: picks)
  case Nil
  then show ?case by simp
next
  case (Cons x xs)
  obtain c taken where x: "x = (c, taken)" by (cases x)
  show ?case
    using Cons.IH [of picks] Cons.IH [of "picks @ [cd_spec c]"]
    by (simp add: x)
qed

lemma pickDiverse_all_small:
  assumes "length cands \<le> mn" "mn \<le> mx"
  shows "set (pickDiverse cands mn mx) = cd_spec ` set cands"
proof -
  define srt where "srt = sort_key (\<lambda>c. - cd_score c) cands"
  define res where "res = pickLoop mx srt [] (\<lambda>_. 0) (\<lambda>_. 0)"
  define picks where "picks = fillLoop mn (zip srt (snd res)) (fst res)"
  have s: "set srt = set cands" and len: "length srt = length cands" by (simp_all add: srt_def)
  have fl: "length (snd res) = length srt" by (simp add: res_def pickLoop_flags_length)
  have pk: "length (fst res) = length (filter id (snd res))"
    using pickLoop_picks_length [of mx srt "[]"] by (simp add: res_def)
  have cnt: "length (fst res) + length (filter (\<lambda>x. \<not> snd x) (zip srt (snd res))) = length srt"
    using untaken_count [OF fl] pk by simp
  have same: "(if length (fst res) < mn then picks else fst res) = picks"
    by (cases "zip srt (snd res)"; cases "length (fst res) < mn") (auto simp: picks_def)
  have short: "length picks \<le> mx"
    using fillLoop_length_upper [of mn "zip srt (snd res)" "fst res"] cnt len assms
    by (simp add: picks_def)
  have taken: "set (fst res) = cd_spec ` fst ` {x \<in> set (zip srt (snd res)). snd x}"
    using pickLoop_taken [of mx srt "[]"] by (simp add: res_def)
  have "set picks = set (fst res) \<union> cd_spec ` fst ` {x \<in> set (zip srt (snd res)). \<not> snd x}"
    unfolding picks_def using cnt len assms by (intro fillLoop_all) simp
  also have "\<dots> = cd_spec ` fst ` set (zip srt (snd res))"
    unfolding taken by blast
  also have "fst ` set (zip srt (snd res)) = set srt"
    using fl by (metis map_fst_zip set_map)
  finally have all: "set picks = cd_spec ` set cands" by (simp add: s)
  have "pickDiverse cands mn mx = take mx (if length (fst res) < mn then picks else fst res)"
    by (simp add: pickDiverse_def Let_def srt_def [symmetric] res_def [symmetric]
        picks_def [symmetric])
  then have "pickDiverse cands mn mx = take mx picks"
    by (simp only: same)
  with short all show ?thesis by simp
qed







section \<open>Quartiles, fences and whiskers of computeBox\<close>

lemma quantileSorted_between:
  assumes "sorted srt" "2 \<le> length srt" "0 \<le> q" "q \<le> 1"
  shows "\<exists>v. quantileSorted srt q = Some v
           \<and> srt ! nat \<lfloor>real (length srt - 1) * q\<rfloor> \<le> v
           \<and> v \<le> srt ! min (length srt - 1) (nat \<lfloor>real (length srt - 1) * q\<rfloor> + 1)"
proof -
  define n where "n = length srt"
  define pos where "pos = real (n - 1) * q"
  define base where "base = nat \<lfloor>pos\<rfloor>"
  define rest where "rest = pos - real base"
  define a where "a = srt ! base"
  define b where "b = srt ! (min (n - 1) (base + 1))"
  have pos0: "0 \<le> pos" using assms by (simp add: pos_def)
  have posn: "pos \<le> real (n - 1)" using assms by (simp add: pos_def mult_left_le)
  have fl: "real base = of_int \<lfloor>pos\<rfloor>" using pos0 by (simp add: base_def)
  have r0: "0 \<le> rest" and r1: "rest < 1" unfolding rest_def fl by linarith+
  have "\<lfloor>pos\<rfloor> \<le> int (n - 1)" using posn by (simp add: floor_le_iff)
  then have bn: "base \<le> n - 1" by (simp add: base_def)
  have n2: "2 \<le> n" using assms by (simp add: n_def)
  have ab: "a \<le> b"
    unfolding a_def b_def using assms(1) bn n2
    by (intro sorted_nth_mono) (auto simp: n_def)
  have v: "quantileSorted srt q = Some (a + (b - a) * rest)"
    using n2 unfolding a_def b_def rest_def base_def pos_def n_def
    by (auto simp add: quantileSorted_def Let_def)
  have lo: "a \<le> a + (b - a) * rest" using ab r0 by simp
  have "(b - a) * rest \<le> (b - a) * 1" using ab r1 by (intro mult_left_mono) auto
  then have hi: "a + (b - a) * rest \<le> b" by simp
  from v lo hi show ?thesis
    unfolding a_def b_def base_def pos_def n_def by blast
qed


lemma find_first_wrt:
  assumes "sorted_wrt R xs" "y \<in> set xs" "P y" "\<And>x. R x x"
  shows "\<exists>x. find P xs = Some x \<and> P x \<and> R x y \<and> x \<in> set xs"
  using assms(1,2)
proof (induction xs)
  case Nil
  then show ?case by simp
next
  case (Cons a xs)
  show ?case
  proof (cases "P a")
    case True
    with Cons.prems assms(3,4) show ?thesis by auto
  next
    case False
    with Cons.prems assms(3) have "y \<in> set xs" by auto
    with Cons False show ?thesis by auto
  qed
qed

lemma find_first_sorted:
  fixes xs :: "real list"
  assumes "sorted xs" "y \<in> set xs" "P y"
  shows "\<exists>x. find P xs = Some x \<and> P x \<and> x \<le> y \<and> x \<in> set xs"
  using find_first_wrt [of "(\<le>)" xs y P] assms by simp

lemma find_last_sorted:
  fixes xs :: "real list"
  assumes "sorted xs" "y \<in> set xs" "P y"
  shows "\<exists>x. find P (rev xs) = Some x \<and> P x \<and> y \<le> x \<and> x \<in> set xs"
proof -
  have "sorted_wrt (\<lambda>a b. b \<le> a) (rev xs)"
    using assms(1) by (simp add: sorted_wrt_rev)
  from find_first_wrt [OF this, of y P] assms show ?thesis by simp
qed

lemma quartile_indices:
  assumes "11 \<le> (m::nat)"
  shows "m div 4 + 1 \<le> m div 2" "m div 2 + 1 \<le> (m * 3) div 4"
    "(m * 3) div 4 \<le> m" "m div 2 \<le> m"
  using assms by arith+

lemma quartile_floors:
  "nat \<lfloor>real m * 0.25\<rfloor> = m div 4" "nat \<lfloor>real m * 0.5\<rfloor> = m div 2"
  "nat \<lfloor>real m * 0.75\<rfloor> = (m * 3) div 4"
proof -
  have "real m * 0.25 = real m / real 4" "real m * 0.5 = real m / real 2"
    "real m * 0.75 = real (m * 3) / real 4" by simp_all
  then show "nat \<lfloor>real m * 0.25\<rfloor> = m div 4" "nat \<lfloor>real m * 0.5\<rfloor> = m div 2"
    "nat \<lfloor>real m * 0.75\<rfloor> = (m * 3) div 4"
    by (simp_all only: floor_divide_of_nat_eq nat_int)
qed


lemma computeBox_props:
  assumes "computeBox values = Some b"
  shows "12 \<le> length values" "bx_total b = length values"
    "bx_iqr b = bx_q3 b - bx_q1 b"
    "bx_outliers b
       = filter (\<lambda>v. v < lowFence (bx_q1 b) (bx_iqr b) \<or> v > highFence (bx_q3 b) (bx_iqr b))
           (sort values)"
    "bx_q1 b \<le> bx_median b" "bx_median b \<le> bx_q3 b"
    "lowFence (bx_q1 b) (bx_iqr b) \<le> bx_min b" "bx_min b \<le> bx_median b"
    "bx_median b \<le> bx_max b" "bx_max b \<le> highFence (bx_q3 b) (bx_iqr b)"
    "bx_outliers b = [] \<longrightarrow> bx_min b \<le> bx_q1 b \<and> bx_q3 b \<le> bx_max b"
proof -
  define clean where "clean = sort values"
  define m where "m = length clean - 1"
  have n12: "12 \<le> length clean"
    using assms by (simp add: computeBox_def Let_def clean_def split: if_splits)
  then have m11: "11 \<le> m" and lenm: "length clean = m + 1" by (simp_all add: m_def)
  have srt: "sorted clean" by (simp add: clean_def)
  have mono: "clean ! i \<le> clean ! j" if "i \<le> j" "j \<le> m" for i j
    using srt that lenm by (intro sorted_nth_mono) simp_all
  have inset: "clean ! i \<in> set clean" if "i \<le> m" for i
    using that lenm by simp
  have l: "length clean - 1 = m" by (simp add: m_def)
  have n2: "2 \<le> length clean" using n12 by simp
  have mins: "min m (m div 4 + 1) = m div 4 + 1" "min m (m div 2 + 1) = m div 2 + 1"
    using quartile_indices [OF m11] by simp_all
  have "\<exists>v. quantileSorted clean 0.25 = Some v \<and> clean ! (m div 4) \<le> v \<and> v \<le> clean ! (m div 4 + 1)"
    using quantileSorted_between [OF srt n2, of "0.25"]
    unfolding l quartile_floors mins by simp
  then obtain v1 where v1: "quantileSorted clean 0.25 = Some v1"
    "clean ! (m div 4) \<le> v1" "v1 \<le> clean ! (m div 4 + 1)" by blast
  have "\<exists>v. quantileSorted clean 0.5 = Some v \<and> clean ! (m div 2) \<le> v \<and> v \<le> clean ! (m div 2 + 1)"
    using quantileSorted_between [OF srt n2, of "0.5"]
    unfolding l quartile_floors mins by simp
  then obtain v2 where v2: "quantileSorted clean 0.5 = Some v2"
    "clean ! (m div 2) \<le> v2" "v2 \<le> clean ! (m div 2 + 1)" by blast
  have "\<exists>v. quantileSorted clean 0.75 = Some v \<and> clean ! ((m * 3) div 4) \<le> v
           \<and> v \<le> clean ! min m ((m * 3) div 4 + 1)"
    using quantileSorted_between [OF srt n2, of "0.75"]
    unfolding l quartile_floors by simp
  then obtain v3 where v3: "quantileSorted clean 0.75 = Some v3"
    "clean ! ((m * 3) div 4) \<le> v3" "v3 \<le> clean ! min m ((m * 3) div 4 + 1)" by blast
  define lo where "lo = lowFence v1 (v3 - v1)"
  define hi where "hi = highFence v3 (v3 - v1)"
  define wMin where "wMin = (case find (\<lambda>v. v \<ge> lo) clean of Some v \<Rightarrow> v | None \<Rightarrow> clean ! 0)"
  define wMax where "wMax = (case find (\<lambda>v. v \<le> hi) (rev clean) of
                               Some v \<Rightarrow> v | None \<Rightarrow> clean ! (length clean - 1))"
  have b: "b = \<lparr>bx_min = wMin, bx_q1 = v1, bx_median = v2, bx_q3 = v3, bx_max = wMax,
                bx_iqr = v3 - v1, bx_outliers = filter (\<lambda>v. v < lo \<or> v > hi) clean,
                bx_total = length clean\<rparr>"
    using assms n12 v1(1) v2(1) v3(1)
    by (simp add: computeBox_def Let_def clean_def [symmetric] lo_def hi_def wMin_def wMax_def)
  have q12: "v1 \<le> v2"
    using v1(3) v2(2) mono [of "m div 4 + 1" "m div 2"] quartile_indices [OF m11] by linarith
  have q23: "v2 \<le> v3"
    using v2(3) v3(2) mono [of "m div 2 + 1" "(m * 3) div 4"] quartile_indices [OF m11]
    by linarith
  have lo1: "lo \<le> v1" and hi3: "v3 \<le> hi"
    using q12 q23 by (simp_all add: lo_def hi_def lowFence_def highFence_def)
  have "\<exists>x. find (\<lambda>v. v \<ge> lo) clean = Some x \<and> x \<ge> lo \<and> x \<le> clean ! (m div 4 + 1) \<and> x \<in> set clean"
    using find_first_sorted [OF srt inset [of "m div 4 + 1"], of "\<lambda>v. v \<ge> lo"]
      quartile_indices [OF m11] v1(3) lo1 by auto
  then have wmin: "lo \<le> wMin" "wMin \<le> clean ! (m div 4 + 1)"
    by (auto simp: wMin_def)
  have "\<exists>x. find (\<lambda>v. v \<le> hi) (rev clean) = Some x \<and> x \<le> hi \<and> clean ! ((m * 3) div 4) \<le> x
           \<and> x \<in> set clean"
    using find_last_sorted [OF srt inset [of "(m * 3) div 4"], of "\<lambda>v. v \<le> hi"]
      quartile_indices [OF m11] v3(2) hi3 by auto
  then have wmax: "wMax \<le> hi" "clean ! ((m * 3) div 4) \<le> wMax"
    by (auto simp: wMax_def)
  have min_med: "wMin \<le> v2"
    using wmin(2) v2(2) mono [of "m div 4 + 1" "m div 2"] quartile_indices [OF m11] by linarith
  have med_max: "v2 \<le> wMax"
    using wmax(2) v2(3) mono [of "m div 2 + 1" "(m * 3) div 4"] quartile_indices [OF m11]
    by linarith
  have none: "wMin \<le> v1 \<and> v3 \<le> wMax" if "filter (\<lambda>v. v < lo \<or> v > hi) clean = []"
  proof -
    from that have inside: "\<not> (v < lo \<or> v > hi)" if "v \<in> set clean" for v
      using that by (auto simp: filter_empty_conv)
    obtain c cs where c: "clean = c # cs" using lenm by (cases clean) auto
    have "lo \<le> c" using inside [of c] c by auto
    then have "wMin = c" by (simp add: wMin_def c)
    then have a: "wMin \<le> v1" using mono [of 0 "m div 4"] v1(2) c quartile_indices [OF m11]
      by simp
    have le: "clean ! m \<le> hi" using inside [OF inset [of m]] by auto
    have "clean = butlast clean @ [last clean]" using c by simp
    moreover have "last clean = clean ! m" using c by (simp add: last_conv_nth m_def)
    ultimately have "rev clean = clean ! m # rev (butlast clean)"
      by (metis rev.simps(2) rev_append rev_rev_ident rev_swap singleton_rev_conv append_Cons append_Nil)
    then have "find (\<lambda>v. v \<le> hi) (rev clean)
                 = find (\<lambda>v. v \<le> hi) (clean ! m # rev (butlast clean))"
      by (rule arg_cong)
    also have "\<dots> = Some (clean ! m)" using le by simp
    finally have "wMax = clean ! m" by (simp add: wMax_def)
    then have "v3 \<le> wMax" using v3(3) mono [of "min m ((m * 3) div 4 + 1)" m] by simp
    with a show ?thesis by simp
  qed
  show "12 \<le> length values" using n12 by (simp add: clean_def)
  show "bx_total b = length values" by (simp add: b clean_def)
  show "bx_iqr b = bx_q3 b - bx_q1 b" by (simp add: b)
  show "bx_outliers b
       = filter (\<lambda>v. v < lowFence (bx_q1 b) (bx_iqr b) \<or> v > highFence (bx_q3 b) (bx_iqr b))
           (sort values)"
    by (simp add: b lo_def hi_def clean_def)
  show "bx_q1 b \<le> bx_median b" "bx_median b \<le> bx_q3 b" using q12 q23 by (simp_all add: b)
  show "lowFence (bx_q1 b) (bx_iqr b) \<le> bx_min b" using wmin(1) by (simp add: b lo_def)
  show "bx_min b \<le> bx_median b" "bx_median b \<le> bx_max b"
    using min_med med_max by (simp_all add: b)
  show "bx_max b \<le> highFence (bx_q3 b) (bx_iqr b)" using wmax(1) by (simp add: b hi_def)
  show "bx_outliers b = [] \<longrightarrow> bx_min b \<le> bx_q1 b \<and> bx_q3 b \<le> bx_max b"
    using none by (simp add: b)
qed

section \<open>Where the candidates of each chart type come from\<close>

lemma numericCandidates_cases:
  assumes "c \<in> set (numericCandidates data e col)"
  shows "12 \<le> length (columnValues data col)
         \<and> ((\<exists>computed. computeHistogram (columnValues data col)
                            (chooseBins (length (columnValues data col))) = Some computed
                \<and> c = histogramCandidate col (chooseBins (length (columnValues data col))) computed)
            \<or> (\<exists>bx. computeBox (columnValues data col) = Some bx \<and> c = boxCandidate col bx))"
proof -
  let ?vs = "columnValues data col"
  from assms have len: "12 \<le> length ?vs"
    by (auto simp add: numericCandidates_def Let_def split: if_splits)
  from assms len have
    "c \<in> set (case computeHistogram ?vs (chooseBins (length ?vs)) of
                  None \<Rightarrow> [] | Some computed \<Rightarrow> [histogramCandidate col (chooseBins (length ?vs)) computed])
     \<or> c \<in> set (case computeBox ?vs of None \<Rightarrow> [] | Some b \<Rightarrow> [boxCandidate col b])"
    by (auto simp add: numericCandidates_def Let_def split: if_splits)
  then show ?thesis
  proof
    assume "c \<in> set (case computeHistogram ?vs (chooseBins (length ?vs)) of
                  None \<Rightarrow> [] | Some computed \<Rightarrow> [histogramCandidate col (chooseBins (length ?vs)) computed])"
    then obtain computed where "computeHistogram ?vs (chooseBins (length ?vs)) = Some computed"
      "c = histogramCandidate col (chooseBins (length ?vs)) computed"
      by (cases "computeHistogram ?vs (chooseBins (length ?vs))") auto
    with len show ?thesis by blast
  next
    assume "c \<in> set (case computeBox ?vs of None \<Rightarrow> [] | Some b \<Rightarrow> [boxCandidate col b])"
    then obtain bx where "computeBox ?vs = Some bx" "c = boxCandidate col bx"
      by (cases "computeBox ?vs") auto
    with len show ?thesis by blast
  qed
qed

lemma barCandidates_type:
  "c \<in> set (barCandidates data e ns ds col) \<Longrightarrow> specType (cd_spec c) = TBar"
  by (auto simp add: barCandidates_def barCandidate_def Let_def split: if_splits)

lemma timeCandidates_type:
  "c \<in> set (timeCandidates data ns dcol) \<Longrightarrow> specType (cd_spec c) = TTime"
  by (auto simp add: timeCandidates_def Let_def split: if_splits option.splits)

lemma scatterCandidates_type:
  "c \<in> set (scatterCandidates data ns) \<Longrightarrow> specType (cd_spec c) = TScatter"
  by (auto simp add: scatterCandidates_def scatterCandidate_def Let_def split: option.splits)

lemma corrCandidates_Some:
  assumes "buildCorrMatrix data (rankedColumns e ns) = Some (m, n)"
  shows "set (corrCandidates data e ns)
           \<subseteq> {c. cd_spec c = Corr \<lparr>cc_column = ''Correlation (numeric)'',
                                       cc_columns = rankedColumns e ns, cc_matrix = m\<rparr>}"
  unfolding corrCandidates_def
  apply (simp only: Let_def assms)
  apply (simp only: option.case prod.case)
  apply auto
  done

lemma corrCandidates_None:
  assumes "buildCorrMatrix data (rankedColumns e ns) = None"
  shows "corrCandidates data e ns = []"
  unfolding corrCandidates_def
  apply (simp only: Let_def assms)
  apply simp
  done

lemma rankedColumns_subset: "set (rankedColumns e ns) \<subseteq> set ns"
proof -
  have "set (rankedColumns e ns) \<subseteq> set (sort_key (\<lambda>c. - corrColumnScore e c) ns)"
    unfolding rankedColumns_def by (rule set_take_subset)
  then show ?thesis by simp
qed

lemma corrCandidates_cases:
  assumes "c \<in> set (corrCandidates data e ns)"
  shows "\<exists>m n. buildCorrMatrix data (rankedColumns e ns) = Some (m, n)
           \<and> cd_spec c = Corr \<lparr>cc_column = ''Correlation (numeric)'',
                                 cc_columns = rankedColumns e ns, cc_matrix = m\<rparr>"
proof (cases "buildCorrMatrix data (rankedColumns e ns)")
  case None
  from corrCandidates_None [OF None] assms show ?thesis by simp
next
  case (Some r)
  obtain m n where r: "r = (m, n)" by (cases r)
  from Some r have s: "buildCorrMatrix data (rankedColumns e ns) = Some (m, n)" by simp
  from corrCandidates_Some [OF s] assms s show ?thesis by auto
qed

lemma chartCandidates_cases:
  assumes "c \<in> set (chartCandidates data e)"
  shows "(\<exists>col \<in> set (numericColsOf data e). c \<in> set (numericCandidates data e col))
         \<or> specType (cd_spec c) = TBar \<or> specType (cd_spec c) = TTime
         \<or> specType (cd_spec c) = TScatter
         \<or> c \<in> set (corrCandidates data e (numericColsOf data e))"
proof -
  have "set (take 1 (sort_key (\<lambda>c. - cd_score c) (scatterCandidates data (numericColsOf data e))))
          \<subseteq> set (scatterCandidates data (numericColsOf data e))"
    using set_take_subset [of 1 "sort_key (\<lambda>c. - cd_score c) (scatterCandidates data (numericColsOf data e))"]
    by simp
  with assms show ?thesis
    by (auto simp add: chartCandidates_def Let_def barCandidates_type timeCandidates_type
        scatterCandidates_type)
qed

section \<open>Box plots emitted by generateCharts\<close>

lemma generateCharts_subset:
  assumes "ch \<in> set (generateCharts data eda)"
  shows "\<exists>e c. eda = Some e \<and> data \<noteq> [] \<and> c \<in> set (chartCandidates data e) \<and> cd_spec c = ch"
proof (cases eda)
  case None
  with assms show ?thesis by (auto simp add: generateCharts_def split: if_splits)
next
  case (Some e)
  with assms have ne: "data \<noteq> []" and "ch \<in> set (pickDiverse (chartCandidates data e) 4 8)"
    by (auto simp add: generateCharts_def split: if_splits)
  with pickDiverse_subset [of "chartCandidates data e" 4 8] Some show ?thesis by auto
qed

lemma generateCharts_small:
  assumes "data \<noteq> []" "length (chartCandidates data e) \<le> 4"
  shows "set (generateCharts data (Some e)) = cd_spec ` set (chartCandidates data e)"
  using assms pickDiverse_all_small [of "chartCandidates data e" 4 8]
  by (simp add: generateCharts_def)

lemma box_chart_origin:
  assumes "Box b \<in> set (generateCharts data eda)"
  shows "\<exists>e col bx. eda = Some e \<and> col \<in> set (numericColsOf data e)
           \<and> computeBox (columnValues data col) = Some bx
           \<and> Box b = cd_spec (boxCandidate col bx)"
proof -
  from generateCharts_subset [OF assms] obtain e c where
    e: "eda = Some e" and c: "c \<in> set (chartCandidates data e)" and s: "cd_spec c = Box b"
    by blast
  from chartCandidates_cases [OF c] s
  consider (num) col where "col \<in> set (numericColsOf data e)" "c \<in> set (numericCandidates data e col)"
    | (corr) "c \<in> set (corrCandidates data e (numericColsOf data e))"
    by auto
  then show ?thesis
  proof cases
    case num
    from numericCandidates_cases [OF num(2)] s
    obtain bx where "computeBox (columnValues data col) = Some bx" "c = boxCandidate col bx"
      by (auto simp add: histogramCandidate_def Let_def)
    with num(1) e s show ?thesis by metis
  next
    case corr
    from corrCandidates_cases [OF corr] s show ?thesis by auto
  qed
qed

text \<open>
  Claim C1, as amended.  For every box plot that \<^verbatim>\<open>generateCharts\<close> emits, every value of
  its \<^verbatim>\<open>outliers\<close> array lies strictly outside the fences \<open>q1 - 1.5 iqr\<close> and
  \<open>q3 + 1.5 iqr\<close>, and \<open>q1 \<le> median \<le> q3\<close>.  The whisker ends \<^verbatim>\<open>min\<close> and \<^verbatim>\<open>max\<close>
  lie inside the fences and on either side of the median; they enclose the quartiles when
  the chart has no outliers, but not in general.
\<close>

theorem box_chart_fences_and_order:
  assumes "Box b \<in> set (generateCharts data eda)"
  shows "(\<forall>v \<in> set (bc_outliers b).
            v < lowFence (bc_q1 b) (bc_iqr b) \<or> highFence (bc_q3 b) (bc_iqr b) < v)
         \<and> bc_iqr b = bc_q3 b - bc_q1 b
         \<and> bc_q1 b \<le> bc_median b \<and> bc_median b \<le> bc_q3 b
         \<and> lowFence (bc_q1 b) (bc_iqr b) \<le> bc_min b \<and> bc_min b \<le> bc_median b
         \<and> bc_median b \<le> bc_max b \<and> bc_max b \<le> highFence (bc_q3 b) (bc_iqr b)
         \<and> (bc_outliers b = [] \<longrightarrow> bc_min b \<le> bc_q1 b \<and> bc_q3 b \<le> bc_max b)"
proof -
  from box_chart_origin [OF assms] obtain col bx where
    cb: "computeBox (columnValues data col) = Some bx" and b: "Box b = cd_spec (boxCandidate col bx)"
    by blast
  from b have f: "bc_outliers b = take 200 (bx_outliers bx)" "bc_q1 b = bx_q1 bx"
    "bc_median b = bx_median bx" "bc_q3 b = bx_q3 bx" "bc_iqr b = bx_iqr bx"
    "bc_min b = bx_min bx" "bc_max b = bx_max bx"
    by (simp_all add: boxCandidate_def Let_def)
  note p = computeBox_props [OF cb]
  have out: "v < lowFence (bc_q1 b) (bc_iqr b) \<or> highFence (bc_q3 b) (bc_iqr b) < v"
    if "v \<in> set (bc_outliers b)" for v
  proof -
    from that have "v \<in> set (bx_outliers bx)" unfolding f by (rule in_set_takeD)
    then show ?thesis unfolding p(4) f by auto
  qed
  have empty: "bx_outliers bx = []" if "bc_outliers b = []"
    using that unfolding f by (cases "bx_outliers bx") simp_all
  from out p(3,5-10) p(11) empty show ?thesis unfolding f by auto
qed

text \<open>
  Claim C10.  The \<^verbatim>\<open>outliers\<close> array of an emitted box plot has at most 200 entries: it
  is the first 200, in ascending order, of the parsed values of the column that lie
  outside the fences.  With more than 200 such values exactly 200 are published and the
  largest ones are left out.
\<close>

theorem box_chart_outliers_capped:
  assumes "Box b \<in> set (generateCharts data eda)"
  shows "length (bc_outliers b) \<le> 200
         \<and> bc_outliers b
             = take 200 (filter (\<lambda>v. v < lowFence (bc_q1 b) (bc_iqr b)
                                       \<or> highFence (bc_q3 b) (bc_iqr b) < v)
                           (sort (columnValues data (bc_column b))))
         \<and> length (bc_outliers b)
             = min 200 (length (filter (\<lambda>v. v < lowFence (bc_q1 b) (bc_iqr b)
                                               \<or> highFence (bc_q3 b) (bc_iqr b) < v)
                                  (columnValues data (bc_column b))))"
proof -
  from box_chart_origin [OF assms] obtain col bx where
    cb: "computeBox (columnValues data col) = Some bx" and b: "Box b = cd_spec (boxCandidate col bx)"
    by blast
  from b have f: "bc_outliers b = take 200 (bx_outliers bx)" "bc_q1 b = bx_q1 bx"
    "bc_q3 b = bx_q3 bx" "bc_iqr b = bx_iqr bx" "bc_column b = col"
    by (simp_all add: boxCandidate_def Let_def)
  have "(\<lambda>v. v < lowFence (bx_q1 bx) (bx_iqr bx) \<or> highFence (bx_q3 bx) (bx_iqr bx) < v)
          = (\<lambda>v. v < lowFence (bx_q1 bx) (bx_iqr bx) \<or> v > highFence (bx_q3 bx) (bx_iqr bx))"
    by auto
  with computeBox_props(4) [OF cb] have
    "bc_outliers b
       = take 200 (filter (\<lambda>v. v < lowFence (bc_q1 b) (bc_iqr b)
                                 \<or> highFence (bc_q3 b) (bc_iqr b) < v)
                     (sort (columnValues data (bc_column b))))" (is "_ = take 200 (filter ?P (sort ?vs))")
    unfolding f by simp
  moreover have "length (filter ?P (sort ?vs)) = length (filter ?P ?vs)"
    by (simp add: filter_sort)
  ultimately show ?thesis by simp
qed

lemma candidates_dataBox:
  "length (chartCandidates dataBox (runEDA dataBox)) \<le> 4
   \<and> Box boxOfDataBox \<in> set (map cd_spec (chartCandidates dataBox (runEDA dataBox)))"
  by code_simp

lemma candidates_dataPlain:
  "length (chartCandidates dataPlain (runEDA dataPlain)) \<le> 4
   \<and> Box boxOfDataPlain \<in> set (map cd_spec (chartCandidates dataPlain (runEDA dataPlain)))"
  by code_simp

lemma box_emitted_dataBox: "Box boxOfDataBox \<in> set (generateCharts dataBox (Some (runEDA dataBox)))"
proof -
  have "dataBox \<noteq> []" by (simp add: dataBox_def)
  from generateCharts_small [OF this] candidates_dataBox show ?thesis by simp
qed

lemma box_emitted_dataPlain:
  "Box boxOfDataPlain \<in> set (generateCharts dataPlain (Some (runEDA dataPlain)))"
proof -
  have "dataPlain \<noteq> []" by (simp add: dataPlain_def)
  from generateCharts_small [OF this] candidates_dataPlain show ?thesis by simp
qed

text \<open>
  Claim C1 as stated fails: the twelve amounts of \<open>dataBox\<close> give the quartile
  \<open>q1 = 75.5\<close> and the low fence 38, so the three values 0.5 are outliers and the lower
  whisker ends at 100.5, above \<open>q1\<close>.
\<close>

theorem box_chart_min_above_q1:
  "Box boxOfDataBox \<in> set (generateCharts dataBox (Some (runEDA dataBox)))
   \<and> \<not> bc_min boxOfDataBox \<le> bc_q1 boxOfDataBox"
  using box_emitted_dataBox by (simp add: boxOfDataBox_def)

theorem box_chart_fences_and_order_witness:
  "Box boxOfDataBox \<in> set (generateCharts dataBox (Some (runEDA dataBox)))
   \<and> set (bc_outliers boxOfDataBox) = {0.5}
   \<and> lowFence (bc_q1 boxOfDataBox) (bc_iqr boxOfDataBox) = 38
   \<and> bc_q1 boxOfDataBox \<le> bc_median boxOfDataBox
   \<and> bc_min boxOfDataBox \<le> bc_median boxOfDataBox
   \<and> Box boxOfDataPlain \<in> set (generateCharts dataPlain (Some (runEDA dataPlain)))
   \<and> bc_outliers boxOfDataPlain = []
   \<and> bc_min boxOfDataPlain \<le> bc_q1 boxOfDataPlain \<and> bc_q3 boxOfDataPlain \<le> bc_max boxOfDataPlain"
  using box_chart_fences_and_order [OF box_emitted_dataBox]
    box_chart_fences_and_order [OF box_emitted_dataPlain] box_emitted_dataBox box_emitted_dataPlain
  by (simp add: boxOfDataBox_def boxOfDataPlain_def lowFence_def)

theorem box_chart_outliers_capped_witness:
  "Box boxOfDataBox \<in> set (generateCharts dataBox (Some (runEDA dataBox)))
   \<and> length (bc_outliers boxOfDataBox) \<le> 200"
  using box_chart_outliers_capped [OF box_emitted_dataBox] box_emitted_dataBox by simp

lemma find_replicate: "find P (replicate n a) = (if 0 < n \<and> P a then Some a else None)"
  by (induction n) auto

lemma find_append_cases:
  "find P (xs @ ys) = (case find P xs of None \<Rightarrow> find P ys | Some x \<Rightarrow> Some x)"
  by (induction xs) auto

lemma sorted_manyValues: "sorted manyValues"
  by (auto simp add: manyValues_def sorted_append)

lemma computeBox_manyValues:
  "computeBox manyValues
     = Some \<lparr>bx_min = 0.5, bx_q1 = 0.5, bx_median = 0.5, bx_q3 = 0.5, bx_max = 0.5, bx_iqr = 0,
              bx_outliers = replicate 101 (-1.5) @ replicate 100 1.5 @ [2.5], bx_total = 409\<rparr>"
proof -
  have s: "sort manyValues = manyValues"
    using sorted_manyValues by (rule sorted_sort_id)
  have q: "quantileSorted manyValues 0.25 = Some 0.5" "quantileSorted manyValues 0.5 = Some 0.5"
    "quantileSorted manyValues 0.75 = Some 0.5"
    by (simp_all add: quantileSorted_def manyValues_def Let_def nth_append)
  show ?thesis
    unfolding computeBox_def Let_def s q
    by (simp add: manyValues_def find_append_cases find_replicate lowFence_def highFence_def)
qed

text \<open>
  An instance of the truncation: of 202 values outside the fences the largest, 2.5, is not
  in the published array.
\<close>

lemma outliers_may_omit_largest:
  "computeBox manyValues = Some bx \<Longrightarrow>
   2.5 \<in> set (bx_outliers bx) \<and> (\<forall>v \<in> set (bx_outliers bx). v \<le> 2.5)
   \<and> 2.5 \<notin> set (bc_outliers (case cd_spec (boxCandidate ''delta'' bx) of Box b \<Rightarrow> b))"
  by (auto simp add: computeBox_manyValues boxCandidate_def Let_def)

section \<open>Histograms emitted by generateCharts\<close>

lemma binIndex_range: "1 \<le> bins \<Longrightarrow> 0 \<le> binIndex bins mn spn v \<and> binIndex bins mn spn v < int bins"
  by (simp add: binIndex_def Let_def min_def max_def)

lemma bumpCount_sum:
  "0 \<le> idx \<Longrightarrow> idx < int (length cs) \<Longrightarrow>
   length (bumpCount cs idx) = length cs \<and> sum_list (bumpCount cs idx) = sum_list cs + 1"
  by (simp add: bumpCount_def sum_list_update)

lemma count_loop:
  "1 \<le> bins \<Longrightarrow> length cs = bins \<Longrightarrow>
   length (foldl (\<lambda>cs v. bumpCount cs (binIndex bins mn spn v)) cs vs) = bins
   \<and> sum_list (foldl (\<lambda>cs v. bumpCount cs (binIndex bins mn spn v)) cs vs)
       = sum_list cs + length vs"
proof (induction vs arbitrary: cs)
  case Nil
  then show ?case by simp
next
  case (Cons v vs)
  from binIndex_range [OF Cons.prems(1), of mn spn v] Cons.prems(2)
  have "length (bumpCount cs (binIndex bins mn spn v)) = bins"
    "sum_list (bumpCount cs (binIndex bins mn spn v)) = sum_list cs + 1"
    using bumpCount_sum [of "binIndex bins mn spn v" cs] by simp_all
  with Cons.IH [OF Cons.prems(1), of "bumpCount cs (binIndex bins mn spn v)"]
  show ?case by simp
qed

lemma computeHistogram_total:
  assumes "computeHistogram values bins = Some h" "1 \<le> bins"
  shows "sum_list (hs_counts h) = hs_total h" "hs_total h = length values"
    "length (hs_counts h) = bins"
proof -
  define clean where "clean = sort values"
  define mn where "mn = clean ! 0"
  define spn where "spn = (if clean ! (length clean - 1) - mn = 0 then 1
                           else clean ! (length clean - 1) - mn)"
  from assms(1) have h: "hs_counts h
      = foldl (\<lambda>cs v. bumpCount cs (binIndex bins mn spn v)) (replicate bins 0) clean"
    "hs_total h = length clean"
    by (auto simp add: computeHistogram_def Let_def clean_def mn_def spn_def split: if_splits)
  from count_loop [OF assms(2), of "replicate bins 0" mn spn clean]
  show "sum_list (hs_counts h) = hs_total h" "length (hs_counts h) = bins"
    by (simp_all add: h)
  show "hs_total h = length values" by (simp add: h clean_def)
qed

lemma chooseBins_pos: "1 \<le> chooseBins n"
  by (simp add: chooseBins_def)

lemma histogram_chart_origin:
  assumes "Histogram h \<in> set (generateCharts data eda)"
  shows "\<exists>e col computed. eda = Some e \<and> col \<in> set (numericColsOf data e)
           \<and> computeHistogram (columnValues data col) (chooseBins (length (columnValues data col)))
               = Some computed
           \<and> Histogram h = cd_spec (histogramCandidate col
                                       (chooseBins (length (columnValues data col))) computed)"
proof -
  from generateCharts_subset [OF assms] obtain e c where
    e: "eda = Some e" and c: "c \<in> set (chartCandidates data e)" and s: "cd_spec c = Histogram h"
    by blast
  from chartCandidates_cases [OF c] s
  consider (num) col where "col \<in> set (numericColsOf data e)" "c \<in> set (numericCandidates data e col)"
    | (corr) "c \<in> set (corrCandidates data e (numericColsOf data e))"
    by auto
  then show ?thesis
  proof cases
    case num
    from numericCandidates_cases [OF num(2)] s
    obtain computed where
      "computeHistogram (columnValues data col) (chooseBins (length (columnValues data col)))
         = Some computed"
      "c = histogramCandidate col (chooseBins (length (columnValues data col))) computed"
      by (auto simp add: boxCandidate_def Let_def)
    with num(1) e s show ?thesis by metis
  next
    case corr
    from corrCandidates_cases [OF corr] s show ?thesis by auto
  qed
qed

lemma map_of_tabulate:
  "map_of (map (\<lambda>k. (k, f k)) ks) k = Some v \<Longrightarrow> v = f k"
  by (induction ks) (auto split: if_splits)

lemma columnValues_map_filter:
  "List.map_filter safeToNumberLoose (map (\<lambda>r. getCell r col) data) = columnValues data col"
  by (simp add: columnValues_def List.map_filter_def comp_def filter_map)

lemma columnProfile_numeric:
  assumes "e_type (columnProfile data empties col) = TNumeric"
  shows "e_nonMissingCount (columnProfile data empties col) = Some (length (columnValues data col))"
proof -
  define dec where "dec = decideType col (map (\<lambda>r. getCell r col) data)"
  consider (id) "dec = DId" | (num) "dec \<noteq> DId" "dec = DNumeric \<and> col \<notin> set empties"
    | (date) "dec \<noteq> DId" "\<not> (dec = DNumeric \<and> col \<notin> set empties)" "dec = DDate \<and> col \<notin> set empties"
    | (cat) "dec \<noteq> DId" "\<not> (dec = DNumeric \<and> col \<notin> set empties)"
        "\<not> (dec = DDate \<and> col \<notin> set empties)"
    by blast
  then show ?thesis
  proof cases
    case id
    with assms show ?thesis
      by (simp add: columnProfile_def Let_def dec_def [symmetric] e_type_def)
  next
    case num
    then show ?thesis
      by (simp add: columnProfile_def Let_def dec_def [symmetric] columnValues_map_filter)
  next
    case date
    with assms show ?thesis
      by (simp add: columnProfile_def Let_def dec_def [symmetric] e_type_def)
  next
    case cat
    with assms show ?thesis
      by (simp add: columnProfile_def Let_def dec_def [symmetric] e_type_def)
  qed
qed

lemma runEDA_numeric_nonMissingCount:
  assumes "map_of (r_columns (runEDA data)) col = Some info" "e_type info = TNumeric"
  shows "e_nonMissingCount info = Some (length (columnValues data col))"
proof (cases "data = []")
  case True
  with assms show ?thesis by (simp add: runEDA_def)
next
  case False
  with assms(1) obtain empties where "info = columnProfile data empties col"
    by (auto simp add: runEDA_def Let_def dest: map_of_tabulate)
  with assms(2) columnProfile_numeric show ?thesis by simp
qed

text \<open>
  Claim C2, as amended.  For every histogram that \<^verbatim>\<open>generateCharts\<close> emits, the counts add
  up to \<^verbatim>\<open>total\<close>, and \<^verbatim>\<open>total\<close> is the number of rows whose cell in the column parses
  as a number.  When the profile is the one \<^verbatim>\<open>runEDA\<close> computes and types the column as
  numeric, this is the \<^verbatim>\<open>nonMissingCount\<close> recorded there.
\<close>

theorem histogram_counts_total:
  assumes "Histogram h \<in> set (generateCharts data eda)"
  shows "sum_list (hc_counts h) = hc_total h
         \<and> hc_total h = length (columnValues data (hc_column h))
         \<and> (\<forall>info. eda = Some (runEDA data)
                   \<and> map_of (r_columns (runEDA data)) (hc_column h) = Some info
                   \<and> e_type info = TNumeric
               \<longrightarrow> e_nonMissingCount info = Some (hc_total h))"
proof -
  from histogram_chart_origin [OF assms] obtain col computed where
    ch: "computeHistogram (columnValues data col) (chooseBins (length (columnValues data col)))
           = Some computed"
    and h: "Histogram h = cd_spec (histogramCandidate col
                                     (chooseBins (length (columnValues data col))) computed)"
    by blast
  from h have f: "hc_counts h = hs_counts computed" "hc_total h = hs_total computed"
    "hc_column h = col"
    by (simp_all add: histogramCandidate_def Let_def)
  from computeHistogram_total [OF ch chooseBins_pos] runEDA_numeric_nonMissingCount
  show ?thesis unfolding f by auto
qed

lemma candidates_dataBox_hist:
  "Histogram histOfDataBox \<in> set (map cd_spec (chartCandidates dataBox (runEDA dataBox)))
   \<and> map_option e_type (map_of (r_columns (runEDA dataBox)) ''amount'') = Some TNumeric
   \<and> map_option e_nonMissingCount (map_of (r_columns (runEDA dataBox)) ''amount'') = Some (Some 12)"
  by code_simp

lemma hist_emitted_dataBox:
  "Histogram histOfDataBox \<in> set (generateCharts dataBox (Some (runEDA dataBox)))"
proof -
  have "dataBox \<noteq> []" by (simp add: dataBox_def)
  from generateCharts_small [OF this] candidates_dataBox candidates_dataBox_hist
  show ?thesis by simp
qed

theorem histogram_counts_total_witness:
  "Histogram histOfDataBox \<in> set (generateCharts dataBox (Some (runEDA dataBox)))
   \<and> map_option e_type (map_of (r_columns (runEDA dataBox)) ''amount'') = Some TNumeric
   \<and> map_option e_nonMissingCount (map_of (r_columns (runEDA dataBox)) ''amount'')
       = Some (Some (hc_total histOfDataBox))
   \<and> sum_list (hc_counts histOfDataBox) = hc_total histOfDataBox
   \<and> hc_total histOfDataBox = length (columnValues dataBox ''amount'')"
  using histogram_counts_total [OF hist_emitted_dataBox] hist_emitted_dataBox
    candidates_dataBox_hist
  by (simp add: histOfDataBox_def)

lemma candidates_dataYears:
  "length (chartCandidates dataYears (runEDA dataYears)) \<le> 4
   \<and> Histogram histOfDataYears \<in> set (map cd_spec (chartCandidates dataYears (runEDA dataYears)))
   \<and> map_option e_type (map_of (r_columns (runEDA dataYears)) ''period'') = Some TDate
   \<and> map_option e_nonMissingCount (map_of (r_columns (runEDA dataYears)) ''period'')
       = Some (Some 16)"
  by code_simp

text \<open>
  Claim C2 as stated fails for a column that reaches the histogram loop through the
  numeric fallback detection: \<^verbatim>\<open>runEDA\<close> types the column \<^verbatim>\<open>period\<close> of \<open>dataYears\<close> as a
  date and records 16 parsed dates, the histogram counts the 14 cells that are numbers.
\<close>

theorem histogram_total_differs_from_profile:
  "Histogram histOfDataYears \<in> set (generateCharts dataYears (Some (runEDA dataYears)))
   \<and> map_option e_nonMissingCount (map_of (r_columns (runEDA dataYears)) ''period'')
       = Some (Some 16)
   \<and> hc_total histOfDataYears = 14"
proof -
  have "dataYears \<noteq> []" by (simp add: dataYears_def)
  from generateCharts_small [OF this] candidates_dataYears
  show ?thesis by (simp add: histOfDataYears_def)
qed

section \<open>The KPI strip\<close>

text \<open>
  Claim C4, as amended.  The KPI list has at most 6 entries, and for every row set that is
  not empty its first entry is the row count, labelled \<^verbatim>\<open>Rows\<close>.
\<close>

theorem generateKPIs_rows_first:
  "length (generateKPIs h data eda) \<le> 6
   \<and> (data \<noteq> [] \<longrightarrow>
        generateKPIs h data eda \<noteq> []
        \<and> hd (generateKPIs h data eda)
            = \<lparr>k_column = None, k_label = ''Rows'',
               k_value = toLocaleString h (real (length data)), k_type = KCount\<rparr>)"
  by (simp add: generateKPIs_def Let_def)

theorem generateKPIs_rows_first_witness:
  "data4 \<noteq> [] \<and> length (generateKPIs plainHost data4 (Some eda4)) \<le> 6
   \<and> k_label (hd (generateKPIs plainHost data4 (Some eda4))) = ''Rows''"
proof -
  have ne: "data4 \<noteq> []" by (simp add: data4_def)
  from generateKPIs_rows_first [of plainHost data4 "Some eda4"] ne show ?thesis by simp
qed

text \<open>
  Claim C4 as stated fails on the empty row set, where the guard at the head of
  \<^verbatim>\<open>generateKPIs\<close> returns the empty list.
\<close>

theorem generateKPIs_empty_rows: "generateKPIs plainHost [] (Some (runEDA [])) = []"
  by (simp add: generateKPIs_def)

text \<open>
  The other two cases of claim C8 hold: an identifier-like numeric column and one with
  fewer than 25 values score 0, and only columns with a positive score are candidates.
\<close>

lemma scoreNumericCol_zero:
  "isIdLikeColumn col (Some info) rowCount
   \<or> (case e_nonMissingCount info of None \<Rightarrow> 0 | Some k \<Rightarrow> k) < 25
   \<Longrightarrow> scoreNumericCol col (Some info) rowCount = 0"
  by (auto simp add: scoreNumericCol_def Let_def)

lemma numericKpiCandidates_positive:
  "x \<in> set (numericKpiCandidates eda rowCount) \<Longrightarrow>
   \<exists>info. (fst x, info) \<in> set (r_columns eda) \<and> e_type info = TNumeric
          \<and> snd x = scoreNumericCol (fst x) (Some info) rowCount \<and> 0 < snd x"
proof -
  assume "x \<in> set (numericKpiCandidates eda rowCount)"
  then have "x \<in> set (sort_key (\<lambda>x. - snd x)
       (filter (\<lambda>x. snd x > 0)
          (map (\<lambda>(col, info). (col, scoreNumericCol col (Some info) rowCount))
             (filter (\<lambda>(col, info). e_type info = TNumeric) (r_columns eda)))))"
    unfolding numericKpiCandidates_def by (rule in_set_takeD)
  then show ?thesis by auto
qed

text \<open>
  Claim C8 on a column whose range is degenerate.  The column \<^verbatim>\<open>amount\<close> of \<open>dataFlat\<close>
  has the same value in all 25 rows; \<^verbatim>\<open>scoreNumericCol\<close> gives it the score 1, not 0, the
  filter \<^verbatim>\<open>score > 0\<close> keeps it, and it contributes the total, average and range KPIs.
\<close>

theorem flat_column_gets_kpi_triad:
  "map_option (\<lambda>info. (map_option n_min (e_numeric info), map_option n_max (e_numeric info),
                         scoreNumericCol ''amount'' (Some info) (length dataFlat)))
     (map_of (r_columns (runEDA dataFlat)) ''amount'')
     = Some (Some (Some 7.5), Some (Some 7.5), 1)
   \<and> map k_label (generateKPIs plainHost dataFlat (Some (runEDA dataFlat)))
       = [''Rows'', ''Duplicates'', ''Missing rate'', ''Total amount'', ''Average amount'',
          ''amount range'']"
  by code_simp

section \<open>Answers of the query engine\<close>





















lemma answers_raise: "(case Inl e of Inl e \<Rightarrow> True | Inr t \<Rightarrow> t \<noteq> [])"
  by simp









subsection \<open>The insight rules\<close>

lemma outlierCandidatesOf_warning:
  "list_ex (\<lambda>c. i_severity (oc_insight c) = Warning) (outlierCandidatesOf main col info)
     \<longleftrightarrow> (\<exists>st. e_numeric info = Some st
              \<and> (case n_mean st of None \<Rightarrow> 0 | Some x \<Rightarrow> x) \<noteq> 0
              \<and> 3 \<le> outlierRatio (case n_max st of None \<Rightarrow> 0 | Some x \<Rightarrow> x)
                                  (case n_mean st of None \<Rightarrow> 0 | Some x \<Rightarrow> x))"
  by (cases "e_numeric info")
    (auto simp add: outlierCandidatesOf_def num_def Let_def split: option.splits)

lemma outlierCandidatesOf_score:
  assumes "c \<in> set (outlierCandidatesOf main col info)" "i_severity (oc_insight c) = Warning"
    "e_numeric info = Some st"
  shows "oc_score c = (if main = Some col then 100 else 0)
                       + 10 * outlierRatio (case n_max st of None \<Rightarrow> 0 | Some x \<Rightarrow> x)
                                           (case n_mean st of None \<Rightarrow> 0 | Some x \<Rightarrow> x)
         \<and> i_column (oc_insight c) = Some col \<and> i_action (oc_insight c) = Some Investigate"
  using assms
  by (auto simp add: outlierCandidatesOf_def num_def Let_def split: option.splits if_splits)


lemma outlierRatio_plain: "1 / 10 ^ 9 \<le> mu \<Longrightarrow> outlierRatio mx mu = mx / mu"
  by (simp add: outlierRatio_def max_def)

lemma pushUnique_filter_length:
  "length (filter P (foldl pushUnique acc xs)) \<le> length (filter P acc) + length (filter P xs)"
proof (induction xs arbitrary: acc)
  case Nil
  then show ?case by simp
next
  case (Cons x xs)
  have "length (filter P (pushUnique acc x)) \<le> length (filter P acc) + (if P x then 1 else 0)"
    by (simp add: pushUnique_def)
  moreover have "length (filter P (x # xs)) = (if P x then 1 else 0) + length (filter P xs)"
    by simp
  moreover note Cons.IH [of "pushUnique acc x"]
  ultimately show ?case by simp
qed

lemma qualityInsights_action: "i \<in> set (qualityInsights h eda) \<Longrightarrow> i_action i = Some Clean"
  by (auto simp add: qualityInsights_def split: if_splits)

lemma missingInsight_action: "i \<in> set (missingInsight col info) \<Longrightarrow> i_action i = Some Clean"
  by (auto simp add: missingInsight_def Let_def split: if_splits option.splits)

lemma dominanceCandidatesOf_action:
  assumes "c \<in> set (dominanceCandidatesOf col info)"
  shows "i_action (dc_insight c) = Some Segment"
proof -
  have t: "e_type info = TCategorical"
  proof (rule ccontr)
    assume "e_type info \<noteq> TCategorical"
    then have "dominanceCandidatesOf col info = []" by (simp add: dominanceCandidatesOf_def)
    with assms show False by simp
  qed
  show ?thesis
  proof (cases "e_topValues info")
    case Nil
    with t have "dominanceCandidatesOf col info = []" by (simp add: dominanceCandidatesOf_def)
    with assms show ?thesis by simp
  next
    case (Cons tv tvs)
    show ?thesis
    proof (cases "tv_pct tv \<ge> 70 \<and> e_uniqueCount info \<ge> 2")
      case True
      with t Cons assms show ?thesis by (simp add: dominanceCandidatesOf_def Let_def)
    next
      case False
      with t Cons have "dominanceCandidatesOf col info = []"
        by (simp add: dominanceCandidatesOf_def Let_def)
      with assms show ?thesis by simp
    qed
  qed
qed

lemma keptDominance_action: "i \<in> set (keptDominance eda) \<Longrightarrow> i_action i = Some Segment"
proof -
  assume "i \<in> set (keptDominance eda)"
  then obtain c where "c \<in> set (take 1 (sort_key (\<lambda>x. - dc_score x)
       (concat (map (\<lambda>(col, info). dominanceCandidatesOf col info) (r_columns eda)))))"
    and i: "i = dc_insight c"
    by (auto simp add: keptDominance_def)
  then have "c \<in> set (sort_key (\<lambda>x. - dc_score x)
       (concat (map (\<lambda>(col, info). dominanceCandidatesOf col info) (r_columns eda))))"
    by (meson in_set_takeD)
  then show ?thesis using i by (auto simp add: dominanceCandidatesOf_action)
qed

lemma dateCoverageInsight_action:
  "i \<in> set (dateCoverageInsight eda) \<Longrightarrow> i_action i = Some Monitor"
  by (auto simp add: dateCoverageInsight_def Let_def
      split: if_splits option.splits prod.splits columnKind.splits)

lemma headlineInsight_action: "i \<in> set (headlineInsight eda kpis) \<Longrightarrow> i_action i = Some Report"
  by (auto simp add: headlineInsight_def Let_def split: option.splits)

lemma keptOutliers_length: "length (keptOutliers eda kpis) \<le> 2"
  by (simp add: keptOutliers_def)

lemma filter_none: "(\<And>x. x \<in> set xs \<Longrightarrow> \<not> P x) \<Longrightarrow> filter P xs = []"
  by (simp add: filter_empty_conv)

lemma outlier_warnings_at_most_2:
  "length (filter (\<lambda>i. i_severity i = Warning \<and> i_action i = Some Investigate)
             (generateInsights h eda kpis)) \<le> 2"
proof -
  let ?P = "\<lambda>i. i_severity i = Warning \<and> i_action i = Some Investigate"
  let ?L = "qualityInsights h eda
        @ concat (map (\<lambda>(col, info). missingInsight col info) (r_columns eda))
        @ keptOutliers eda kpis
        @ keptDominance eda
        @ dateCoverageInsight eda
        @ headlineInsight eda kpis"
  have a: "filter ?P (qualityInsights h eda) = []"
    by (rule filter_none) (auto dest: qualityInsights_action)
  have b: "filter ?P (concat (map (\<lambda>(col, info). missingInsight col info) (r_columns eda))) = []"
    by (rule filter_none) (auto dest: missingInsight_action)
  have c: "filter ?P (keptDominance eda) = []"
    by (rule filter_none) (auto dest: keptDominance_action)
  have d: "filter ?P (dateCoverageInsight eda) = []"
    by (rule filter_none) (auto dest: dateCoverageInsight_action)
  have e: "filter ?P (headlineInsight eda kpis) = []"
    by (rule filter_none) (auto dest: headlineInsight_action)
  have "length (filter ?P ?L) = length (filter ?P (keptOutliers eda kpis))"
    by (simp only: filter_append a b c d e append_Nil append_Nil2)
  also have "\<dots> \<le> length (keptOutliers eda kpis)" by (rule length_filter_le)
  also have "\<dots> \<le> 2" by (rule keptOutliers_length)
  finally have L: "length (filter ?P ?L) \<le> 2" .
  have "length (filter ?P (collectedInsights h eda kpis)) \<le> length (filter ?P ?L)"
    using pushUnique_filter_length [of ?P "[]" ?L] by (simp add: collectedInsights_def)
  moreover have "length (filter ?P (sortBusiness (collectedInsights h eda kpis)))
                   = length (filter ?P (collectedInsights h eda kpis))"
    by (simp add: sortBusiness_def filter_sort)
  moreover have "length (filter ?P (generateInsights h eda kpis))
                   \<le> length (filter ?P (sortBusiness (collectedInsights h eda kpis)))"
  proof -
    have "filter ?P (sortBusiness (collectedInsights h eda kpis))
            = filter ?P (take 6 (sortBusiness (collectedInsights h eda kpis)))
              @ filter ?P (drop 6 (sortBusiness (collectedInsights h eda kpis)))"
      by (metis append_take_drop_id filter_append)
    then show ?thesis by (simp add: generateInsights_def)
  qed
  ultimately show ?thesis using L by linarith
qed

lemma sorted_descending_scores:
  assumes "i \<le> j" "j < length xs"
  shows "oc_score (sort_key (\<lambda>x. - oc_score x) xs ! j) \<le> oc_score (sort_key (\<lambda>x. - oc_score x) xs ! i)"
proof -
  let ?S = "sort_key (\<lambda>x. - oc_score x) xs"
  have "sorted (map (\<lambda>x. - oc_score x) ?S)" by (rule sorted_sort_key)
  with assms have "map (\<lambda>x. - oc_score x) ?S ! i \<le> map (\<lambda>x. - oc_score x) ?S ! j"
    by (intro sorted_nth_mono) simp_all
  with assms show ?thesis by simp
qed


lemma pushUnique_subset: "set (foldl pushUnique acc xs) \<subseteq> set acc \<union> set xs"
proof (induction xs arbitrary: acc)
  case Nil
  then show ?case by simp
next
  case (Cons x xs)
  have "set (pushUnique acc x) \<subseteq> set acc \<union> {x}" by (auto simp add: pushUnique_def)
  with Cons.IH [of "pushUnique acc x"] show ?case by auto
qed

lemma generateInsights_subset:
  "set (generateInsights h eda kpis)
     \<subseteq> set (qualityInsights h eda)
       \<union> set (concat (map (\<lambda>(col, info). missingInsight col info) (r_columns eda)))
       \<union> set (keptOutliers eda kpis) \<union> set (keptDominance eda)
       \<union> set (dateCoverageInsight eda) \<union> set (headlineInsight eda kpis)"
proof -
  have "set (generateInsights h eda kpis) \<subseteq> set (sortBusiness (collectedInsights h eda kpis))"
    unfolding generateInsights_def by (rule set_take_subset)
  also have "\<dots> = set (collectedInsights h eda kpis)" by (simp add: sortBusiness_def)
  also have "\<dots> \<subseteq> set (qualityInsights h eda
        @ concat (map (\<lambda>(col, info). missingInsight col info) (r_columns eda))
        @ keptOutliers eda kpis @ keptDominance eda @ dateCoverageInsight eda
        @ headlineInsight eda kpis)"
    unfolding collectedInsights_def using pushUnique_subset [of "[]"] by (simp only: set_simps Un_empty_left)
  finally show ?thesis by (simp only: set_append Un_assoc)
qed

lemma outlier_warning_is_kept:
  assumes "i \<in> set (generateInsights h eda kpis)" "i_action i = Some Investigate"
  shows "i \<in> set (keptOutliers eda kpis)"
proof -
  from assms(1) generateInsights_subset [of h eda kpis] consider
    "i \<in> set (qualityInsights h eda)"
    | "i \<in> set (concat (map (\<lambda>(col, info). missingInsight col info) (r_columns eda)))"
    | "i \<in> set (keptOutliers eda kpis)" | "i \<in> set (keptDominance eda)"
    | "i \<in> set (dateCoverageInsight eda)" | "i \<in> set (headlineInsight eda kpis)"
    by blast
  then show ?thesis
  proof cases
    case 1
    from qualityInsights_action [OF 1] assms(2) show ?thesis by simp
  next
    case 2
    then obtain col info where "i \<in> set (missingInsight col info)" by auto
    from missingInsight_action [OF this] assms(2) show ?thesis by simp
  next
    case 3
    then show ?thesis .
  next
    case 4
    from keptDominance_action [OF 4] assms(2) show ?thesis by simp
  next
    case 5
    from dateCoverageInsight_action [OF 5] assms(2) show ?thesis by simp
  next
    case 6
    from headlineInsight_action [OF 6] assms(2) show ?thesis by simp
  qed
qed

text \<open>
  The outlier rule where the mean is at least \<open>1e-9\<close>, so that the clamp of the divisor
  does nothing.  For a numeric column whose profile holds a maximum \<open>mx\<close> and such a mean
  \<open>mu\<close>, the rule produces its warning exactly when \<open>mx / mu \<ge> 3\<close>, and the warning's score is
  100 for the main metric (0 otherwise) plus ten times the ratio.  The candidates of all
  columns are ranked by descending score, every outlier warning of \<^verbatim>\<open>generateInsights\<close>
  comes from the first two of the ranking, and the output holds at most two of them.
\<close>

lemma outlier_rule_ranked_top_two:
  assumes "map_option n_max (e_numeric info) = Some (Some mx)"
    and "map_option n_mean (e_numeric info) = Some (Some mu)"
    and "1 / 10 ^ 9 \<le> mu"
  shows "(list_ex (\<lambda>c. i_severity (oc_insight c) = Warning) (outlierCandidatesOf main col info)
            \<longleftrightarrow> 3 \<le> mx / mu)
         \<and> (\<forall>c \<in> set (outlierCandidatesOf main col info).
               i_severity (oc_insight c) = Warning
               \<longrightarrow> oc_score c = (if main = Some col then 100 else 0) + 10 * (mx / mu))
         \<and> (\<forall>i j. i \<le> j \<and> j < length (outlierCandidates eda kpis)
               \<longrightarrow> oc_score (sort_key (\<lambda>x. - oc_score x) (outlierCandidates eda kpis) ! j)
                     \<le> oc_score (sort_key (\<lambda>x. - oc_score x) (outlierCandidates eda kpis) ! i))
         \<and> (\<forall>i \<in> set (generateInsights h eda kpis).
               i_severity i = Warning \<and> i_action i = Some Investigate
               \<longrightarrow> i \<in> set (map oc_insight
                              (take 2 (sort_key (\<lambda>x. - oc_score x) (outlierCandidates eda kpis)))))
         \<and> length (filter (\<lambda>i. i_severity i = Warning \<and> i_action i = Some Investigate)
                      (generateInsights h eda kpis)) \<le> 2"
proof -
  from assms(1,2) obtain st where st: "e_numeric info = Some st" "n_max st = Some mx"
    "n_mean st = Some mu"
    by (cases "e_numeric info") auto
  from assms(3) have pos: "mu \<noteq> 0" by auto
  have r: "outlierRatio mx mu = mx / mu" using assms(3) by (rule outlierRatio_plain)
  have a: "list_ex (\<lambda>c. i_severity (oc_insight c) = Warning) (outlierCandidatesOf main col info)
            \<longleftrightarrow> 3 \<le> mx / mu"
    unfolding outlierCandidatesOf_warning using st pos r by simp
  have b: "\<forall>c \<in> set (outlierCandidatesOf main col info).
               i_severity (oc_insight c) = Warning
               \<longrightarrow> oc_score c = (if main = Some col then 100 else 0) + 10 * (mx / mu)"
    using outlierCandidatesOf_score [OF _ _ st(1), of _ main col] st r by auto
  have c: "\<forall>i j. i \<le> j \<and> j < length (outlierCandidates eda kpis)
               \<longrightarrow> oc_score (sort_key (\<lambda>x. - oc_score x) (outlierCandidates eda kpis) ! j)
                     \<le> oc_score (sort_key (\<lambda>x. - oc_score x) (outlierCandidates eda kpis) ! i)"
    using sorted_descending_scores by blast
  have d: "\<forall>i \<in> set (generateInsights h eda kpis).
               i_severity i = Warning \<and> i_action i = Some Investigate
               \<longrightarrow> i \<in> set (map oc_insight
                              (take 2 (sort_key (\<lambda>x. - oc_score x) (outlierCandidates eda kpis))))"
    using outlier_warning_is_kept [of _ h eda kpis] unfolding keptOutliers_def by blast
  from a b c d outlier_warnings_at_most_2 [of h eda kpis] show ?thesis by blast
qed

lemma spike_profile:
  "map_option n_max (e_numeric profileOfSpike) = Some (Some 32)
   \<and> map_option n_mean (e_numeric profileOfSpike) = Some (Some 8)
   \<and> map (\<lambda>i. (i_id i, i_severity i))
        (generateInsights plainHost (runEDA dataSpike)
           (generateKPIs plainHost dataSpike (Some (runEDA dataSpike))))
       = [(''duplicates'', Warning), (''outlier-amount'', Warning), (''skew-amount'', Info)]"
  by code_simp

lemma outlier_rule_on_dataSpike:
  "map_option n_max (e_numeric profileOfSpike) = Some (Some 32)
   \<and> map_option n_mean (e_numeric profileOfSpike) = Some (Some 8)
   \<and> 1 / 10 ^ 9 \<le> (8 :: real)
   \<and> list_ex (\<lambda>c. i_severity (oc_insight c) = Warning)
        (outlierCandidatesOf None ''amount'' profileOfSpike)
   \<and> length (filter (\<lambda>i. i_severity i = Warning \<and> i_action i = Some Investigate)
        (generateInsights plainHost (runEDA dataSpike)
           (generateKPIs plainHost dataSpike (Some (runEDA dataSpike))))) \<le> 2"
proof -
  have m: "map_option n_max (e_numeric profileOfSpike) = Some (Some 32)"
    and u: "map_option n_mean (e_numeric profileOfSpike) = Some (Some 8)"
    using spike_profile by simp_all
  have p: "1 / 10 ^ 9 \<le> (8 :: real)" by simp
  from outlier_rule_ranked_top_two [OF m u p, of None "''amount''" "runEDA dataSpike"
      "generateKPIs plainHost dataSpike (Some (runEDA dataSpike))" plainHost] m u
  show ?thesis by simp
qed

text \<open>
  Claim C5 on a column with a negative mean.  The column \<^verbatim>\<open>profit\<close> of \<open>dataProfit\<close> has the
  maximum 25 and the mean -20.  The rule skips a mean that is 0 only, and its divisor
  \<^verbatim>\<open>Math.max(1e-9, mean)\<close> replaces the negative mean by \<open>1e-9\<close>: the ratio passes the
  threshold and \<^verbatim>\<open>generateInsights\<close> emits the outlier warning, although the mean is not
  positive.  The gap of mean and median, two lines below in the source, is computed for a
  median above 0 only.
\<close>

theorem outlier_warning_with_negative_mean:
  "map_option (\<lambda>info. (map_option n_max (e_numeric info), map_option n_mean (e_numeric info)))
     (map_of (r_columns (runEDA dataProfit)) ''profit'')
     = Some (Some (Some 25), Some (Some (- 20)))
   \<and> map (\<lambda>i. (i_id i, i_severity i, i_column i))
        (generateInsights plainHost (runEDA dataProfit)
           (generateKPIs plainHost dataProfit (Some (runEDA dataProfit))))
       = [(''outlier-profit'', Warning, Some ''profit''),
          (''negatives-profit'', Info, Some ''profit'')]"
  by code_simp


subsection \<open>Identifier columns in the chart candidates\<close>

lemma profile_dataOrders:
  "map_option (\<lambda>info. (e_type info, e_inferredAsId info))
     (map_of (r_columns (runEDA dataOrders)) ''order_id'') = Some (TCategorical, True)
   \<and> isIdLikeNumeric ''order_id'' (map_of (r_columns (runEDA dataOrders)) ''order_id'')
        (length dataOrders)"
  by code_simp

lemma candidates_dataOrders:
  "length (chartCandidates dataOrders (runEDA dataOrders)) \<le> 4
   \<and> list_ex (\<lambda>c. case cd_spec c of
                      Scatter s \<Rightarrow> sc_xColumn s = ''amount'' \<and> sc_yColumn s = ''order_id''
                    | _ \<Rightarrow> False)
        (chartCandidates dataOrders (runEDA dataOrders))"
  by code_simp

text \<open>
  Claim C7 on thirty rows with the columns \<^verbatim>\<open>order_id\<close> = 1, ..., 30 and \<^verbatim>\<open>amount\<close>.
  \<^verbatim>\<open>runEDA\<close> stores \<^verbatim>\<open>order_id\<close> as a categorical profile inferred as identifier, and
  \<^verbatim>\<open>isIdLikeNumeric\<close> holds for it; the numeric fallback detection still adds the column to
  the numeric set, and the scatter loop, which does not ask \<^verbatim>\<open>isIdLikeNumeric\<close>, plots it
  against \<^verbatim>\<open>amount\<close> in a chart that \<^verbatim>\<open>generateCharts\<close> emits.
\<close>

theorem order_id_enters_scatter_chart:
  "map_option (\<lambda>info. (e_type info, e_inferredAsId info))
     (map_of (r_columns (runEDA dataOrders)) ''order_id'') = Some (TCategorical, True)
   \<and> isIdLikeNumeric ''order_id'' (map_of (r_columns (runEDA dataOrders)) ''order_id'')
        (length dataOrders)
   \<and> list_ex (\<lambda>c. case c of
                      Scatter s \<Rightarrow> sc_xColumn s = ''amount'' \<and> sc_yColumn s = ''order_id''
                    | _ \<Rightarrow> False)
        (generateCharts dataOrders (Some (runEDA dataOrders)))"
proof -
  have ne: "dataOrders \<noteq> []" by (simp add: dataOrders_def)
  from candidates_dataOrders obtain c where
    c: "c \<in> set (chartCandidates dataOrders (runEDA dataOrders))"
    and s: "case cd_spec c of
              Scatter s \<Rightarrow> sc_xColumn s = ''amount'' \<and> sc_yColumn s = ''order_id''
            | _ \<Rightarrow> False"
    unfolding list_ex_iff by blast
  from c generateCharts_small [OF ne] candidates_dataOrders
  have "cd_spec c \<in> set (generateCharts dataOrders (Some (runEDA dataOrders)))" by simp
  with s have "list_ex (\<lambda>c. case c of
                      Scatter s \<Rightarrow> sc_xColumn s = ''amount'' \<and> sc_yColumn s = ''order_id''
                    | _ \<Rightarrow> False)
        (generateCharts dataOrders (Some (runEDA dataOrders)))"
    unfolding list_ex_iff by blast
  with profile_dataOrders show ?thesis by simp
qed


subsection \<open>The correlation matrix\<close>

lemma zip_swap_sum:
  "sum_list (map (\<lambda>(a, b). f a b) (zip xs ys)) = sum_list (map (\<lambda>(b, a). f a b) (zip ys xs))"
proof (induction xs arbitrary: ys)
  case Nil
  then show ?case by simp
next
  case (Cons x xs)
  then show ?case by (cases ys) simp_all
qed

lemma pearson_sym: "pearson x y = pearson y x"
proof -
  let ?mx = "mean x" and ?my = "mean y"
  have n: "sum_list (map (\<lambda>(xi, yi). (xi - ?mx) * (yi - ?my)) (zip x y))
             = sum_list (map (\<lambda>(yi, xi). (yi - ?my) * (xi - ?mx)) (zip y x))"
    using zip_swap_sum [of "\<lambda>a b. (a - ?mx) * (b - ?my)" x y] by (simp add: mult.commute)
  have a: "sum_list (map (\<lambda>(xi, yi). (xi - ?mx) * (xi - ?mx)) (zip x y))
             = sum_list (map (\<lambda>(yi, xi). (xi - ?mx) * (xi - ?mx)) (zip y x))"
    using zip_swap_sum [of "\<lambda>a b. (a - ?mx) * (a - ?mx)" x y] by simp
  have b: "sum_list (map (\<lambda>(xi, yi). (yi - ?my) * (yi - ?my)) (zip x y))
             = sum_list (map (\<lambda>(yi, xi). (yi - ?my) * (yi - ?my)) (zip y x))"
    using zip_swap_sum [of "\<lambda>a b. (b - ?my) * (b - ?my)" x y] by simp
  show ?thesis
  proof (cases "length x = length y")
    case True
    then show ?thesis unfolding pearson_def Let_def n a b by (simp add: mult.commute)
  next
    case False
    then show ?thesis unfolding pearson_def by auto
  qed
qed

lemma sum_squares_zero:
  "sum_list (map (\<lambda>a. (a - m) * (a - m)) (xs :: real list)) = 0 \<longleftrightarrow> (\<forall>v \<in> set xs. v = m)"
proof (induction xs)
  case Nil
  then show ?case by simp
next
  case (Cons x xs)
  have "0 \<le> sum_list (map (\<lambda>a. (a - m) * (a - m)) xs)"
    by (rule sum_list_nonneg) auto
  moreover have "0 \<le> (x - m) * (x - m)" by simp
  ultimately have "(x - m) * (x - m) + sum_list (map (\<lambda>a. (a - m) * (a - m)) xs) = 0
                     \<longleftrightarrow> (x - m) * (x - m) = 0 \<and> sum_list (map (\<lambda>a. (a - m) * (a - m)) xs) = 0"
    by (simp add: add_nonneg_eq_0_iff)
  with Cons.IH show ?case by simp
qed

lemma pearson_self:
  assumes "8 \<le> length x"
  shows "pearson x x = (if \<forall>v \<in> set x. v = mean x then None else Some 1)"
proof -
  let ?S = "sum_list (map (\<lambda>a. (a - mean x) * (a - mean x)) x)"
  have z: "zip x x = map (\<lambda>a. (a, a)) x" by (rule zip_same_conv_map)
  have s: "sum_list (map (\<lambda>(xi, yi). (xi - mean x) * (yi - mean x)) (zip x x)) = ?S"
    "sum_list (map (\<lambda>(xi, yi). (xi - mean x) * (xi - mean x)) (zip x x)) = ?S"
    "sum_list (map (\<lambda>(xi, yi). (yi - mean x) * (yi - mean x)) (zip x x)) = ?S"
    unfolding z by (simp_all add: comp_def)
  have nn: "0 \<le> ?S" by (rule sum_list_nonneg) auto
  then have r: "sqrt (?S * ?S) = ?S" by simp
  have p: "pearson x x = (if ?S = 0 then None else Some (?S / ?S))"
    unfolding pearson_def Let_def s r using assms by simp
  show ?thesis
  proof (cases "\<forall>v \<in> set x. v = mean x")
    case True
    with sum_squares_zero [of "mean x" x] p show ?thesis by simp
  next
    case False
    with sum_squares_zero [of "mean x" x] have "?S \<noteq> 0" by blast
    with p False show ?thesis by simp
  qed
qed

lemma two_values_not_constant:
  assumes "2 \<le> card (set xs)"
  shows "\<not> (\<forall>v \<in> set xs. v = m)"
proof
  assume "\<forall>v \<in> set xs. v = m"
  then have "set xs \<subseteq> {m}" by auto
  then have "card (set xs) \<le> card {m}" by (intro card_mono) simp_all
  with assms show False by simp
qed

lemma mean_constant:
  assumes "xs \<noteq> []" "\<forall>w \<in> set xs. w = v"
  shows "mean xs = v"
proof -
  from assms(2) have "xs = replicate (length xs) v" by (simp add: replicate_length_same)
  then have "sum_list xs = sum_list (replicate (length xs) v)" by simp
  also have "\<dots> = real (length xs) * v" by (simp add: sum_list_replicate)
  finally have "sum_list xs = real (length xs) * v" .
  moreover from assms(1) have "max 1 (length xs) = length xs" by (cases xs) simp_all
  ultimately show ?thesis using assms(1) by (simp add: mean_def)
qed

lemma constant_or_two_values:
  assumes "xs \<noteq> []"
  shows "(\<forall>v \<in> set xs. v = mean xs) \<or> 2 \<le> card (set xs)"
proof (cases "\<forall>v \<in> set xs. v = mean xs")
  case True
  then show ?thesis by simp
next
  case False
  then obtain v where v: "v \<in> set xs" "v \<noteq> mean xs" by blast
  with mean_constant [OF assms, of v] obtain w where w: "w \<in> set xs" "w \<noteq> v" by blast
  with v have "{v, w} \<subseteq> set xs" by simp
  then have "card {v, w} \<le> card (set xs)" by (intro card_mono) simp_all
  with w show ?thesis by simp
qed

lemma filter_zip_key:
  assumes "distinct cols" "c \<in> set cols"
  shows "map snd (filter (\<lambda>kv. fst kv = c) (zip cols (map f cols))) = [f c]"
  using assms
proof (induction cols)
  case Nil
  then show ?case by simp
next
  case (Cons k ks)
  show ?case
  proof (cases "k = c")
    case True
    with Cons.prems have "c \<notin> set ks" by simp
    then have "filter (\<lambda>kv. fst kv = c) (zip ks (map f ks)) = []"
      by (auto simp add: filter_empty_conv dest: set_zip_leftD)
    with True show ?thesis by simp
  next
    case False
    with Cons show ?thesis by simp
  qed
qed

lemma series_of_complete_rows:
  assumes "distinct cols" "c \<in> set cols"
  shows "seriesOf cols (completeRows data cols) c
           = map (\<lambda>r. the (safeToNumberLoose (getCell r c)))
               (filter (\<lambda>r. \<forall>k \<in> set cols. safeToNumberLoose (getCell r k) \<noteq> None) data)"
proof (induction data)
  case Nil
  then show ?case by (simp add: seriesOf_def completeRows_def map_filter_simps)
next
  case (Cons r rs)
  from assms(2) have ne: "cols \<noteq> []" by auto
  have k: "map snd (filter (\<lambda>kv. fst kv = c)
             (zip cols (map the (map (\<lambda>k. safeToNumberLoose (getCell r k)) cols))))
           = [the (safeToNumberLoose (getCell r c))]"
    using filter_zip_key [OF assms, of "\<lambda>k. the (safeToNumberLoose (getCell r k))"]
    by (simp add: comp_def)
  have a: "list_all (\<lambda>v. v \<noteq> None) (map (\<lambda>k. safeToNumberLoose (getCell r k)) cols)
             \<longleftrightarrow> (\<forall>k \<in> set cols. safeToNumberLoose (getCell r k) \<noteq> None)"
    by (simp add: list_all_iff)
  show ?case
  proof (cases "\<forall>k \<in> set cols. safeToNumberLoose (getCell r k) \<noteq> None")
    case True
    with a have "completeRows (r # rs) cols
                   = map the (map (\<lambda>k. safeToNumberLoose (getCell r k)) cols) # completeRows rs cols"
      using ne by (simp add: completeRows_def map_filter_simps Let_def)
    then have "seriesOf cols (completeRows (r # rs) cols) c
                 = the (safeToNumberLoose (getCell r c)) # seriesOf cols (completeRows rs cols) c"
      using k by (simp add: seriesOf_def)
    with Cons.IH True show ?thesis by simp
  next
    case False
    with a have "completeRows (r # rs) cols = completeRows rs cols"
      using ne by (simp add: completeRows_def map_filter_simps Let_def)
    with Cons.IH False show ?thesis by simp
  qed
qed

lemma series_length:
  assumes "distinct cols" "c \<in> set cols" "d \<in> set cols"
  shows "length (seriesOf cols (completeRows data cols) c)
           = length (seriesOf cols (completeRows data cols) d)"
  by (simp add: series_of_complete_rows [OF assms(1)] assms)

lemma distinct_setAdd: "distinct xs \<Longrightarrow> distinct (foldl setAdd xs ys)"
proof (induction ys arbitrary: xs)
  case Nil
  then show ?case by simp
next
  case (Cons y ys)
  from Cons.prems have "distinct (setAdd xs y)" by (simp add: setAdd_def)
  from Cons.IH [OF this] show ?case by simp
qed

lemma distinct_numericColsOf: "distinct (numericColsOf data e)"
  unfolding numericColsOf_def Let_def newSet_def
  by (intro distinct_setAdd) simp

lemma distinct_rankedColumns: "distinct ns \<Longrightarrow> distinct (rankedColumns e ns)"
  by (simp add: rankedColumns_def)

lemma buildCorrMatrix_entries:
  assumes "buildCorrMatrix data cols = Some (m, n)"
  shows "m = map (\<lambda>ci. map (\<lambda>cj. case pearson (seriesOf cols (completeRows data cols) ci)
                                            (seriesOf cols (completeRows data cols) cj) of
                                 None \<Rightarrow> 0 | Some r \<Rightarrow> r) cols) cols
         \<and> 40 \<le> n
         \<and> (\<forall>c0 \<in> set (take 1 cols). n = length (seriesOf cols (completeRows data cols) c0))"
proof -
  let ?n = "case cols of [] \<Rightarrow> 0 | c0 # _ \<Rightarrow> length (seriesOf cols (completeRows data cols) c0)"
  have "\<not> ?n < 40"
  proof
    assume "?n < 40"
    then have "buildCorrMatrix data cols = None" by (simp add: buildCorrMatrix_def Let_def)
    with assms show False by simp
  qed
  with assms show ?thesis
    by (cases cols) (auto simp add: buildCorrMatrix_def Let_def)
qed

lemma corr_chart_origin:
  assumes "Corr c \<in> set (generateCharts data eda)"
  shows "\<exists>n. buildCorrMatrix data (cc_columns c) = Some (cc_matrix c, n)
             \<and> distinct (cc_columns c)"
proof -
  from generateCharts_subset [OF assms] obtain e cand where
    e: "eda = Some e" and cand: "cand \<in> set (chartCandidates data e)"
    and s: "cd_spec cand = Corr c"
    by blast
  from chartCandidates_cases [OF cand] s
  consider (num) col where "cand \<in> set (numericCandidates data e col)"
    | (corr) "cand \<in> set (corrCandidates data e (numericColsOf data e))"
    by auto
  then show ?thesis
  proof cases
    case num
    from numericCandidates_cases [OF num] s show ?thesis
      by (auto simp add: histogramCandidate_def boxCandidate_def Let_def)
  next
    case corr
    from corrCandidates_cases [OF corr] s obtain m n where
      "buildCorrMatrix data (rankedColumns e (numericColsOf data e)) = Some (m, n)"
      "c = \<lparr>cc_column = ''Correlation (numeric)'',
             cc_columns = rankedColumns e (numericColsOf data e), cc_matrix = m\<rparr>"
      by auto
    with distinct_rankedColumns [OF distinct_numericColsOf, of e data] show ?thesis by auto
  qed
qed

text \<open>
  Claim C6, as amended.  In every correlation chart that \<^verbatim>\<open>generateCharts\<close> emits, the
  matrix is square over the selected columns and symmetric, and the diagonal entry of a
  column is 1 when the column has at least two distinct values among the rows that enter
  the matrix, the rows where every selected column parses as a number.  The diagonal
  entry of a column that is constant over those rows is 0.
\<close>

theorem corr_chart_symmetric_unit_diagonal:
  assumes "Corr c \<in> set (generateCharts data eda)"
  shows "length (cc_matrix c) = length (cc_columns c)
         \<and> (\<forall>i < length (cc_columns c). length (cc_matrix c ! i) = length (cc_columns c))
         \<and> (\<forall>i < length (cc_columns c). \<forall>j < length (cc_columns c).
               cc_matrix c ! i ! j = cc_matrix c ! j ! i)
         \<and> (\<forall>i < length (cc_columns c).
               cc_matrix c ! i ! i
                 = (if 2 \<le> card (set (seriesOf (cc_columns c)
                                          (completeRows data (cc_columns c)) (cc_columns c ! i)))
                    then 1 else 0))"
proof -
  let ?cols = "cc_columns c"
  let ?S = "seriesOf ?cols (completeRows data ?cols)"
  let ?g = "\<lambda>ci cj. case pearson (?S ci) (?S cj) of None \<Rightarrow> 0 | Some r \<Rightarrow> r"
  from corr_chart_origin [OF assms] obtain n where
    b: "buildCorrMatrix data ?cols = Some (cc_matrix c, n)" and d: "distinct ?cols"
    by blast
  from buildCorrMatrix_entries [OF b] have
    m: "cc_matrix c = map (\<lambda>ci. map (\<lambda>cj. ?g ci cj) ?cols) ?cols"
    and n40: "40 \<le> n"
    and n: "\<forall>c0 \<in> set (take 1 ?cols). n = length (?S c0)"
    by simp_all
  have entry: "cc_matrix c ! i ! j = ?g (?cols ! i) (?cols ! j)"
    if "i < length ?cols" "j < length ?cols" for i j
    using that by (subst m) simp
  have len: "length (cc_matrix c) = length ?cols" by (subst m) simp
  have rows: "\<forall>i < length ?cols. length (cc_matrix c ! i) = length ?cols"
    by (subst m) simp
  have sym: "\<forall>i < length ?cols. \<forall>j < length ?cols. cc_matrix c ! i ! j = cc_matrix c ! j ! i"
    using entry pearson_sym by simp
  have diag: "cc_matrix c ! i ! i = (if 2 \<le> card (set (?S (?cols ! i))) then 1 else 0)"
    if i: "i < length ?cols" for i
  proof -
    from i have ne: "?cols \<noteq> []" by auto
    then have h: "hd ?cols \<in> set (take 1 ?cols)" "hd ?cols \<in> set ?cols"
      by (cases ?cols; simp)+
    from i have ci: "?cols ! i \<in> set ?cols" by simp
    from n h(1) have "n = length (?S (hd ?cols))" by blast
    with series_length [OF d ci h(2), of data] n40 have l: "8 \<le> length (?S (?cols ! i))"
      by simp
    show ?thesis
    proof (cases "2 \<le> card (set (?S (?cols ! i)))")
      case True
      from two_values_not_constant [OF True] pearson_self [OF l] True entry [OF i i]
      show ?thesis by simp
    next
      case False
      from l have "?S (?cols ! i) \<noteq> []" by auto
      from constant_or_two_values [OF this] False
      have "\<forall>v \<in> set (?S (?cols ! i)). v = mean (?S (?cols ! i))" by blast
      with pearson_self [OF l] False entry [OF i i] show ?thesis by simp
    qed
  qed
  from len rows sym diag show ?thesis by blast
qed

lemma columnProfile_DNumeric:
  assumes "decideType col (map (\<lambda>r. getCell r col) data) = DNumeric" "col \<notin> set empties"
  shows "e_type (columnProfile data empties col) = TNumeric"
    and "e_inferredAsId (columnProfile data empties col) = False"
    and "e_uniqueCount (columnProfile data empties col)
           = length (tally (map cellString (filter (\<lambda>v. \<not> isMissing v)
                                               (map (\<lambda>r. getCell r col) data))))"
    and "e_nonMissingCount (columnProfile data empties col) = Some (length (columnValues data col))"
  using assms by (simp_all add: columnProfile_def Let_def e_type_def columnValues_map_filter)

lemma columns_dataCorr:
  "newSet (concat (map (map fst) dataCorr)) = [''a'', ''b'', ''c'', ''d'']
   \<and> filter (\<lambda>col. list_all (\<lambda>r. isMissing (getCell r col)) dataCorr)
         [''a'', ''b'', ''c'', ''d''] = []
   \<and> length dataCorr = 41"
  by code_simp

lemma decideType_dataCorr:
  "map (\<lambda>col. decideType col (map (\<lambda>r. getCell r col) dataCorr)) [''a'', ''b'', ''c'', ''d'']
     = [DNumeric, DNumeric, DNumeric, DNumeric]"
  by code_simp

lemma counts_dataCorr:
  "map (\<lambda>col. (nameHintsId col,
                 length (tally (map cellString (filter (\<lambda>v. \<not> isMissing v)
                                                  (map (\<lambda>r. getCell r col) dataCorr)))),
                 length (columnValues dataCorr col)))
     [''a'', ''b'', ''c'', ''d'']
     = [(False, 2, 41), (False, 40, 40), (False, 41, 41), (False, 41, 41)]"
  by code_simp

lemma detect_dataCorr:
  "detectNumericLikeColumns dataCorr [''a'', ''b'', ''c'', ''d''] [''a''] = [''b'', ''c'', ''d'']
   \<and> detectDateLikeColumns dataCorr [''a'', ''b'', ''c'', ''d''] [] = []"
  by code_simp

lemma numericCandidates_length: "length (numericCandidates data e col) \<le> 2"
  by (simp add: numericCandidates_def Let_def split: option.splits)

lemma corrCandidates_spec:
  assumes "4 \<le> length ns" "4 \<le> length (rankedColumns e ns)"
    "buildCorrMatrix data (rankedColumns e ns) = Some (m, n)"
  shows "map cd_spec (corrCandidates data e ns)
           = [Corr \<lparr>cc_column = ''Correlation (numeric)'', cc_columns = rankedColumns e ns,
                     cc_matrix = m\<rparr>]"
  unfolding corrCandidates_def
  apply (simp only: Let_def assms if_True option.case prod.case)
  apply simp
  done

lemma buildCorrMatrix_Some:
  assumes "cols \<noteq> []" "40 \<le> length (seriesOf cols (completeRows data cols) (hd cols))"
  shows "\<exists>m. buildCorrMatrix data cols
                = Some (m, length (seriesOf cols (completeRows data cols) (hd cols)))"
  using assms by (cases cols) (simp_all add: buildCorrMatrix_def Let_def)

lemma rankedColumns_small:
  assumes "length ns \<le> 10"
  shows "set (rankedColumns e ns) = set ns" and "length (rankedColumns e ns) = length ns"
  using assms by (simp_all add: rankedColumns_def)

lemma diagonal_map:
  "map (\<lambda>i. map (\<lambda>ci. map (\<lambda>cj. g ci cj) cols) cols ! i ! i) [0 ..< length cols]
     = map (\<lambda>c. g c c) cols"
  by (rule nth_equalityI) simp_all

lemma dataCorr_nonempty: "dataCorr \<noteq> []"
  by (simp add: dataCorr_def)

lemma r_columns_dataCorr:
  "r_columns (runEDA dataCorr)
     = map (\<lambda>col. (col, columnProfile dataCorr [] col)) [''a'', ''b'', ''c'', ''d'']"
  using columns_dataCorr dataCorr_nonempty by (simp add: runEDA_def Let_def)

lemma profiles_dataCorr:
  "list_all (\<lambda>col. e_type (columnProfile dataCorr [] col) = TNumeric)
     [''a'', ''b'', ''c'', ''d'']"
  "map (\<lambda>col. isIdLikeNumeric col (Some (columnProfile dataCorr [] col)) 41)
     [''a'', ''b'', ''c'', ''d''] = [False, True, True, True]"
proof -
  from decideType_dataCorr have
    d: "decideType ''a'' (map (\<lambda>r. getCell r ''a'') dataCorr) = DNumeric"
       "decideType ''b'' (map (\<lambda>r. getCell r ''b'') dataCorr) = DNumeric"
       "decideType ''c'' (map (\<lambda>r. getCell r ''c'') dataCorr) = DNumeric"
       "decideType ''d'' (map (\<lambda>r. getCell r ''d'') dataCorr) = DNumeric"
    by simp_all
  note p = d [THEN columnProfile_DNumeric(1), of "[]", simplified]
    d [THEN columnProfile_DNumeric(2), of "[]", simplified]
    d [THEN columnProfile_DNumeric(3), of "[]", simplified]
    d [THEN columnProfile_DNumeric(4), of "[]", simplified]
  from p show "list_all (\<lambda>col. e_type (columnProfile dataCorr [] col) = TNumeric)
     [''a'', ''b'', ''c'', ''d'']"
    by simp
  from counts_dataCorr p
  show "map (\<lambda>col. isIdLikeNumeric col (Some (columnProfile dataCorr [] col)) 41)
     [''a'', ''b'', ''c'', ''d''] = [False, True, True, True]"
    by (simp add: isIdLikeNumeric_def Let_def)
qed

lemma numericColsOf_dataCorr:
  "numericColsOf dataCorr (runEDA dataCorr) = [''a'', ''b'', ''c'', ''d'']"
  using profiles_dataCorr columns_dataCorr detect_dataCorr
  by (simp add: numericColsOf_def r_columns_dataCorr Let_def newSet_def setAdd_def)

lemma dateColsOf_dataCorr: "dateColsOf dataCorr (runEDA dataCorr) = []"
  using profiles_dataCorr(1) detect_dataCorr
  by (simp add: dateColsOf_def r_columns_dataCorr Let_def newSet_def)

lemma catColsOf_dataCorr: "catColsOf dataCorr (runEDA dataCorr) = []"
  using profiles_dataCorr(1)
  by (simp add: catColsOf_def numericColsOf_dataCorr dateColsOf_dataCorr r_columns_dataCorr
      Let_def newSet_def)

lemma numericCandidates_dataCorr:
  "numericCandidates dataCorr (runEDA dataCorr) ''b'' = []"
  "numericCandidates dataCorr (runEDA dataCorr) ''c'' = []"
  "numericCandidates dataCorr (runEDA dataCorr) ''d'' = []"
  using profiles_dataCorr(2) columns_dataCorr
  by (simp_all add: numericCandidates_def r_columns_dataCorr Let_def)

lemma chartCandidates_dataCorr:
  "chartCandidates dataCorr (runEDA dataCorr)
     = numericCandidates dataCorr (runEDA dataCorr) ''a''
       @ take 1 (sort_key (\<lambda>c. - cd_score c)
                   (scatterCandidates dataCorr [''a'', ''b'', ''c'', ''d'']))
       @ corrCandidates dataCorr (runEDA dataCorr) [''a'', ''b'', ''c'', ''d'']"
  by (simp add: chartCandidates_def numericColsOf_dataCorr dateColsOf_dataCorr
      catColsOf_dataCorr numericCandidates_dataCorr Let_def)

lemma complete_rows_dataCorr:
  "map (\<lambda>r. the (safeToNumberLoose (getCell r ''a'')))
     (filter (\<lambda>r. \<forall>k \<in> set [''a'', ''b'', ''c'', ''d'']. safeToNumberLoose (getCell r k) \<noteq> None)
        dataCorr) = replicate 40 1
   \<and> map (\<lambda>col. card (set (columnValues dataCorr col))) [''a'', ''b'', ''c'', ''d'']
       = [2, 40, 41, 41]"
  by code_simp

lemma ranked_dataCorr:
  "set (rankedColumns (runEDA dataCorr) [''a'', ''b'', ''c'', ''d'']) = {''a'', ''b'', ''c'', ''d''}"
  "length (rankedColumns (runEDA dataCorr) [''a'', ''b'', ''c'', ''d'']) = 4"
  "distinct (rankedColumns (runEDA dataCorr) [''a'', ''b'', ''c'', ''d''])"
  using rankedColumns_small [of "[''a'', ''b'', ''c'', ''d'']" "runEDA dataCorr"]
    distinct_rankedColumns [of "[''a'', ''b'', ''c'', ''d'']" "runEDA dataCorr"]
  by simp_all

lemma series_a_dataCorr:
  "seriesOf (rankedColumns (runEDA dataCorr) [''a'', ''b'', ''c'', ''d''])
     (completeRows dataCorr (rankedColumns (runEDA dataCorr) [''a'', ''b'', ''c'', ''d''])) ''a''
     = replicate 40 1"
proof -
  have "''a'' \<in> set (rankedColumns (runEDA dataCorr) [''a'', ''b'', ''c'', ''d''])"
    by (simp add: ranked_dataCorr(1))
  from series_of_complete_rows [OF ranked_dataCorr(3) this, of dataCorr] complete_rows_dataCorr
  show ?thesis by (simp only: ranked_dataCorr(1) set_simps)
qed

lemma matrix_dataCorr:
  "\<exists>n. buildCorrMatrix dataCorr (cc_columns corrOfDataCorr) = Some (cc_matrix corrOfDataCorr, n)"
proof -
  let ?R = "rankedColumns (runEDA dataCorr) [''a'', ''b'', ''c'', ''d'']"
  from ranked_dataCorr(2) have ne: "?R \<noteq> []" by auto
  then have "hd ?R \<in> set ?R" by simp
  moreover have "''a'' \<in> set ?R" by (simp add: ranked_dataCorr(1))
  ultimately have "length (seriesOf ?R (completeRows dataCorr ?R) (hd ?R))
                     = length (seriesOf ?R (completeRows dataCorr ?R) ''a'')"
    using series_length [OF ranked_dataCorr(3)] by blast
  with series_a_dataCorr have "40 \<le> length (seriesOf ?R (completeRows dataCorr ?R) (hd ?R))"
    by simp
  from buildCorrMatrix_Some [OF ne this] obtain m n where
    "buildCorrMatrix dataCorr ?R = Some (m, n)" by blast
  then show ?thesis by (simp add: corrOfDataCorr_def)
qed

lemma corr_emitted_dataCorr:
  "Corr corrOfDataCorr \<in> set (generateCharts dataCorr (Some (runEDA dataCorr)))"
proof -
  let ?R = "rankedColumns (runEDA dataCorr) [''a'', ''b'', ''c'', ''d'']"
  from matrix_dataCorr obtain n where
    b: "buildCorrMatrix dataCorr ?R = Some (cc_matrix corrOfDataCorr, n)"
    by (auto simp add: corrOfDataCorr_def)
  have "map cd_spec (corrCandidates dataCorr (runEDA dataCorr) [''a'', ''b'', ''c'', ''d''])
          = [Corr \<lparr>cc_column = ''Correlation (numeric)'', cc_columns = ?R,
                    cc_matrix = cc_matrix corrOfDataCorr\<rparr>]"
    by (rule corrCandidates_spec [OF _ _ b]) (simp_all add: ranked_dataCorr(2))
  also have "\<lparr>cc_column = ''Correlation (numeric)'', cc_columns = ?R,
               cc_matrix = cc_matrix corrOfDataCorr\<rparr> = corrOfDataCorr"
    by (simp add: corrOfDataCorr_def)
  finally have s: "map cd_spec (corrCandidates dataCorr (runEDA dataCorr) [''a'', ''b'', ''c'', ''d''])
                     = [Corr corrOfDataCorr]" .
  then have l: "length (corrCandidates dataCorr (runEDA dataCorr) [''a'', ''b'', ''c'', ''d'']) = 1"
    by (metis length_map length_Cons list.size(3) One_nat_def)
  have len: "length (chartCandidates dataCorr (runEDA dataCorr)) \<le> 4"
    using numericCandidates_length [of dataCorr "runEDA dataCorr" "''a''"] l
    by (simp add: chartCandidates_dataCorr)
  from s have "Corr corrOfDataCorr
                 \<in> cd_spec ` set (corrCandidates dataCorr (runEDA dataCorr) [''a'', ''b'', ''c'', ''d''])"
    by (metis list.set_intros(1) set_map)
  then have "Corr corrOfDataCorr \<in> cd_spec ` set (chartCandidates dataCorr (runEDA dataCorr))"
    by (auto simp add: chartCandidates_dataCorr)
  with generateCharts_small [OF dataCorr_nonempty len] show ?thesis by simp
qed

lemma diagonal_a_dataCorr:
  "map_of (zip (cc_columns corrOfDataCorr)
              (map (\<lambda>i. cc_matrix corrOfDataCorr ! i ! i) [0 ..< length (cc_columns corrOfDataCorr)]))
     ''a'' = Some 0"
proof -
  let ?R = "cc_columns corrOfDataCorr"
  let ?S = "seriesOf ?R (completeRows dataCorr ?R)"
  let ?g = "\<lambda>ci cj. case pearson (?S ci) (?S cj) of None \<Rightarrow> 0 | Some r \<Rightarrow> r"
  have R: "?R = rankedColumns (runEDA dataCorr) [''a'', ''b'', ''c'', ''d'']"
    by (simp add: corrOfDataCorr_def)
  from matrix_dataCorr obtain n where
    b: "buildCorrMatrix dataCorr ?R = Some (cc_matrix corrOfDataCorr, n)" by blast
  from buildCorrMatrix_entries [OF b]
  have m: "cc_matrix corrOfDataCorr = map (\<lambda>ci. map (\<lambda>cj. ?g ci cj) ?R) ?R" by simp
  have "map (\<lambda>i. cc_matrix corrOfDataCorr ! i ! i) [0 ..< length ?R] = map (\<lambda>c. ?g c c) ?R"
    by (subst m) (rule diagonal_map)
  then have "map_of (zip ?R (map (\<lambda>i. cc_matrix corrOfDataCorr ! i ! i) [0 ..< length ?R])) ''a''
               = map_of (zip ?R (map (\<lambda>c. ?g c c) ?R)) ''a''"
    by simp
  also have "\<dots> = Some (?g ''a'' ''a'')"
    using ranked_dataCorr(1) by (simp add: map_of_zip_map R)
  also have "?g ''a'' ''a'' = 0"
  proof -
    have s: "?S ''a'' = replicate 40 1" unfolding R by (rule series_a_dataCorr)
    have "mean (replicate 40 (1 :: real)) = 1" by (rule mean_constant) simp_all
    with pearson_self [of "replicate 40 (1 :: real)"] have "pearson (?S ''a'') (?S ''a'') = None"
      unfolding s by simp
    then show ?thesis by simp
  qed
  finally show ?thesis .
qed

theorem corr_chart_symmetric_unit_diagonal_witness:
  "Corr corrOfDataCorr \<in> set (generateCharts dataCorr (Some (runEDA dataCorr)))
   \<and> length (cc_columns corrOfDataCorr) = 4
   \<and> length (cc_matrix corrOfDataCorr) = 4
   \<and> cc_matrix corrOfDataCorr ! 0 ! 1 = cc_matrix corrOfDataCorr ! 1 ! 0"
proof -
  note t = corr_chart_symmetric_unit_diagonal [OF corr_emitted_dataCorr]
  have l: "length (cc_columns corrOfDataCorr) = 4"
    by (simp add: corrOfDataCorr_def ranked_dataCorr(2))
  from t l have m: "length (cc_matrix corrOfDataCorr) = 4" by simp
  from t [THEN conjunct2, THEN conjunct2, THEN conjunct1, rule_format, of 0 1] l
  have "cc_matrix corrOfDataCorr ! 0 ! 1 = cc_matrix corrOfDataCorr ! 1 ! 0" by simp
  with corr_emitted_dataCorr l m show ?thesis by simp
qed

text \<open>
  Claim C6 as stated fails when a column varies in the data but not in the rows that
  enter the matrix.  In \<open>dataCorr\<close> the column \<^verbatim>\<open>a\<close> is 1 in forty rows and 42 in the row
  whose \<^verbatim>\<open>b\<close> is missing; \<^verbatim>\<open>buildCorrMatrix\<close> drops that row, the series of \<^verbatim>\<open>a\<close> is
  constant, \<^verbatim>\<open>pearson\<close> returns \<^verbatim>\<open>null\<close> and the diagonal entry of \<^verbatim>\<open>a\<close> is 0.
\<close>

theorem corr_chart_diagonal_zero:
  "Corr corrOfDataCorr \<in> set (generateCharts dataCorr (Some (runEDA dataCorr)))
   \<and> set (cc_columns corrOfDataCorr) = {''a'', ''b'', ''c'', ''d''}
   \<and> map (\<lambda>col. card (set (columnValues dataCorr col))) [''a'', ''b'', ''c'', ''d'']
       = [2, 40, 41, 41]
   \<and> map_of (zip (cc_columns corrOfDataCorr)
                (map (\<lambda>i. cc_matrix corrOfDataCorr ! i ! i)
                   [0 ..< length (cc_columns corrOfDataCorr)])) ''a'' = Some 0"
  using corr_emitted_dataCorr ranked_dataCorr(1) complete_rows_dataCorr diagonal_a_dataCorr
  by (simp add: corrOfDataCorr_def)

end
